theory Spec2Isabelle
  imports Main "HOL-Library.Sublist"
begin

section \<open>Strings as the generator uses them\<close>

text \<open>
  Type and field names are JavaScript strings; they are modelled as \<^typ>\<open>string\<close>.
  The string methods the generator calls are written out below, argument order as in
  the source (\<open>s.startsWith(p)\<close> is \<open>startsWith s p\<close>).
\<close>

fun startsWith :: "string \<Rightarrow> string \<Rightarrow> bool" where
  "startsWith s [] = True"
| "startsWith [] (c # cs) = False"
| "startsWith (x # xs) (c # cs) = (x = c \<and> startsWith xs cs)"

definition endsWith :: "string \<Rightarrow> string \<Rightarrow> bool" where
  "endsWith s suf = startsWith (rev s) (rev suf)"

text \<open>\<open>s.includes(sub)\<close> (the name \<open>includes\<close> is reserved).\<close>

fun includesStr :: "string \<Rightarrow> string \<Rightarrow> bool" where
  "includesStr [] sub = (sub = [])"
| "includesStr (c # cs) sub = (startsWith (c # cs) sub \<or> includesStr cs sub)"

text \<open>\<open>s.slice(start, end)\<close> for \<open>start \<ge> 0\<close> and an \<open>end\<close> that may be negative.\<close>

definition slice :: "string \<Rightarrow> nat \<Rightarrow> int \<Rightarrow> string" where
  "slice s start e =
     (let len = int (length s);
          stop = (if e < 0 then max (len + e) 0 else min e len)
      in take (nat stop - start) (drop start s))"

text \<open>\<open>s.replace(pat, rep)\<close> with a string pattern: the first occurrence only.\<close>

fun replace :: "string \<Rightarrow> string \<Rightarrow> string \<Rightarrow> string" where
  "replace [] pat rep = (if pat = [] then rep else [])"
| "replace (c # cs) pat rep =
     (if startsWith (c # cs) pat then rep @ drop (length pat) (c # cs)
      else c # replace cs pat rep)"

text \<open>\<open>xs.join(sep)\<close>.\<close>

fun join :: "string list \<Rightarrow> string \<Rightarrow> string" where
  "join [] sep = []"
| "join [x] sep = x"
| "join (x # y # ys) sep = x @ sep @ join (y # ys) sep"

text \<open>
  The two regular expressions of the source, \<open>/.+Create.+Input/\<close> and
  \<open>/.+Update.+Input/\<close>, have the shape \<open>/.+A.+B/\<close>. A dot matches any character
  but a line terminator. \<open>dotPlusLit lit s\<close> says that a prefix of \<open>s\<close> matches
  \<open>.+lit\<close>; \<open>regexAt A B s\<close> that a prefix of \<open>s\<close> matches \<open>.+A.+B\<close>;
  \<open>regexTest\<close> is the unanchored \<open>RegExp.test\<close>.
\<close>

definition isDot :: "char \<Rightarrow> bool" where
  "isDot c = (c \<noteq> CHR 0x0A \<and> c \<noteq> CHR 0x0D)"

fun dotPlusLit :: "string \<Rightarrow> string \<Rightarrow> bool" where
  "dotPlusLit lit [] = False"
| "dotPlusLit lit (c # cs) = (isDot c \<and> (startsWith cs lit \<or> dotPlusLit lit cs))"

fun regexAt :: "string \<Rightarrow> string \<Rightarrow> string \<Rightarrow> bool" where
  "regexAt A B [] = False"
| "regexAt A B (c # cs) =
     (isDot c \<and> ((startsWith cs A \<and> dotPlusLit B (drop (length A) cs)) \<or> regexAt A B cs))"

fun regexTest :: "string \<Rightarrow> string \<Rightarrow> string \<Rightarrow> bool" where
  "regexTest A B [] = False"
| "regexTest A B (c # cs) = (regexAt A B (c # cs) \<or> regexTest A B cs)"

section \<open>The data model (dmmf/types.ts as used by the sources)\<close>

datatype error =
    TypeError
  | ModelTypeNotFound string
  | PrimaryKeyFieldNotFound string string
  | UniqueFieldNotFound string string
  | WhereConditionError string
  | UnresolvedType string
  | GeneratorFailure string

datatype field_location = Scalar | InputObjectTypes | OutputObjectTypes | EnumTypes | FieldRefTypes

datatype field_kind = KindScalar | KindObject | KindEnum | KindUnsupported

datatype InputOmitSetting = Create | Update | Where | OrderBy

text \<open>\<open>isOmitted.input\<close> is a boolean or an array of settings.\<close>

datatype input_omit = OmitBool bool | OmitSettings "InputOmitSetting list"

text \<open>
  A \<open>TypeInfo\<close> (also an \<open>InputTypeRef\<close>, an output type reference and a
  \<open>SchemaArgInputType\<close>): the triple of type name, location and list flag.
\<close>

record type_info =
  ti_type :: string
  ti_location :: field_location
  ti_isList :: bool

text \<open>
  A field of a raw model. The documentation string is represented by what
  \<open>parseDocumentationAttributes\<close> (dmmf/helpers.ts, not among the sources at hand)
  reads from it: the \<open>field\<close> attribute's name and the \<open>omit\<close> attribute's
  \<open>output\<close> and \<open>input\<close>; \<open>None\<close> is \<open>undefined\<close>.
\<close>

record prisma_field =
  pf_name :: string
  pf_kind :: field_kind
  pf_type :: string
  pf_isList :: bool
  pf_isRequired :: bool
  pf_isId :: bool
  pf_isUnique :: bool
  pf_relationName :: "string option"
  pf_attrName :: "string option"
  pf_attrOmitOutput :: "bool option"
  pf_attrOmitInput :: "input_omit option"

text \<open>
  A \<open>DMMF.ModelField\<close>. \<open>mf_typeInfoType\<close> is the \<open>type\<close> of the
  \<open>typeInfo\<close> that \<open>transformModelField\<close> builds and hands to
  \<open>getFieldTSType\<close> and \<open>getTypeGraphQLType\<close>, whose results are the field's
  emitted types \<open>mf_fieldTSType\<close> and \<open>mf_typeGraphQLType\<close>.
\<close>

record model_field =
  mf_name :: string
  mf_type :: string
  mf_isList :: bool
  mf_isRequired :: bool
  mf_isId :: bool
  mf_isUnique :: bool
  mf_relationName :: "string option"
  mf_location :: field_location
  mf_typeFieldAlias :: "string option"
  mf_typeInfoType :: "string option"
  mf_fieldTSType :: string
  mf_typeGraphQLType :: string
  mf_isOmittedInput :: input_omit
  mf_isOmittedOutput :: bool

text \<open>A primary key or a unique index: an optional name and the field names.\<close>

record key_index =
  ki_name :: "string option"
  ki_fields :: "string list"

text \<open>
  A raw model, with the \<open>type\<close> attribute's name and plural and the \<open>omit\<close>
  attribute's \<open>output\<close> as read from its documentation.
\<close>

record prisma_model =
  pm_name :: string
  pm_fields :: "prisma_field list"
  pm_primaryKey :: "key_index option"
  pm_uniqueIndexes :: "key_index list"
  pm_attrName :: "string option"
  pm_attrPlural :: "string option"
  pm_attrOmitOutput :: "bool option"

record model =
  md_name :: string
  md_typeName :: string
  md_fields :: "model_field list"
  md_primaryKey :: "key_index option"
  md_uniqueIndexes :: "key_index list"
  md_plural :: "string option"
  md_isOmittedOutput :: bool

record prisma_enum =
  pe_name :: string
  pe_values :: "string list"

record dmmf_enum =
  en_name :: string
  en_typeName :: string
  en_valuesMap :: "(string \<times> string) list"

text \<open>A raw argument or input field; the deprecation marker is optional.\<close>

record prisma_schema_arg =
  psa_name :: string
  psa_isRequired :: bool
  psa_inputTypes :: "type_info list"
  psa_deprecation :: "string option"

record schema_arg =
  sa_name :: string
  sa_isRequired :: bool
  sa_inputTypes :: "type_info list"
  sa_deprecation :: "string option"
  sa_selectedInputType :: type_info
  sa_typeGraphQLType :: string
  sa_fieldTSType :: string
  sa_typeName :: string
  sa_hasMappedName :: bool
  sa_isOmitted :: bool

record prisma_input_type =
  pit_name :: string
  pit_fields :: "prisma_schema_arg list"

record input_type =
  in_name :: string
  in_typeName :: string
  in_fields :: "schema_arg list"

record prisma_output_field =
  pof_name :: string
  pof_isNullable :: "bool option"
  pof_outputType :: type_info
  pof_args :: "prisma_schema_arg list"
  pof_deprecation :: "string option"

record output_field =
  of_name :: string
  of_isRequired :: bool
  of_outputType :: type_info
  of_fieldTSType :: string
  of_typeGraphQLType :: string
  of_args :: "schema_arg list"
  of_argsTypeName :: "string option"
  of_deprecation :: "string option"

record prisma_output_type =
  pot_name :: string
  pot_fields :: "prisma_output_field list"

record output_type =
  ot_name :: string
  ot_typeName :: string
  ot_fields :: "output_field list"

record generator_options =
  useUncheckedScalarInputs :: bool
  useSimpleInputs :: bool
  omitInputFieldsByDefault :: "string list option"
  omitOutputFieldsByDefault :: "string list option"

text \<open>
  The state of a \<open>DmmfDocument\<close>: its lists and its caches. A \<open>Map\<close> is a
  partial function; \<open>set\<close> on a present key overwrites.
\<close>

record dmmf_document =
  doc_options :: generator_options
  doc_models :: "model list"
  doc_enums :: "dmmf_enum list"
  doc_modelsCache :: "string \<rightharpoonup> model"
  doc_modelTypeNameCache :: "string set"
  doc_fieldAliasCache :: "string \<rightharpoonup> (string \<rightharpoonup> string)"
  doc_enumsCache :: "string \<rightharpoonup> dmmf_enum"
  doc_modelFieldsCache :: "string \<rightharpoonup> (string \<rightharpoonup> model_field)"
  doc_outputTypeCache :: "string \<rightharpoonup> output_type"
  doc_outputTypeFieldsCache :: "string \<rightharpoonup> (string \<rightharpoonup> output_field)"

text \<open>
  The \<open>typeInfo\<close> argument of \<open>getFieldTSType\<close> and \<open>getTypeGraphQLType\<close>:
  its type, which is \<open>undefined\<close> when a lookup of a model type name missed, its
  location and its list flag.
\<close>

type_synonym type_info_arg = "string option \<times> field_location \<times> bool"

definition typeInfoArg :: "type_info \<Rightarrow> type_info_arg" where
  "typeInfoArg t = (Some (ti_type t), ti_location t, ti_isList t)"

text \<open>
  The functions of helpers.ts that the sources call and that are not among the sources
  at hand, and \<open>String.prototype.toLocaleLowerCase\<close>, whose result depends on the
  host's locale. Every definition below takes them as the parameter \<open>h\<close>.
  \<open>getFieldTSType\<close> takes the document, the \<open>typeInfo\<close>, \<open>isRequired\<close> and
  \<open>isInputType\<close>; \<open>getTypeGraphQLType\<close> takes the \<open>typeInfo\<close>, the document
  and the optional \<open>isIdField\<close>. Both may throw.
\<close>

record helpers =
  pascalCase :: "string \<Rightarrow> string"
  camelCase :: "string \<Rightarrow> string"
  getInputTypeName :: "string \<Rightarrow> dmmf_document \<Rightarrow> string"
  getModelNameFromInputType :: "string \<Rightarrow> string option"
  getFieldTSType :: "dmmf_document \<Rightarrow> type_info_arg \<Rightarrow> bool \<Rightarrow> bool \<Rightarrow> error + string"
  getTypeGraphQLType :: "type_info_arg \<Rightarrow> dmmf_document \<Rightarrow> bool option \<Rightarrow> error + string"
  toLocaleLowerCase :: "string \<Rightarrow> string"

text \<open>An \<open>undefined\<close> inside a template literal prints as the word.\<close>

definition templ :: "string option \<Rightarrow> string" where
  "templ v = (case v of None \<Rightarrow> ''undefined'' | Some s \<Rightarrow> s)"

text \<open>An optional string is truthy when it is present and not empty.\<close>

definition truthy :: "string option \<Rightarrow> bool" where
  "truthy v = (case v of None \<Rightarrow> False | Some s \<Rightarrow> s \<noteq> [])"

text \<open>A callback that may throw, mapped over an array: the first throw ends the map.\<close>

fun mapE :: "('a \<Rightarrow> error + 'b) \<Rightarrow> 'a list \<Rightarrow> error + 'b list" where
  "mapE f [] = Inr []"
| "mapE f (x # xs) =
     (case f x of
        Inl e \<Rightarrow> Inl e
      | Inr y \<Rightarrow> (case mapE f xs of Inl e \<Rightarrow> Inl e | Inr ys \<Rightarrow> Inr (y # ys)))"

section \<open>Lookups of the document (dmmf-document.ts)\<close>

definition getModelTypeName :: "helpers \<Rightarrow> dmmf_document \<Rightarrow> string \<Rightarrow> string option" where
  "getModelTypeName h doc modelName =
     (case doc_modelsCache doc modelName of
        Some cachedModel \<Rightarrow> Some (md_typeName cachedModel)
      | None \<Rightarrow>
          map_option md_typeName
            (find (\<lambda>it. toLocaleLowerCase h (md_name it) = toLocaleLowerCase h modelName)
               (doc_models doc)))"

definition isModelName :: "dmmf_document \<Rightarrow> string \<Rightarrow> bool" where
  "isModelName doc typeName = (doc_modelsCache doc typeName \<noteq> None)"

definition getModelFieldAlias :: "dmmf_document \<Rightarrow> string \<Rightarrow> string \<Rightarrow> string option" where
  "getModelFieldAlias doc modelName fieldName =
     (case doc_fieldAliasCache doc modelName of
        None \<Rightarrow> None
      | Some fieldAliases \<Rightarrow> fieldAliases fieldName)"

definition getModelField :: "dmmf_document \<Rightarrow> string \<Rightarrow> string \<Rightarrow> model_field option" where
  "getModelField doc modelName fieldName =
     (case doc_modelFieldsCache doc modelName of
        None \<Rightarrow> None
      | Some modelFields \<Rightarrow> modelFields fieldName)"

definition getOutputTypeField :: "dmmf_document \<Rightarrow> string \<Rightarrow> string \<Rightarrow> output_field option" where
  "getOutputTypeField doc outputTypeName fieldName =
     (case doc_outputTypeFieldsCache doc outputTypeName of
        None \<Rightarrow> None
      | Some outputTypeFields \<Rightarrow> outputTypeFields fieldName)"

section \<open>Selection of an input type variant (transform.ts)\<close>

text \<open>The denylist of compound-operation shapes tested when simple inputs are requested.\<close>

definition isCompoundOperationInput :: "string \<Rightarrow> bool" where
  "isCompoundOperationInput t =
     (includesStr t ''OperationsInput'' \<or> includesStr t ''CreateEnvelopeInput''
      \<or> regexTest ''Create'' ''Input'' t \<or> regexTest ''Update'' ''Input'' t)"

definition isObjectCandidate :: "generator_options \<Rightarrow> type_info \<Rightarrow> bool" where
  "isObjectCandidate opts it =
     (ti_location it = InputObjectTypes
      \<and> (\<not> useSimpleInputs opts \<or> \<not> isCompoundOperationInput (ti_type it)))"

definition isScalarCandidate :: "type_info \<Rightarrow> bool" where
  "isScalarCandidate it = (ti_location it = Scalar \<and> ti_type it \<noteq> ''Null'')"

definition isEnumCandidate :: "type_info \<Rightarrow> bool" where
  "isEnumCandidate it = (ti_location it = EnumTypes)"

text \<open>The variable \<open>possibleInputTypes\<close> after its four assignments.\<close>

definition possibleInputTypes :: "generator_options \<Rightarrow> type_info list \<Rightarrow> type_info list" where
  "possibleInputTypes opts inputTypes =
     (let p1 = filter (isObjectCandidate opts) inputTypes;
          p2 = (if length p1 = 0 then filter isScalarCandidate inputTypes else p1);
          p3 = (if length p2 = 0 then filter isEnumCandidate inputTypes else p2)
      in if length p3 = 0 then inputTypes else p3)"

text \<open>
  The variable \<open>selectedInputType\<close>: \<open>find(isList) || (unchecked && find(Unchecked)) || [0]\<close>.
  \<open>None\<close> is JavaScript's \<open>undefined\<close>, the value of \<open>possibleInputTypes[0]\<close> on
  an empty array.
\<close>

definition selectedInputType :: "generator_options \<Rightarrow> type_info list \<Rightarrow> type_info option" where
  "selectedInputType opts possible =
     (case find ti_isList possible of
        Some it \<Rightarrow> Some it
      | None \<Rightarrow>
          (case (if useUncheckedScalarInputs opts
                 then find (\<lambda>it. includesStr (ti_type it) ''Unchecked'') possible
                 else None) of
             Some it \<Rightarrow> Some it
           | None \<Rightarrow> (case possible of [] \<Rightarrow> None | it # _ \<Rightarrow> Some it)))"

text \<open>
  \<open>selectInputTypeFromTypes\<close>. Reading a property of \<open>undefined\<close> (no candidate
  at all, or an enumeration the document does not have) is a \<open>TypeError\<close>.
\<close>

definition selectInputTypeFromTypes ::
  "helpers \<Rightarrow> dmmf_document \<Rightarrow> type_info list \<Rightarrow> error + type_info" where
  "selectInputTypeFromTypes h doc inputTypes =
     (case selectedInputType (doc_options doc)
             (possibleInputTypes (doc_options doc) inputTypes) of
        None \<Rightarrow> Inl TypeError
      | Some sel \<Rightarrow>
          if ti_location sel = EnumTypes then
            (case find (\<lambda>it. en_name it = ti_type sel) (doc_enums doc) of
               None \<Rightarrow> Inl TypeError
             | Some enumDef \<Rightarrow> Inr (sel\<lparr>ti_type := en_typeName enumDef\<rparr>))
          else if ti_location sel = InputObjectTypes then
            Inr (sel\<lparr>ti_type := getInputTypeName h (ti_type sel) doc\<rparr>)
          else Inr sel)"

section \<open>Models and their fields (transform.ts)\<close>

definition transformBareModel :: "helpers \<Rightarrow> prisma_model \<Rightarrow> model" where
  "transformBareModel h m =
     \<lparr> md_name = pm_name m,
       md_typeName = (case pm_attrName m of Some n \<Rightarrow> n | None \<Rightarrow> pascalCase h (pm_name m)),
       md_fields = [],
       md_primaryKey = pm_primaryKey m,
       md_uniqueIndexes = pm_uniqueIndexes m,
       md_plural = pm_attrPlural m,
       md_isOmittedOutput = (case pm_attrOmitOutput m of Some b \<Rightarrow> b | None \<Rightarrow> False) \<rparr>"

text \<open>
  \<open>transformModelField\<close>. The check that \<open>field.type\<close> is a string is met by the
  type of \<open>pf_type\<close>. A name that \<open>isModelName\<close> accepts is in \<open>modelsCache\<close>, so
  \<open>getModelTypeName\<close> finds it. The field's emitted types come from
  \<open>getFieldTSType\<close> and then \<open>getTypeGraphQLType\<close>; a throw of either is the
  result.
\<close>

definition transformModelField ::
  "helpers \<Rightarrow> dmmf_document \<Rightarrow> prisma_field \<Rightarrow> error + model_field" where
  "transformModelField h doc field =
     (let location =
            (if pf_kind field = KindEnum then EnumTypes
             else if pf_kind field = KindObject then OutputObjectTypes
             else Scalar);
          typeInfoType =
            (if isModelName doc (pf_type field) then getModelTypeName h doc (pf_type field)
             else Some (pf_type field));
          typeInfo = (typeInfoType, location, pf_isList field)
      in case getFieldTSType h doc typeInfo (pf_isRequired field) False of
           Inl e \<Rightarrow> Inl e
         | Inr fieldTSType \<Rightarrow>
             (case getTypeGraphQLType h typeInfo doc (Some (pf_isId field)) of
                Inl e \<Rightarrow> Inl e
              | Inr typeGraphQLType \<Rightarrow>
                  Inr \<lparr> mf_name = pf_name field,
                        mf_type = pf_type field,
                        mf_isList = pf_isList field,
                        mf_isRequired = pf_isRequired field,
                        mf_isId = pf_isId field,
                        mf_isUnique = pf_isUnique field,
                        mf_relationName = pf_relationName field,
                        mf_location = location,
                        mf_typeFieldAlias = pf_attrName field,
                        mf_typeInfoType = typeInfoType,
                        mf_fieldTSType = fieldTSType,
                        mf_typeGraphQLType = typeGraphQLType,
                        mf_isOmittedInput =
                          (case pf_attrOmitInput field of
                             Some v \<Rightarrow> v
                           | None \<Rightarrow>
                               (case omitInputFieldsByDefault (doc_options doc) of
                                  Some names \<Rightarrow> OmitBool (pf_name field \<in> set names)
                                | None \<Rightarrow> OmitBool False)),
                        mf_isOmittedOutput =
                          (case pf_attrOmitOutput field of
                             Some v \<Rightarrow> v
                           | None \<Rightarrow>
                               (case omitOutputFieldsByDefault (doc_options doc) of
                                  Some names \<Rightarrow> pf_name field \<in> set names
                                | None \<Rightarrow> False)) \<rparr>))"

definition transformModelWithFields ::
  "helpers \<Rightarrow> dmmf_document \<Rightarrow> prisma_model \<Rightarrow> error + model" where
  "transformModelWithFields h doc m =
     (case mapE (transformModelField h doc) (pm_fields m) of
        Inl e \<Rightarrow> Inl e
      | Inr flds \<Rightarrow> Inr ((transformBareModel h m)\<lparr> md_fields := flds \<rparr>))"

section \<open>Enumerations (transform.ts)\<close>

definition ENUM_SUFFIXES :: "string list" where
  "ENUM_SUFFIXES = [''OrderByRelevanceFieldEnum'', ''ScalarFieldEnum'']"

definition transformEnums :: "helpers \<Rightarrow> dmmf_document \<Rightarrow> prisma_enum \<Rightarrow> dmmf_enum" where
  "transformEnums h doc enumDef =
     (let detectedSuffix = find (\<lambda>sfx. endsWith (pe_name enumDef) sfx) ENUM_SUFFIXES;
          modelName = map_option (\<lambda>sfx. replace (pe_name enumDef) sfx []) detectedSuffix;
          typeName =
            (case detectedSuffix of
               None \<Rightarrow> pe_name enumDef
             | Some sfx \<Rightarrow>
                 templ (getModelTypeName h doc (replace (pe_name enumDef) sfx [])) @ sfx)
      in \<lparr> en_name = pe_name enumDef,
           en_typeName = typeName,
           en_valuesMap =
             map (\<lambda>enumValueName.
                    (enumValueName,
                     (case modelName of
                        None \<Rightarrow> enumValueName
                      | Some mn \<Rightarrow>
                          if mn = [] then enumValueName
                          else (case getModelFieldAlias doc mn enumValueName of
                                  None \<Rightarrow> enumValueName
                                | Some a \<Rightarrow> if a = [] then enumValueName else a))))
                 (pe_values enumDef) \<rparr>)"

section \<open>Construction of the document, first part (dmmf-document.ts)\<close>

text \<open>
  The callback of the second \<open>models.map\<close>: it transforms one model against the
  document as it stands and records the result in the caches. \<open>doc_models\<close> is
  assigned only when the whole map has returned. The map of aliases has an entry as soon
  as one field has a truthy alias, which is how its size is tested.
\<close>

definition cacheModel :: "dmmf_document \<Rightarrow> prisma_model \<Rightarrow> model \<Rightarrow> dmmf_document" where
  "cacheModel doc m transformed =
     (let fieldAliases =
            fold (\<lambda>field fa.
                    (case mf_typeFieldAlias field of
                       None \<Rightarrow> fa
                     | Some a \<Rightarrow> if a = [] then fa else fa(mf_name field \<mapsto> a)))
                 (md_fields transformed) Map.empty;
          fieldAliasesSize = length (filter (\<lambda>field. truthy (mf_typeFieldAlias field))
                                       (md_fields transformed));
          modelFields =
            fold (\<lambda>field mfs. mfs(mf_name field \<mapsto> field)) (md_fields transformed) Map.empty
      in doc\<lparr> doc_modelsCache := (doc_modelsCache doc)(pm_name m \<mapsto> transformed),
              doc_modelTypeNameCache := insert (md_typeName transformed) (doc_modelTypeNameCache doc),
              doc_modelFieldsCache := (doc_modelFieldsCache doc)(pm_name m \<mapsto> modelFields),
              doc_fieldAliasCache :=
                (if fieldAliasesSize > 0
                 then (doc_fieldAliasCache doc)(pm_name m \<mapsto> fieldAliases)
                 else doc_fieldAliasCache doc) \<rparr>)"

fun transformModels ::
  "helpers \<Rightarrow> dmmf_document \<Rightarrow> prisma_model list \<Rightarrow> error + model list \<times> dmmf_document" where
  "transformModels h doc [] = Inr ([], doc)"
| "transformModels h doc (m # ms) =
     (case transformModelWithFields h doc m of
        Inl e \<Rightarrow> Inl e
      | Inr transformed \<Rightarrow>
          (case transformModels h (cacheModel doc m transformed) ms of
             Inl e \<Rightarrow> Inl e
           | Inr (rest, doc') \<Rightarrow> Inr (transformed # rest, doc')))"

fun cacheEnums :: "helpers \<Rightarrow> dmmf_document \<Rightarrow> prisma_enum list \<Rightarrow> dmmf_enum list \<times> dmmf_document" where
  "cacheEnums h doc [] = ([], doc)"
| "cacheEnums h doc (e # es) =
     (let transformed = transformEnums h doc e;
          (rest, doc') =
            cacheEnums h (doc\<lparr> doc_enumsCache := (doc_enumsCache doc)(pe_name e \<mapsto> transformed) \<rparr>) es
      in (transformed # rest, doc'))"

definition emptyDocument :: "generator_options \<Rightarrow> dmmf_document" where
  "emptyDocument opts =
     \<lparr> doc_options = opts, doc_models = [], doc_enums = [],
       doc_modelsCache = Map.empty, doc_modelTypeNameCache = {},
       doc_fieldAliasCache = Map.empty, doc_enumsCache = Map.empty,
       doc_modelFieldsCache = Map.empty, doc_outputTypeCache = Map.empty,
       doc_outputTypeFieldsCache = Map.empty \<rparr>"

text \<open>
  The constructor up to the second transformation of the enumerations: \<open>models\<close> is
  \<open>datamodel.models.concat(datamodel.types)\<close> and \<open>enumTypes\<close> the concatenated
  enumerations of the schema. A throw while a field is transformed ends it.
\<close>

definition constructModels ::
  "helpers \<Rightarrow> generator_options \<Rightarrow> prisma_model list \<Rightarrow> prisma_enum list
     \<Rightarrow> error + dmmf_document" where
  "constructModels h opts models enumTypes =
     (let doc0 = emptyDocument opts;
          doc1 = doc0\<lparr> doc_models := map (transformBareModel h) models \<rparr>;
          doc2 = doc1\<lparr> doc_enums := map (transformEnums h doc1) enumTypes \<rparr>
      in case transformModels h doc2 models of
           Inl e \<Rightarrow> Inl e
         | Inr (transformed, doc3) \<Rightarrow>
             (let doc4 = doc3\<lparr> doc_models := transformed \<rparr>;
                  (enums, doc5) = cacheEnums h doc4 enumTypes
              in Inr (doc5\<lparr> doc_enums := enums \<rparr>)))"

section \<open>Output type names (transform.ts)\<close>

definition DEDICATED_TYPE_SUFFIXES :: "string list" where
  "DEDICATED_TYPE_SUFFIXES =
     [''CountAggregateOutputType'', ''MinAggregateOutputType'', ''MaxAggregateOutputType'',
      ''AvgAggregateOutputType'', ''SumAggregateOutputType'', ''GroupByOutputType'',
      ''CountOutputType'']"

text \<open>
  The body of \<open>getMappedOutputTypeName\<close> below the cache lookup: the value of
  \<open>result\<close>, or the error thrown. An empty string is falsy.
\<close>

definition mappedOutputTypeName :: "helpers \<Rightarrow> dmmf_document \<Rightarrow> string \<Rightarrow> error + string" where
  "mappedOutputTypeName h doc outputTypeName =
     (if startsWith outputTypeName ''Aggregate'' then
        Inr (''Aggregate'' @ templ (getModelTypeName h doc (drop 9 outputTypeName)))
      else if startsWith outputTypeName ''CreateMany''
              \<and> endsWith outputTypeName ''AndReturnOutputType'' then
        Inr (''CreateManyAndReturn''
             @ templ (getModelTypeName h doc (slice outputTypeName 10 (- 19))))
      else if isModelName doc outputTypeName then
        (case getModelTypeName h doc outputTypeName of
           None \<Rightarrow> Inl (ModelTypeNotFound outputTypeName)
         | Some r \<Rightarrow> if r = [] then Inl (ModelTypeNotFound outputTypeName) else Inr r)
      else
        (case find (\<lambda>sfx. endsWith outputTypeName sfx) DEDICATED_TYPE_SUFFIXES of
           Some dedicatedTypeSuffix \<Rightarrow>
             Inr (templ (getModelTypeName h doc
                           (slice outputTypeName 0 (- int (length dedicatedTypeSuffix))))
                  @ replace dedicatedTypeSuffix ''OutputType'' [])
         | None \<Rightarrow> Inr outputTypeName))"

text \<open>
  \<open>getMappedOutputTypeName\<close> with the module-level \<open>outputTypeNameCache\<close> passed
  in and returned. A throw leaves the cache as it was.
\<close>

type_synonym name_cache = "string \<rightharpoonup> string"

definition clearOutputTypeNameCache :: name_cache where
  "clearOutputTypeNameCache = Map.empty"

definition getMappedOutputTypeName ::
  "helpers \<Rightarrow> dmmf_document \<Rightarrow> name_cache \<Rightarrow> string \<Rightarrow> (error + string) \<times> name_cache" where
  "getMappedOutputTypeName h doc cache outputTypeName =
     (case cache outputTypeName of
        Some cached \<Rightarrow> (Inr cached, cache)
      | None \<Rightarrow>
          (case mappedOutputTypeName h doc outputTypeName of
             Inl e \<Rightarrow> (Inl e, cache)
           | Inr result \<Rightarrow> (Inr result, cache(outputTypeName \<mapsto> result))))"

text \<open>A sequence of calls within one run, each on the cache the previous one left.\<close>

fun getMappedOutputTypeNames ::
  "helpers \<Rightarrow> dmmf_document \<Rightarrow> name_cache \<Rightarrow> string list \<Rightarrow> (error + string) list \<times> name_cache" where
  "getMappedOutputTypeNames h doc cache [] = ([], cache)"
| "getMappedOutputTypeNames h doc cache (n # ns) =
     (let (r, cache') = getMappedOutputTypeName h doc cache n;
          (rs, cache'') = getMappedOutputTypeNames h doc cache' ns
      in (r # rs, cache''))"

section \<open>Input and output types of the schema (transform.ts)\<close>

definition uncheckedScalarInputsFilter :: "dmmf_document \<Rightarrow> prisma_input_type \<Rightarrow> bool" where
  "uncheckedScalarInputsFilter doc inputType =
     (if useUncheckedScalarInputs (doc_options doc) then True
      else \<not> includesStr (pit_name inputType) ''Unchecked'')"

text \<open>The value of \<open>isOmitted\<close> for a field of the input type named \<open>inputTypeName\<close>.\<close>

definition inputFieldIsOmitted :: "model_field option \<Rightarrow> string \<Rightarrow> bool" where
  "inputFieldIsOmitted modelField inputTypeName =
     (case modelField of
        None \<Rightarrow> False
      | Some mf \<Rightarrow>
          (case mf_isOmittedInput mf of
             OmitBool b \<Rightarrow> b
           | OmitSettings settings \<Rightarrow>
               (Create \<in> set settings \<and> includesStr inputTypeName ''Create'')
               \<or> (Update \<in> set settings \<and> includesStr inputTypeName ''Update'')
               \<or> (Where \<in> set settings \<and> includesStr inputTypeName ''Where'')
               \<or> (OrderBy \<in> set settings \<and> includesStr inputTypeName ''OrderBy'')))"

text \<open>The callback mapped over the fields of an input type that the filter kept.\<close>

definition transformInputField ::
  "helpers \<Rightarrow> dmmf_document \<Rightarrow> string \<Rightarrow> model option \<Rightarrow> prisma_schema_arg \<Rightarrow> error + schema_arg" where
  "transformInputField h doc inputTypeName modelType field =
     (let modelField =
            (case modelType of
               None \<Rightarrow> None
             | Some mt \<Rightarrow> getModelField doc (md_name mt) (psa_name field));
          typeName =
            (case modelField of
               None \<Rightarrow> psa_name field
             | Some mf \<Rightarrow> (case mf_typeFieldAlias mf of None \<Rightarrow> psa_name field | Some a \<Rightarrow> a))
      in case selectInputTypeFromTypes h doc (psa_inputTypes field) of
           Inl e \<Rightarrow> Inl e
         | Inr selected \<Rightarrow>
             (case getTypeGraphQLType h (typeInfoArg selected) doc None of
                Inl e \<Rightarrow> Inl e
              | Inr typeGraphQLType \<Rightarrow>
                  (case getFieldTSType h doc (typeInfoArg selected) (psa_isRequired field) True of
                     Inl e \<Rightarrow> Inl e
                   | Inr fieldTSType \<Rightarrow>
                       Inr \<lparr> sa_name = psa_name field,
                             sa_isRequired = psa_isRequired field,
                             sa_inputTypes = psa_inputTypes field,
                             sa_deprecation = psa_deprecation field,
                             sa_selectedInputType = selected,
                             sa_typeGraphQLType = typeGraphQLType,
                             sa_fieldTSType = fieldTSType,
                             sa_typeName = typeName,
                             sa_hasMappedName = (psa_name field \<noteq> typeName),
                             sa_isOmitted = inputFieldIsOmitted modelField inputTypeName \<rparr>)))"

definition transformInputType ::
  "helpers \<Rightarrow> dmmf_document \<Rightarrow> prisma_input_type \<Rightarrow> error + input_type" where
  "transformInputType h doc inputType =
     (let modelType =
            (case getModelNameFromInputType h (pit_name inputType) of
               None \<Rightarrow> None
             | Some modelName \<Rightarrow> if modelName = [] then None else doc_modelsCache doc modelName)
      in case mapE (transformInputField h doc (pit_name inputType) modelType)
                (filter (\<lambda>field. psa_deprecation field = None) (pit_fields inputType)) of
           Inl e \<Rightarrow> Inl e
         | Inr flds \<Rightarrow>
             Inr \<lparr> in_name = pit_name inputType,
                   in_typeName = getInputTypeName h (pit_name inputType) doc,
                   in_fields = flds \<rparr>)"

text \<open>The callback mapped over the arguments of an output field.\<close>

definition transformOutputFieldArg ::
  "helpers \<Rightarrow> dmmf_document \<Rightarrow> string \<Rightarrow> prisma_schema_arg \<Rightarrow> error + schema_arg" where
  "transformOutputFieldArg h doc typeName arg =
     (case selectInputTypeFromTypes h doc (psa_inputTypes arg) of
        Inl e \<Rightarrow> Inl e
      | Inr selected \<Rightarrow>
          (case getTypeGraphQLType h (typeInfoArg selected) doc None of
             Inl e \<Rightarrow> Inl e
           | Inr typeGraphQLType \<Rightarrow>
               (case getFieldTSType h doc (typeInfoArg selected) (psa_isRequired arg) True of
                  Inl e \<Rightarrow> Inl e
                | Inr fieldTSType \<Rightarrow>
                    Inr \<lparr> sa_name = psa_name arg,
                          sa_isRequired = psa_isRequired arg,
                          sa_inputTypes = psa_inputTypes arg,
                          sa_deprecation = psa_deprecation arg,
                          sa_selectedInputType = selected,
                          sa_typeGraphQLType = typeGraphQLType,
                          sa_fieldTSType = fieldTSType,
                          sa_typeName = psa_name arg,
                          sa_hasMappedName = (psa_name arg \<noteq> typeName),
                          sa_isOmitted = False \<rparr>)))"

text \<open>The callback mapped over the fields of an output type that the filter kept.\<close>

definition transformOutputField ::
  "helpers \<Rightarrow> dmmf_document \<Rightarrow> string \<Rightarrow> name_cache \<Rightarrow> prisma_output_field
     \<Rightarrow> (error + output_field) \<times> name_cache" where
  "transformOutputField h doc typeName cache field =
     (let isFieldRequired = (pof_isNullable field \<noteq> Some True \<and> pof_name field \<noteq> ''_count'')
      in case getMappedOutputTypeName h doc cache (ti_type (pof_outputType field)) of
           (Inl e, cache') \<Rightarrow> (Inl e, cache')
         | (Inr mapped, cache') \<Rightarrow>
             (let outputTypeInfo = (pof_outputType field)\<lparr> ti_type := mapped \<rparr>
              in case getFieldTSType h doc (typeInfoArg outputTypeInfo) isFieldRequired False of
                   Inl e \<Rightarrow> (Inl e, cache')
                 | Inr fieldTSType \<Rightarrow>
                     (case getTypeGraphQLType h (typeInfoArg outputTypeInfo) doc None of
                        Inl e \<Rightarrow> (Inl e, cache')
                      | Inr typeGraphQLType \<Rightarrow>
                          (case mapE (transformOutputFieldArg h doc typeName) (pof_args field) of
                             Inl e \<Rightarrow> (Inl e, cache')
                           | Inr args \<Rightarrow>
                               (Inr \<lparr> of_name = pof_name field,
                                      of_isRequired = isFieldRequired,
                                      of_outputType = outputTypeInfo,
                                      of_fieldTSType = fieldTSType,
                                      of_typeGraphQLType = typeGraphQLType,
                                      of_args = args,
                                      of_argsTypeName =
                                        (if length args > 0
                                         then Some (typeName @ pascalCase h (pof_name field) @ ''Args'')
                                         else None),
                                      of_deprecation = pof_deprecation field \<rparr>,
                                cache')))))"

fun transformOutputFields ::
  "helpers \<Rightarrow> dmmf_document \<Rightarrow> string \<Rightarrow> name_cache \<Rightarrow> prisma_output_field list
     \<Rightarrow> (error + output_field list) \<times> name_cache" where
  "transformOutputFields h doc typeName cache [] = (Inr [], cache)"
| "transformOutputFields h doc typeName cache (field # flds) =
     (case transformOutputField h doc typeName cache field of
        (Inl e, cache') \<Rightarrow> (Inl e, cache')
      | (Inr f, cache') \<Rightarrow>
          (case transformOutputFields h doc typeName cache' flds of
             (Inl e, cache'') \<Rightarrow> (Inl e, cache'')
           | (Inr fs, cache'') \<Rightarrow> (Inr (f # fs), cache'')))"

definition transformOutputType ::
  "helpers \<Rightarrow> dmmf_document \<Rightarrow> name_cache \<Rightarrow> prisma_output_type
     \<Rightarrow> (error + output_type) \<times> name_cache" where
  "transformOutputType h doc cache outputType =
     (case getMappedOutputTypeName h doc cache (pot_name outputType) of
        (Inl e, cache') \<Rightarrow> (Inl e, cache')
      | (Inr typeName, cache') \<Rightarrow>
          (case transformOutputFields h doc typeName cache'
                  (filter (\<lambda>field. pof_deprecation field = None) (pot_fields outputType)) of
             (Inl e, cache'') \<Rightarrow> (Inl e, cache'')
           | (Inr flds, cache'') \<Rightarrow>
               (Inr \<lparr> ot_name = pot_name outputType,
                      ot_typeName = typeName,
                      ot_fields = flds \<rparr>,
                cache'')))"

fun transformOutputTypes ::
  "helpers \<Rightarrow> dmmf_document \<Rightarrow> name_cache \<Rightarrow> prisma_output_type list
     \<Rightarrow> (error + output_type list) \<times> name_cache" where
  "transformOutputTypes h doc cache [] = (Inr [], cache)"
| "transformOutputTypes h doc cache (t # ts) =
     (case transformOutputType h doc cache t of
        (Inl e, cache') \<Rightarrow> (Inl e, cache')
      | (Inr t', cache') \<Rightarrow>
          (case transformOutputTypes h doc cache' ts of
             (Inl e, cache'') \<Rightarrow> (Inl e, cache'')
           | (Inr ts', cache'') \<Rightarrow> (Inr (t' # ts'), cache'')))"

text \<open>
  \<open>transformSchema\<close>, on the concatenated input object types and output object types
  of the raw schema; the input types are transformed first.
\<close>

definition transformSchema ::
  "helpers \<Rightarrow> dmmf_document \<Rightarrow> name_cache \<Rightarrow> prisma_input_type list \<Rightarrow> prisma_output_type list
     \<Rightarrow> (error + input_type list \<times> output_type list) \<times> name_cache" where
  "transformSchema h doc cache inputObjectTypes outputObjectTypes =
     (case mapE (transformInputType h doc)
             (filter (uncheckedScalarInputsFilter doc) inputObjectTypes) of
        Inl e \<Rightarrow> (Inl e, cache)
      | Inr inputTypes \<Rightarrow>
          (case transformOutputTypes h doc cache outputObjectTypes of
             (Inl e, cache') \<Rightarrow> (Inl e, cache')
           | (Inr outputTypes, cache') \<Rightarrow> (Inr (inputTypes, outputTypes), cache')))"

section \<open>Construction of the document, second part (dmmf-document.ts)\<close>

text \<open>The loop that fills \<open>outputTypeCache\<close> and \<open>outputTypeFieldsCache\<close>.\<close>

definition cacheOutputType :: "output_type \<Rightarrow> dmmf_document \<Rightarrow> dmmf_document" where
  "cacheOutputType outputType doc =
     doc\<lparr> doc_outputTypeCache := (doc_outputTypeCache doc)(ot_name outputType \<mapsto> outputType),
          doc_outputTypeFieldsCache :=
            (doc_outputTypeFieldsCache doc)
              (ot_name outputType \<mapsto>
                 fold (\<lambda>field fc. fc(of_name field \<mapsto> field)) (ot_fields outputType) Map.empty) \<rparr>"

definition cacheOutputTypes :: "output_type list \<Rightarrow> dmmf_document \<Rightarrow> dmmf_document" where
  "cacheOutputTypes outputTypes doc = fold cacheOutputType outputTypes doc"

record relation_field =
  rf_field :: model_field
  rf_outputTypeField :: output_field
  rf_argsTypeName :: "string option"
  rf_type :: "string option"

record relation_model =
  rm_model :: model
  rm_outputType :: "output_type option"
  rm_relationFields :: "relation_field list"
  rm_resolverName :: string

text \<open>
  \<open>generateRelationModel\<close> (transform.ts). Without an output type, the first field
  that reaches \<open>outputType.fields\<close> raises a \<open>TypeError\<close>, and so does an output
  type field that the field cache does not have.
\<close>

definition generateRelationModel :: "helpers \<Rightarrow> dmmf_document \<Rightarrow> model \<Rightarrow> error + relation_model" where
  "generateRelationModel h doc m =
     (case doc_outputTypeCache doc (md_name m) of
        None \<Rightarrow>
          if list_ex (\<lambda>field. truthy (mf_relationName field) \<and> \<not> mf_isOmittedOutput field)
               (md_fields m)
          then Inl TypeError
          else Inr \<lparr> rm_model = m, rm_outputType = None, rm_relationFields = [],
                     rm_resolverName = md_typeName m @ ''RelationsResolver'' \<rparr>
      | Some outputType \<Rightarrow>
          (case mapE
                  (\<lambda>field.
                     case getOutputTypeField doc (ot_name outputType) (mf_name field) of
                       None \<Rightarrow> Inl TypeError
                     | Some outputTypeField \<Rightarrow>
                         Inr \<lparr> rf_field = field,
                               rf_outputTypeField = outputTypeField,
                               rf_argsTypeName =
                                 (if length (of_args outputTypeField) > 0
                                  then Some (md_typeName m @ pascalCase h (mf_name field) @ ''Args'')
                                  else None),
                               rf_type = getModelTypeName h doc (mf_type field) \<rparr>)
                  (filter
                     (\<lambda>field. truthy (mf_relationName field) \<and> \<not> mf_isOmittedOutput field
                        \<and> list_ex (\<lambda>it. of_name it = mf_name field) (ot_fields outputType))
                     (md_fields m)) of
             Inl e \<Rightarrow> Inl e
           | Inr relationFields \<Rightarrow>
               Inr \<lparr> rm_model = m, rm_outputType = Some outputType,
                     rm_relationFields = relationFields,
                     rm_resolverName = md_typeName m @ ''RelationsResolver'' \<rparr>))"

text \<open>The two filters of the constructor that choose the models given a relation model.\<close>

definition hasRelationField :: "model \<Rightarrow> bool" where
  "hasRelationField m =
     list_ex (\<lambda>field. mf_relationName field \<noteq> None \<and> \<not> mf_isOmittedOutput field) (md_fields m)"

definition hasRelationFieldInOutputType :: "dmmf_document \<Rightarrow> model \<Rightarrow> bool" where
  "hasRelationFieldInOutputType doc m =
     (case doc_outputTypeCache doc (md_name m) of
        None \<Rightarrow> False
      | Some outputType \<Rightarrow>
          list_ex
            (\<lambda>outputTypeField.
               list_ex
                 (\<lambda>modelField. mf_name modelField = of_name outputTypeField
                    \<and> mf_relationName modelField \<noteq> None \<and> \<not> mf_isOmittedOutput modelField)
                 (md_fields m))
            (ot_fields outputType))"

text \<open>The value assigned to \<open>this.relationModels\<close>, or the error thrown.\<close>

definition relationModels :: "helpers \<Rightarrow> dmmf_document \<Rightarrow> error + relation_model list" where
  "relationModels h doc =
     mapE (generateRelationModel h doc)
       (filter (hasRelationFieldInOutputType doc) (filter hasRelationField (doc_models doc)))"

text \<open>
  The statements of the constructor after the models and the enumerations: the schema
  is transformed from the cleared name cache, its output types are cached, and the
  relation models are derived. The assignment of \<open>modelMappings\<close> that comes before
  the relation models is left out: \<open>transformMappings\<close> rests on configuration and on
  helpers that are not among the sources at hand, and it writes nothing that the
  relation models read.
\<close>

definition constructSchemaAndRelations ::
  "helpers \<Rightarrow> generator_options \<Rightarrow> prisma_model list \<Rightarrow> prisma_enum list
     \<Rightarrow> prisma_input_type list \<Rightarrow> prisma_output_type list
     \<Rightarrow> error + dmmf_document \<times> input_type list \<times> output_type list \<times> relation_model list" where
  "constructSchemaAndRelations h opts models enumTypes inputObjectTypes outputObjectTypes =
     (case constructModels h opts models enumTypes of
        Inl e \<Rightarrow> Inl e
      | Inr doc \<Rightarrow>
          (case fst (transformSchema h doc clearOutputTypeNameCache
                       inputObjectTypes outputObjectTypes) of
             Inl e \<Rightarrow> Inl e
           | Inr (inputTypes, outputTypes) \<Rightarrow>
               (let doc' = cacheOutputTypes outputTypes doc
                in case relationModels h doc' of
                     Inl e \<Rightarrow> Inl e
                   | Inr rms \<Rightarrow> Inr (doc', inputTypes, outputTypes, rms))))"

section \<open>Relation resolvers (resolvers/relations.ts)\<close>

text \<open>
  The text of a where condition is kept in structured form: an entry \<open>(key, root, prop)\<close>
  stands for the line \<open>key: root.prop,\<close>. A single-field condition is one entry; a
  composite condition nests its entries under the filter key.
\<close>

type_synonym where_entry = "string \<times> string \<times> string"

datatype where_condition =
    WhereField where_entry
  | WhereComposite string "where_entry list"

record resolver_method =
  meth_name :: string
  meth_where :: where_condition

record resolver_class =
  rc_name :: string
  rc_methods :: "resolver_method list"

definition fieldsCache :: "model \<Rightarrow> (string \<rightharpoonup> model_field)" where
  "fieldsCache m = fold (\<lambda>field fc. fc(mf_name field \<mapsto> field)) (md_fields m) Map.empty"

definition singleIdField :: "model \<Rightarrow> model_field option" where
  "singleIdField m = find mf_isId (md_fields m)"

definition singleUniqueField :: "model \<Rightarrow> model_field option" where
  "singleUniqueField m = find mf_isUnique (md_fields m)"

definition singleFilterField :: "model \<Rightarrow> model_field option" where
  "singleFilterField m =
     (case singleIdField m of Some f \<Rightarrow> Some f | None \<Rightarrow> singleUniqueField m)"

definition compositeIdFields :: "model \<Rightarrow> error + model_field list" where
  "compositeIdFields m =
     (case md_primaryKey m of
        None \<Rightarrow> Inr []
      | Some pk \<Rightarrow>
          mapE (\<lambda>idField.
                  case fieldsCache m idField of
                    None \<Rightarrow> Inl (PrimaryKeyFieldNotFound idField (md_name m))
                  | Some field \<Rightarrow> Inr field)
               (ki_fields pk))"

definition compositeUniqueFields :: "model \<Rightarrow> error + model_field list" where
  "compositeUniqueFields m =
     (case md_uniqueIndexes m of
        [] \<Rightarrow> Inr []
      | idx # _ \<Rightarrow>
          mapE (\<lambda>uniqueField.
                  case fieldsCache m uniqueField of
                    None \<Rightarrow> Inl (UniqueFieldNotFound uniqueField (md_name m))
                  | Some field \<Rightarrow> Inr field)
               (ki_fields idx))"

definition filterKeyName :: "model \<Rightarrow> model_field list \<Rightarrow> string" where
  "filterKeyName m compositeFilterFields =
     (case (case md_primaryKey m of None \<Rightarrow> None | Some pk \<Rightarrow> ki_name pk) of
        Some n \<Rightarrow> n
      | None \<Rightarrow>
          (case (case md_uniqueIndexes m of [] \<Rightarrow> None | idx # _ \<Rightarrow> ki_name idx) of
             Some n \<Rightarrow> n
           | None \<Rightarrow> join (map mf_name compositeFilterFields) ''_''))"

text \<open>The where condition that the callback of \<open>relationFields.map\<close> computes.\<close>

definition whereCondition ::
  "model \<Rightarrow> string \<Rightarrow> model_field option \<Rightarrow> model_field list \<Rightarrow> error + where_condition" where
  "whereCondition m rootArgName single compositeFilterFields =
     (case single of
        Some field \<Rightarrow> Inr (WhereField (mf_name field, rootArgName, mf_name field))
      | None \<Rightarrow>
          if length compositeFilterFields > 0 then
            Inr (WhereComposite (filterKeyName m compositeFilterFields)
                   (map (\<lambda>idField. (mf_name idField, rootArgName, mf_name idField))
                      compositeFilterFields))
          else Inl (WhereConditionError (md_typeName m)))"

text \<open>
  \<open>generateRelationsResolverClassesFromModel\<close>: the class added to the source file,
  or the error thrown. The imports written before the class cannot fail and are left out.
\<close>

definition generateRelationsResolverClassesFromModel ::
  "helpers \<Rightarrow> relation_model \<Rightarrow> error + resolver_class" where
  "generateRelationsResolverClassesFromModel h rm =
     (let m = rm_model rm; rootArgName = camelCase h (md_typeName m)
      in case compositeIdFields m of
           Inl e \<Rightarrow> Inl e
         | Inr idFields \<Rightarrow>
             (case compositeUniqueFields m of
                Inl e \<Rightarrow> Inl e
              | Inr uniqueFields \<Rightarrow>
                  (let compositeFilterFields =
                         (if length idFields > 0 then idFields else uniqueFields)
                   in case mapE
                             (\<lambda>field.
                                case whereCondition m rootArgName (singleFilterField m)
                                       compositeFilterFields of
                                  Inl e \<Rightarrow> Inl e
                                | Inr w \<Rightarrow>
                                    Inr \<lparr> meth_name =
                                            (case mf_typeFieldAlias (rf_field field) of
                                               Some a \<Rightarrow> a
                                             | None \<Rightarrow> mf_name (rf_field field)),
                                          meth_where = w \<rparr>)
                             (rm_relationFields rm) of
                        Inl e \<Rightarrow> Inl e
                      | Inr methods \<Rightarrow>
                          Inr \<lparr> rc_name = rm_resolverName rm, rc_methods = methods \<rparr>)))"

section \<open>The block generator factory (block-generation/block-generator-factory.ts)\<close>

text \<open>
  \<open>GenerationMetrics\<close>; the elapsed time is a measurement that the factory only
  passes on, so its type is left open.
\<close>

record 't generation_metrics =
  itemsGenerated :: int
  timeElapsed :: "'t option"

text \<open>
  A block generator acts on the project being built, the state \<open>'w\<close>: \<open>generate\<close>
  returns its metrics or throws, and leaves a new state either way. Only an
  \<open>OutputBlockGenerator\<close> has \<open>getGeneratedOutputTypes\<close>.
\<close>

record ('w, 't, 'o) block_generator =
  getBlockName :: string
  generate :: "'w \<Rightarrow> (error + 't generation_metrics) \<times> 'w"
  getGeneratedOutputTypes :: "('w \<Rightarrow> 'o list) option"

text \<open>What the factory does to its collaborators, in the order it does it.\<close>

datatype 't event =
    Logged string
  | GenerateCalled string
  | GenerateReturned string "'t generation_metrics"
  | MetricsCallback string "'t generation_metrics"

definition blockOrder :: "string list" where
  "blockOrder =
     [''enums'', ''models'', ''outputs'', ''inputs'', ''relationResolvers'', ''crudResolvers'']"

text \<open>\<open>initializeGenerators\<close>: the map from block names to the six generators.\<close>

definition initializeGenerators ::
  "('w, 't, 'o) block_generator \<Rightarrow> ('w, 't, 'o) block_generator \<Rightarrow> ('w, 't, 'o) block_generator
     \<Rightarrow> ('w, 't, 'o) block_generator \<Rightarrow> ('w, 't, 'o) block_generator
     \<Rightarrow> ('w, 't, 'o) block_generator \<Rightarrow> (string \<rightharpoonup> ('w, 't, 'o) block_generator)" where
  "initializeGenerators enumGenerator modelGenerator inputGenerator outputGenerator
       relationResolverGenerator crudResolverGenerator =
     Map.empty(''enums'' \<mapsto> enumGenerator, ''models'' \<mapsto> modelGenerator,
       ''inputs'' \<mapsto> inputGenerator, ''outputs'' \<mapsto> outputGenerator,
       ''relationResolvers'' \<mapsto> relationResolverGenerator,
       ''crudResolvers'' \<mapsto> crudResolverGenerator)"

text \<open>
  The body of the loop of \<open>generateAllBlocks\<close> for a block name that has a generator:
  the new value of \<open>outputTypesToGenerate\<close> or the error thrown by \<open>generate\<close>, the
  state of the project, and the events of this round.
\<close>

definition generateBlock ::
  "('w, 't, 'o) block_generator \<Rightarrow> (string \<Rightarrow> 'w \<Rightarrow> 'w)
     \<Rightarrow> (string \<Rightarrow> 't generation_metrics \<Rightarrow> 'w \<Rightarrow> 'w) option
     \<Rightarrow> string \<Rightarrow> 'o list \<Rightarrow> 'w \<Rightarrow> (error + 'o list) \<times> 'w \<times> 't event list" where
  "generateBlock generator log metricsCallback blockName outputTypesToGenerate w =
     (let msg = ''Generating '' @ getBlockName generator @ ''...'';
          called = [Logged msg, GenerateCalled blockName]
      in case generate generator (log msg w) of
           (Inl e, w') \<Rightarrow> (Inl e, w', called)
         | (Inr metrics, w') \<Rightarrow>
             (let returned = called @ [GenerateReturned blockName metrics];
                  (w'', evs) =
                    (case metricsCallback of
                       None \<Rightarrow> (w', returned)
                     | Some callback \<Rightarrow>
                         if itemsGenerated metrics > 0
                         then (callback blockName metrics w',
                               returned @ [MetricsCallback blockName metrics])
                         else (w', returned))
              in (Inr (if blockName = ''outputs'' then
                         (case getGeneratedOutputTypes generator of
                            Some getTypes \<Rightarrow> getTypes w''
                          | None \<Rightarrow> outputTypesToGenerate)
                       else outputTypesToGenerate),
                  w'', evs)))"

text \<open>
  The loop over the block names still to come. It carries \<open>outputTypesToGenerate\<close>,
  the state of the project and the trace of events; a throw of \<open>generate\<close> ends it.
\<close>

fun generateBlocks ::
  "(string \<rightharpoonup> ('w, 't, 'o) block_generator) \<Rightarrow> (string \<Rightarrow> 'w \<Rightarrow> 'w)
     \<Rightarrow> (string \<Rightarrow> 't generation_metrics \<Rightarrow> 'w \<Rightarrow> 'w) option
     \<Rightarrow> string list \<Rightarrow> 'o list \<Rightarrow> 'w \<Rightarrow> 't event list
     \<Rightarrow> (error + 'o list) \<times> 'w \<times> 't event list" where
  "generateBlocks generators log metricsCallback [] outputTypesToGenerate w tr =
     (Inr outputTypesToGenerate, w, tr)"
| "generateBlocks generators log metricsCallback (blockName # rest) outputTypesToGenerate w tr =
     (case generators blockName of
        None \<Rightarrow> generateBlocks generators log metricsCallback rest outputTypesToGenerate w tr
      | Some generator \<Rightarrow>
          (case generateBlock generator log metricsCallback blockName outputTypesToGenerate w of
             (Inl e, w', evs) \<Rightarrow> (Inl e, w', tr @ evs)
           | (Inr captured, w', evs) \<Rightarrow>
               generateBlocks generators log metricsCallback rest captured w' (tr @ evs)))"

definition generateAllBlocks ::
  "(string \<rightharpoonup> ('w, 't, 'o) block_generator) \<Rightarrow> (string \<Rightarrow> 'w \<Rightarrow> 'w)
     \<Rightarrow> (string \<Rightarrow> 't generation_metrics \<Rightarrow> 'w \<Rightarrow> 'w) option \<Rightarrow> 'w
     \<Rightarrow> (error + 'o list) \<times> 'w \<times> 't event list" where
  "generateAllBlocks generators log metricsCallback w =
     generateBlocks generators log metricsCallback blockOrder [] w []"

text \<open>
  The emission order in the words of the spec, to compare the loop with: the generators
  of a list run one after the other, each on the project the one before it left, and the
  metrics of a step are forwarded to the observer callback only when they report
  generated items. The result is the error that ended the run, if any, and the project.
\<close>

fun generateInOrder ::
  "(string \<times> ('w, 't, 'o) block_generator) list \<Rightarrow> (string \<Rightarrow> 'w \<Rightarrow> 'w)
     \<Rightarrow> (string \<Rightarrow> 't generation_metrics \<Rightarrow> 'w \<Rightarrow> 'w) option \<Rightarrow> 'w \<Rightarrow> error option \<times> 'w" where
  "generateInOrder [] log observer w = (None, w)"
| "generateInOrder ((blockName, generator) # rest) log observer w =
     (case generate generator (log (''Generating '' @ getBlockName generator @ ''...'') w) of
        (Inl e, w') \<Rightarrow> (Some e, w')
      | (Inr metrics, w') \<Rightarrow>
          generateInOrder rest log observer
            (case observer of
               None \<Rightarrow> w'
             | Some callback \<Rightarrow>
                 if itemsGenerated metrics > 0 then callback blockName metrics w' else w'))"

text \<open>
  The block names of the \<open>generate\<close> calls of a trace, the metrics its calls
  returned and the metrics passed to the callback.
\<close>

fun generateCalls :: "'t event list \<Rightarrow> string list" where
  "generateCalls [] = []"
| "generateCalls (GenerateCalled b # es) = b # generateCalls es"
| "generateCalls (e # es) = generateCalls es"

fun generateReturns :: "'t event list \<Rightarrow> (string \<times> 't generation_metrics) list" where
  "generateReturns [] = []"
| "generateReturns (GenerateReturned b m # es) = (b, m) # generateReturns es"
| "generateReturns (e # es) = generateReturns es"

fun metricsCallbacks :: "'t event list \<Rightarrow> (string \<times> 't generation_metrics) list" where
  "metricsCallbacks [] = []"
| "metricsCallbacks (MetricsCallback b m # es) = (b, m) # metricsCallbacks es"
| "metricsCallbacks (e # es) = metricsCallbacks es"

text \<open>
  Whether the \<open>generate\<close> calls of a trace are sequential is read off by running the
  trace from \<open>Idle\<close>: a call opens \<open>InCall\<close>, only the return of the same block
  closes it, and a call that begins while another is open, or any other event inside a
  call, is a violation. A trace may end inside a call: that call threw.
\<close>

datatype call_state = Idle | InCall string | Violated

fun callStep :: "call_state \<Rightarrow> 't event \<Rightarrow> call_state" where
  "callStep Idle (GenerateCalled b) = InCall b"
| "callStep Idle (GenerateReturned b m) = Violated"
| "callStep Idle (Logged msg) = Idle"
| "callStep Idle (MetricsCallback b m) = Idle"
| "callStep (InCall b) (GenerateReturned b' m) = (if b = b' then Idle else Violated)"
| "callStep (InCall b) (GenerateCalled b') = Violated"
| "callStep (InCall b) (Logged msg) = Violated"
| "callStep (InCall b) (MetricsCallback b' m) = Violated"
| "callStep Violated e = Violated"

definition sequential :: "'t event list \<Rightarrow> bool" where
  "sequential tr = (foldl callStep Idle tr \<noteq> Violated)"

section \<open>The end of the pipeline (generate-code.ts)\<close>

datatype format_tool = Tsc | Prettier | Biome

text \<open>
  The three command lines handed to \<open>execa\<close>, each on the output directory:
  \<open>tsc --noEmit --project\<close>; \<open>npx prettier --write\<close>, with the default
  \<open>--config\<close> when the flag is set; \<open>npx biome format --write\<close>.
\<close>

datatype command =
    TscNoEmit string
  | PrettierWrite string bool
  | BiomeFormat string

text \<open>
  The state of a run: the output tree on disk, the messages passed to \<open>log\<close> and the
  phases passed to the metrics listener (the durations are measurements and left out).
\<close>

record 'fs run_state =
  outputTree :: 'fs
  logged :: "string list"
  emitted :: "string list"

text \<open>
  The collaborators of the last steps. \<open>execa\<close> runs a command on the tree: it leaves
  a tree and, when it throws, the message of the error. \<open>projectEmit\<close> and
  \<open>projectSave\<close> write the project to the tree or throw. \<open>access\<close> tells whether
  a configuration file exists in the output directory.
\<close>

record 'fs environment =
  execa :: "command \<Rightarrow> 'fs \<Rightarrow> string option \<times> 'fs"
  projectEmit :: "'fs \<Rightarrow> error option \<times> 'fs"
  projectSave :: "'fs \<Rightarrow> error option \<times> 'fs"
  access :: "string \<Rightarrow> 'fs \<Rightarrow> bool"
  hasMetricsListener :: bool

definition logMsg :: "string \<Rightarrow> 'fs run_state \<Rightarrow> 'fs run_state" where
  "logMsg msg st = st\<lparr> logged := logged st @ [msg] \<rparr>"

definition emitMetric :: "'fs environment \<Rightarrow> string \<Rightarrow> 'fs run_state \<Rightarrow> 'fs run_state" where
  "emitMetric env phase st =
     (if hasMetricsListener env then st\<lparr> emitted := emitted st @ [phase] \<rparr> else st)"

definition toolName :: "format_tool \<Rightarrow> string" where
  "toolName t = (case t of Tsc \<Rightarrow> ''tsc'' | Prettier \<Rightarrow> ''prettier'' | Biome \<Rightarrow> ''biome'')"

text \<open>\<open>resolveFormatGeneratedCodeOption\<close>: the option is a boolean, a tool or absent.\<close>

datatype format_option = FormatBool bool | FormatTool format_tool

definition resolveFormatGeneratedCodeOption :: "format_option option \<Rightarrow> format_tool option" where
  "resolveFormatGeneratedCodeOption formatOption =
     (case formatOption of
        Some (FormatBool False) \<Rightarrow> None
      | None \<Rightarrow> Some Tsc
      | Some (FormatBool True) \<Rightarrow> Some Tsc
      | Some (FormatTool t) \<Rightarrow> Some t)"

text \<open>The command that the chosen tool runs in the output directory.\<close>

definition formatCommand :: "'fs environment \<Rightarrow> format_tool \<Rightarrow> string \<Rightarrow> 'fs \<Rightarrow> command" where
  "formatCommand env tool baseDirPath tree =
     (case tool of
        Tsc \<Rightarrow> TscNoEmit baseDirPath
      | Prettier \<Rightarrow> PrettierWrite baseDirPath (\<not> access env ''.prettierrc'' tree)
      | Biome \<Rightarrow> BiomeFormat baseDirPath)"

text \<open>
  The body of the \<open>try\<close> block: the state it leaves and, when the command threw, the
  message of the error. The statements after a throw are not run.
\<close>

definition tryFormat ::
  "'fs environment \<Rightarrow> format_tool \<Rightarrow> string \<Rightarrow> 'fs run_state \<Rightarrow> string option \<times> 'fs run_state" where
  "tryFormat env tool baseDirPath st =
     (let st1 = logMsg (''Formatting generated code with '' @ toolName tool) st;
          (failure, tree) =
            execa env (formatCommand env tool baseDirPath (outputTree st1)) (outputTree st1);
          st2 = st1\<lparr> outputTree := tree \<rparr>
      in case failure of
           Some msg \<Rightarrow> (Some msg, st2)
         | None \<Rightarrow>
             (None, emitMetric env ''code-formatting''
                      (emitMetric env (toolName tool @ ''-formatting'') st2)))"

text \<open>The \<open>if\<close> statement around the \<open>try\<close> and its \<open>catch\<close> clause.\<close>

definition formatGeneratedCode ::
  "'fs environment \<Rightarrow> format_tool option \<Rightarrow> string \<Rightarrow> 'fs run_state \<Rightarrow> 'fs run_state" where
  "formatGeneratedCode env formatOption baseDirPath st =
     (case formatOption of
        None \<Rightarrow> st
      | Some tool \<Rightarrow>
          (case tryFormat env tool baseDirPath st of
             (None, st') \<Rightarrow> st'
           | (Some msg, st') \<Rightarrow> logMsg (''Warning: Code formatting failed: '' @ msg) st'))"

text \<open>
  The statements of \<open>CodeGenerator.generate\<close> from \<open>Emitting final code\<close> to the end.
  The result is the error that ended the run, if any, and the state it left.
\<close>

definition emitFinalCode ::
  "'fs environment \<Rightarrow> bool \<Rightarrow> format_tool option \<Rightarrow> string \<Rightarrow> 'fs run_state
     \<Rightarrow> error option \<times> 'fs run_state" where
  "emitFinalCode env emitTranspiledCode formatOption baseDirPath st =
     (let st1 = logMsg ''Emitting final code'' st;
          st2 = logMsg (if emitTranspiledCode then ''Transpiling generated code''
                        else ''Saving generated code'') st1;
          (failure, tree) =
            (if emitTranspiledCode then projectEmit env (outputTree st2)
             else projectSave env (outputTree st2));
          st3 = st2\<lparr> outputTree := tree \<rparr>
      in case failure of
           Some e \<Rightarrow> (Some e, st3)
         | None \<Rightarrow>
             (let st4 = (if emitTranspiledCode then st3 else emitMetric env ''save-files'' st3);
                  st5 = formatGeneratedCode env formatOption baseDirPath st4
              in (None, emitMetric env ''total-generation'' (emitMetric env ''code-emission'' st5))))"

section \<open>Worked inputs\<close>

text \<open>The letters of ASCII names, lowered and raised.\<close>

definition lowerChar :: "char \<Rightarrow> char" where
  "lowerChar c =
     (case map_of (zip ''ABCDEFGHIJKLMNOPQRSTUVWXYZ'' ''abcdefghijklmnopqrstuvwxyz'') c of
        Some d \<Rightarrow> d
      | None \<Rightarrow> c)"

definition upperChar :: "char \<Rightarrow> char" where
  "upperChar c =
     (case map_of (zip ''abcdefghijklmnopqrstuvwxyz'' ''ABCDEFGHIJKLMNOPQRSTUVWXYZ'') c of
        Some d \<Rightarrow> d
      | None \<Rightarrow> c)"

text \<open>
  Modelled from the spec: helpers.ts is missing. The spec says of its functions that the
  display name of an entity is "a casing transform of the raw name" and that "a field's
  declared raw type cannot be resolved to a known type reference" is fatal. For the
  worked inputs the helpers are instantiated on ASCII names: \<open>pascalCase\<close> raises the
  first letter and \<open>camelCase\<close> lowers it, \<open>toLocaleLowerCase\<close> lowers every letter,
  an input type keeps its name and belongs to no model, and the emitted type of a
  \<open>typeInfo\<close> is its type name, or an error for an \<open>undefined\<close> type, a scalar that
  is not one of the known scalars, an enumeration the document does not have and a
  field reference.
\<close>

definition knownScalars :: "string list" where
  "knownScalars =
     [''String'', ''Boolean'', ''Int'', ''BigInt'', ''Float'', ''Decimal'', ''DateTime'',
      ''Json'', ''Bytes'']"

definition exampleEmittedType :: "dmmf_document \<Rightarrow> type_info_arg \<Rightarrow> error + string" where
  "exampleEmittedType doc typeInfo =
     (case typeInfo of
        (None, location, isList) \<Rightarrow> Inl (UnresolvedType ''undefined'')
      | (Some n, location, isList) \<Rightarrow>
          if location = Scalar then
            (if n \<in> set knownScalars then Inr n else Inl (UnresolvedType n))
          else if location = EnumTypes then
            (if list_ex (\<lambda>it. en_typeName it = n \<or> en_name it = n) (doc_enums doc)
             then Inr n else Inl (UnresolvedType n))
          else if location = FieldRefTypes then Inl (UnresolvedType n)
          else Inr n)"

definition exampleHelpers :: helpers where
  "exampleHelpers =
     \<lparr> pascalCase = (\<lambda>s. case s of [] \<Rightarrow> [] | c # cs \<Rightarrow> upperChar c # cs),
       camelCase = (\<lambda>s. case s of [] \<Rightarrow> [] | c # cs \<Rightarrow> lowerChar c # cs),
       getInputTypeName = (\<lambda>n doc. n),
       getModelNameFromInputType = (\<lambda>n. None),
       getFieldTSType = (\<lambda>doc typeInfo isRequired isInputType. exampleEmittedType doc typeInfo),
       getTypeGraphQLType = (\<lambda>typeInfo doc isIdField. exampleEmittedType doc typeInfo),
       toLocaleLowerCase = map lowerChar \<rparr>"

definition defaultOptions :: generator_options where
  "defaultOptions =
     \<lparr> useUncheckedScalarInputs = False, useSimpleInputs = False,
       omitInputFieldsByDefault = None, omitOutputFieldsByDefault = None \<rparr>"

definition simpleInputsOptions :: generator_options where
  "simpleInputsOptions = defaultOptions\<lparr> useSimpleInputs := True \<rparr>"

text \<open>The candidates of the \<open>data\<close> argument of a \<open>createMany\<close> operation.\<close>

definition createManyDataCandidates :: "type_info list" where
  "createManyDataCandidates =
     [\<lparr> ti_type = ''UserCreateManyInput'', ti_location = InputObjectTypes, ti_isList = False \<rparr>,
      \<lparr> ti_type = ''UserCreateManyInput'', ti_location = InputObjectTypes, ti_isList = True \<rparr>]"

text \<open>The candidates of a string field of an update input: the scalar and the \<open>set\<close> object.\<close>

definition stringUpdateCandidates :: "type_info list" where
  "stringUpdateCandidates =
     [\<lparr> ti_type = ''String'', ti_location = Scalar, ti_isList = False \<rparr>,
      \<lparr> ti_type = ''StringFieldUpdateOperationsInput'', ti_location = InputObjectTypes,
        ti_isList = False \<rparr>]"

text \<open>A model \<open>User\<close> renamed to \<open>Client\<close>, and a model \<open>Post\<close> that refers to it.\<close>

definition idField :: prisma_field where
  "idField =
     \<lparr> pf_name = ''id'', pf_kind = KindScalar, pf_type = ''Int'', pf_isList = False,
       pf_isRequired = True, pf_isId = True, pf_isUnique = False, pf_relationName = None,
       pf_attrName = None, pf_attrOmitOutput = None, pf_attrOmitInput = None \<rparr>"

definition authorField :: prisma_field where
  "authorField =
     \<lparr> pf_name = ''author'', pf_kind = KindObject, pf_type = ''User'', pf_isList = False,
       pf_isRequired = True, pf_isId = False, pf_isUnique = False,
       pf_relationName = Some ''PostToUser'',
       pf_attrName = None, pf_attrOmitOutput = None, pf_attrOmitInput = None \<rparr>"

definition rawUserAsClient :: prisma_model where
  "rawUserAsClient =
     \<lparr> pm_name = ''User'', pm_fields = [idField], pm_primaryKey = None, pm_uniqueIndexes = [],
       pm_attrName = Some ''Client'', pm_attrPlural = None, pm_attrOmitOutput = None \<rparr>"

definition rawPost :: prisma_model where
  "rawPost =
     \<lparr> pm_name = ''Post'', pm_fields = [idField, authorField], pm_primaryKey = None,
       pm_uniqueIndexes = [], pm_attrName = None, pm_attrPlural = None,
       pm_attrOmitOutput = None \<rparr>"

definition rawCustomerAsClient :: prisma_model where
  "rawCustomerAsClient = rawUserAsClient\<lparr> pm_name := ''Customer'' \<rparr>"

definition renamedUserDocument :: dmmf_document where
  "renamedUserDocument =
     (case constructModels exampleHelpers defaultOptions [rawUserAsClient] [] of
        Inr doc \<Rightarrow> doc
      | Inl e \<Rightarrow> emptyDocument defaultOptions)"

definition rawUser :: prisma_model where
  "rawUser = rawUserAsClient\<lparr> pm_attrName := None \<rparr>"

text \<open>The documents of \<open>Post\<close> and \<open>User\<close> in either order, and with no alias.\<close>

definition postThenClientDocument :: "error + dmmf_document" where
  "postThenClientDocument =
     constructModels exampleHelpers defaultOptions [rawPost, rawUserAsClient] []"

definition clientThenPostDocument :: "error + dmmf_document" where
  "clientThenPostDocument =
     constructModels exampleHelpers defaultOptions [rawUserAsClient, rawPost] []"

definition reservedModelDocument :: "error + dmmf_document" where
  "reservedModelDocument =
     constructModels exampleHelpers defaultOptions [rawUser\<lparr> pm_name := ''OutputType'' \<rparr>] []"

definition plainDocument :: "error + dmmf_document" where
  "plainDocument = constructModels exampleHelpers defaultOptions [rawPost, rawUser] []"

text \<open>A model that keeps its name \<open>Undefined\<close>.\<close>

definition undefinedModelDocument :: "error + dmmf_document" where
  "undefinedModelDocument =
     constructModels exampleHelpers defaultOptions [rawUser\<lparr> pm_name := ''Undefined'' \<rparr>] []"

text \<open>
  The output types of \<open>Post\<close> and \<open>User\<close>; the field \<open>legacyTitle\<close> of
  \<open>Post\<close> is deprecated.
\<close>

definition scalarOutputField :: "string \<Rightarrow> string \<Rightarrow> prisma_output_field" where
  "scalarOutputField n t =
     \<lparr> pof_name = n, pof_isNullable = Some False,
       pof_outputType = \<lparr> ti_type = t, ti_location = Scalar, ti_isList = False \<rparr>,
       pof_args = [], pof_deprecation = None \<rparr>"

definition objectOutputField :: "string \<Rightarrow> string \<Rightarrow> prisma_output_field" where
  "objectOutputField n t =
     \<lparr> pof_name = n, pof_isNullable = Some False,
       pof_outputType = \<lparr> ti_type = t, ti_location = OutputObjectTypes, ti_isList = False \<rparr>,
       pof_args = [], pof_deprecation = None \<rparr>"

definition rawPostOutputType :: prisma_output_type where
  "rawPostOutputType =
     \<lparr> pot_name = ''Post'',
       pot_fields =
         [scalarOutputField ''id'' ''Int'',
          (scalarOutputField ''legacyTitle'' ''String'')
            \<lparr> pof_deprecation := Some ''use title'' \<rparr>,
          objectOutputField ''author'' ''User''] \<rparr>"

definition rawUserOutputType :: prisma_output_type where
  "rawUserOutputType = \<lparr> pot_name = ''User'', pot_fields = [scalarOutputField ''id'' ''Int''] \<rparr>"

text \<open>An input type of \<open>Post\<close> with a deprecated field.\<close>

definition rawPostWhereInput :: prisma_input_type where
  "rawPostWhereInput =
     \<lparr> pit_name = ''PostWhereInput'',
       pit_fields =
         [\<lparr> psa_name = ''id'', psa_isRequired = False,
            psa_inputTypes = [\<lparr> ti_type = ''Int'', ti_location = Scalar, ti_isList = False \<rparr>],
            psa_deprecation = None \<rparr>,
          \<lparr> psa_name = ''legacyTitle'', psa_isRequired = False,
            psa_inputTypes = [\<lparr> ti_type = ''String'', ti_location = Scalar, ti_isList = False \<rparr>],
            psa_deprecation = Some ''use title'' \<rparr>] \<rparr>"

definition postUserRun ::
  "error + dmmf_document \<times> input_type list \<times> output_type list \<times> relation_model list" where
  "postUserRun =
     constructSchemaAndRelations exampleHelpers defaultOptions [rawUserAsClient, rawPost] []
       [rawPostWhereInput] [rawPostOutputType, rawUserOutputType]"

definition postUserDocument :: dmmf_document where
  "postUserDocument = (case postUserRun of Inr (doc, _) \<Rightarrow> doc | Inl _ \<Rightarrow> emptyDocument defaultOptions)"

text \<open>
  A model with an unnamed composite primary key on \<open>userId\<close> and \<open>teamId\<close>, a unique
  index named \<open>code_region\<close> on \<open>code\<close> and \<open>region\<close>, and a relation \<open>team\<close>.
\<close>

definition intField :: "string \<Rightarrow> prisma_field" where
  "intField n = idField\<lparr> pf_name := n, pf_isId := False \<rparr>"

definition rawTeam :: prisma_model where
  "rawTeam = rawUser\<lparr> pm_name := ''Team'' \<rparr>"

definition rawMembership :: prisma_model where
  "rawMembership =
     \<lparr> pm_name = ''Membership'',
       pm_fields =
         [intField ''userId'', intField ''teamId'', intField ''code'', intField ''region'',
          authorField\<lparr> pf_name := ''team'', pf_type := ''Team'',
            pf_relationName := Some ''MembershipToTeam'' \<rparr>],
       pm_primaryKey = Some \<lparr> ki_name = None, ki_fields = [''userId'', ''teamId''] \<rparr>,
       pm_uniqueIndexes = [\<lparr> ki_name = Some ''code_region'', ki_fields = [''code'', ''region''] \<rparr>],
       pm_attrName = None, pm_attrPlural = None, pm_attrOmitOutput = None \<rparr>"

definition rawMembershipOutputType :: prisma_output_type where
  "rawMembershipOutputType =
     \<lparr> pot_name = ''Membership'',
       pot_fields =
         [scalarOutputField ''userId'' ''Int'', scalarOutputField ''teamId'' ''Int'',
          scalarOutputField ''code'' ''Int'', scalarOutputField ''region'' ''Int'',
          objectOutputField ''team'' ''Team''] \<rparr>"

definition membershipRun ::
  "error + dmmf_document \<times> input_type list \<times> output_type list \<times> relation_model list" where
  "membershipRun =
     constructSchemaAndRelations exampleHelpers defaultOptions [rawTeam, rawMembership] []
       [] [rawMembershipOutputType, rawUserOutputType\<lparr> pot_name := ''Team'' \<rparr>]"

text \<open>
  A run with colliding display names: the models \<open>User\<close> and \<open>Customer\<close> are both
  renamed to \<open>Client\<close>, the model \<open>role\<close> stands beside the enumeration
  \<open>Role\<close>, and the model \<open>Batch\<close> is renamed to \<open>AffectedRowsOutput\<close>, the
  name of an output type of the schema that belongs to no model.
\<close>

definition rawRole :: prisma_model where
  "rawRole = rawUser\<lparr> pm_name := ''role'' \<rparr>"

definition rawBatch :: prisma_model where
  "rawBatch = rawUser\<lparr> pm_name := ''Batch'', pm_attrName := Some ''AffectedRowsOutput'' \<rparr>"

definition rawRoleEnum :: prisma_enum where
  "rawRoleEnum = \<lparr> pe_name = ''Role'', pe_values = [''ADMIN'', ''MEMBER''] \<rparr>"

definition rawAffectedRowsOutput :: prisma_output_type where
  "rawAffectedRowsOutput =
     \<lparr> pot_name = ''AffectedRowsOutput'', pot_fields = [scalarOutputField ''count'' ''Int''] \<rparr>"

definition collidingRun ::
  "error + dmmf_document \<times> input_type list \<times> output_type list \<times> relation_model list" where
  "collidingRun =
     constructSchemaAndRelations exampleHelpers defaultOptions
       [rawUserAsClient, rawCustomerAsClient, rawRole, rawBatch] [rawRoleEnum]
       [] [rawAffectedRowsOutput]"

text \<open>A run without aliases: \<open>Post\<close> and \<open>User\<close>, no enumeration, their output types
  and \<open>AffectedRowsOutput\<close>.\<close>

definition plainRun ::
  "error + dmmf_document \<times> input_type list \<times> output_type list \<times> relation_model list" where
  "plainRun =
     constructSchemaAndRelations exampleHelpers defaultOptions [rawPost, rawUser] [rawRoleEnum]
       [] [rawPostOutputType, rawUserOutputType, rawAffectedRowsOutput]"

text \<open>
  Six generators on a project that is the list of the generator classes that have run
  and of the callbacks made, in order. The enumerations and the models produce items,
  the other blocks are disabled and report none. The log leaves the project alone; the
  callback writes the block it is called for.
\<close>

definition exampleGenerator ::
  "string \<Rightarrow> string \<Rightarrow> int \<Rightarrow> (string list, nat, string) block_generator" where
  "exampleGenerator className blockName n =
     \<lparr> getBlockName = blockName,
       generate = (\<lambda>w. (Inr \<lparr> itemsGenerated = n, timeElapsed = (if n > 0 then Some 1 else None) \<rparr>,
                        w @ [className])),
       getGeneratedOutputTypes = (if blockName = ''outputs'' then Some (\<lambda>w. []) else None) \<rparr>"

definition exampleGenerators :: "string \<rightharpoonup> (string list, nat, string) block_generator" where
  "exampleGenerators =
     initializeGenerators
       (exampleGenerator ''EnumBlockGenerator'' ''enums'' 2)
       (exampleGenerator ''ModelBlockGenerator'' ''models'' 3)
       (exampleGenerator ''InputBlockGenerator'' ''inputs'' 0)
       (exampleGenerator ''OutputBlockGenerator'' ''outputs'' 0)
       (exampleGenerator ''RelationResolverBlockGenerator'' ''relationResolvers'' 0)
       (exampleGenerator ''CrudResolverBlockGenerator'' ''crudResolvers'' 0)"

definition exampleCallback :: "string \<Rightarrow> nat generation_metrics \<Rightarrow> string list \<Rightarrow> string list" where
  "exampleCallback blockName metrics w = w @ [''callback for '' @ blockName]"

definition exampleBlocksRun :: "(error + string list) \<times> string list \<times> nat event list" where
  "exampleBlocksRun = generateAllBlocks exampleGenerators (\<lambda>msg w. w) (Some exampleCallback) []"

definition exampleSilentRun :: "(error + string list) \<times> string list \<times> nat event list" where
  "exampleSilentRun = generateAllBlocks exampleGenerators (\<lambda>msg w. w) None []"

text \<open>
  A run whose formatter cannot be started: \<open>execa\<close> throws and leaves the tree as it
  found it; saving the project writes one file.
\<close>

definition failingFormatterEnv :: "string list environment" where
  "failingFormatterEnv =
     \<lparr> execa = (\<lambda>cmd tree. (Some ''spawn npx ENOENT'', tree)),
       projectEmit = (\<lambda>tree. (None, tree @ [''index.js''])),
       projectSave = (\<lambda>tree. (None, tree @ [''index.ts''])),
       access = (\<lambda>path tree. False),
       hasMetricsListener = True \<rparr>"

definition initialRunState :: "string list run_state" where
  "initialRunState = \<lparr> outputTree = [], logged = [], emitted = [] \<rparr>"

text \<open>
  A run whose formatter rewrites the first file and throws on the second. The tree is
  the list of the files with their contents; saving the project writes two files.
\<close>

definition rewritingFormatterEnv :: "(string \<times> string) list environment" where
  "rewritingFormatterEnv =
     \<lparr> execa = (\<lambda>cmd tree.
                 (Some ''SyntaxError in b.ts'',
                  (case tree of [] \<Rightarrow> [] | (path, text) # rest \<Rightarrow> (path, ''formatted'') # rest))),
       projectEmit = (\<lambda>tree. (None, [(''a.js'', ''raw''), (''b.js'', ''raw'')])),
       projectSave = (\<lambda>tree. (None, [(''a.ts'', ''raw''), (''b.ts'', ''raw'')])),
       access = (\<lambda>path tree. False),
       hasMetricsListener = True \<rparr>"

definition emptyRunState :: "(string \<times> string) list run_state" where
  "emptyRunState = \<lparr> outputTree = [], logged = [], emitted = [] \<rparr>"

section \<open>Facts about lists and strings\<close>

lemma find_hd_filter:
  "find P xs = (if \<exists>x\<in>set xs. P x then Some (hd (filter P xs)) else None)"
  by (induction xs) auto

lemma hd_filter_props:
  "x \<in> set xs \<Longrightarrow> P x \<Longrightarrow> hd (filter P xs) \<in> set xs \<and> P (hd (filter P xs))"
proof -
  assume "x \<in> set xs" "P x"
  then have "filter P xs \<noteq> []" by (auto simp: filter_empty_conv)
  then have "hd (filter P xs) \<in> set (filter P xs)" by (rule hd_in_set)
  then show ?thesis by simp
qed

section \<open>The selected input type variant\<close>

lemma possibleInputTypes_stages:
  "possibleInputTypes opts its =
     (if \<exists>it\<in>set its. isObjectCandidate opts it then filter (isObjectCandidate opts) its
      else if \<exists>it\<in>set its. isScalarCandidate it then filter isScalarCandidate its
      else if \<exists>it\<in>set its. isEnumCandidate it then filter isEnumCandidate its
      else its)"
  by (auto simp: possibleInputTypes_def Let_def filter_empty_conv)

lemma possibleInputTypes_subset: "set (possibleInputTypes opts its) \<subseteq> set its"
  by (auto simp: possibleInputTypes_stages)

lemma possibleInputTypes_nonempty: "its \<noteq> [] \<Longrightarrow> possibleInputTypes opts its \<noteq> []"
  by (auto simp: possibleInputTypes_stages filter_empty_conv)

lemma selectedInputType_pick:
  "selectedInputType opts ps =
     (if \<exists>it\<in>set ps. ti_isList it then Some (hd (filter ti_isList ps))
      else if useUncheckedScalarInputs opts
              \<and> (\<exists>it\<in>set ps. includesStr (ti_type it) ''Unchecked'')
        then Some (hd (filter (\<lambda>it. includesStr (ti_type it) ''Unchecked'') ps))
      else if ps = [] then None else Some (hd ps))"
  by (cases ps) (auto simp: selectedInputType_def find_hd_filter split: option.splits)

lemma selectedInputType_mem: "selectedInputType opts ps = Some sel \<Longrightarrow> sel \<in> set ps"
  by (auto simp: selectedInputType_pick split: if_splits dest: hd_filter_props)

lemma selected_passes_a_stage:
  assumes "selectedInputType opts (possibleInputTypes opts its) = Some sel"
    and "\<exists>it\<in>set its. isObjectCandidate opts it \<or> isScalarCandidate it \<or> isEnumCandidate it"
  shows "isObjectCandidate opts sel \<or> isScalarCandidate sel \<or> isEnumCandidate sel"
proof -
  let ?ps = "possibleInputTypes opts its"
  have "sel \<in> set ?ps" using assms(1) by (rule selectedInputType_mem)
  moreover have "\<forall>it\<in>set ?ps. isObjectCandidate opts it \<or> isScalarCandidate it \<or> isEnumCandidate it"
    using assms(2) by (auto simp: possibleInputTypes_stages)
  ultimately show ?thesis by blast
qed

text \<open>
  What \<open>selectInputTypeFromTypes\<close> returns is the selected candidate with its type
  name rewritten: the location and the list flag are the candidate's.
\<close>

lemma selectInputTypeFromTypes_variant:
  "selectInputTypeFromTypes h doc its = Inr r \<Longrightarrow>
     \<exists>sel. selectedInputType (doc_options doc) (possibleInputTypes (doc_options doc) its) = Some sel
       \<and> ti_location r = ti_location sel \<and> ti_isList r = ti_isList sel
       \<and> (ti_location sel = InputObjectTypes \<longrightarrow> ti_type r = getInputTypeName h (ti_type sel) doc)
       \<and> (ti_location sel \<noteq> InputObjectTypes \<and> ti_location sel \<noteq> EnumTypes \<longrightarrow> r = sel)"
  by (auto simp: selectInputTypeFromTypes_def split: option.splits if_splits)

text \<open>
  C1, as stated, fails: with simple inputs requested, the \<open>data\<close> argument of
  \<open>createMany\<close> has only candidates on the denylist, the fallback to all candidates
  applies, and the list-typed \<open>UserCreateManyInput\<close> is selected.
\<close>

theorem simpleInputs_selects_compound_counterexample:
  "useSimpleInputs simpleInputsOptions
   \<and> selectedInputType simpleInputsOptions
        (possibleInputTypes simpleInputsOptions createManyDataCandidates)
      = Some \<lparr> ti_type = ''UserCreateManyInput'', ti_location = InputObjectTypes, ti_isList = True \<rparr>
   \<and> isCompoundOperationInput ''UserCreateManyInput''"
  by code_simp

text \<open>
  C1, amended. For a non-empty list of candidates a variant is selected, and it is one of
  the candidates. With simple inputs requested it is not an input object on the denylist
  as soon as some candidate is an input object off the denylist, a scalar other than
  \<open>Null\<close> or an enumeration. Without them the survivors are the input objects if there
  are any, else the scalars other than \<open>Null\<close> if there are any, else the enumerations
  if there are any, else all candidates. Among the survivors the selected variant is the
  first list-typed one, else the first \<open>Unchecked\<close> one when unchecked scalar inputs
  are enabled, else the first.
\<close>

theorem selectInputType_precedence:
  assumes "its \<noteq> []"
  shows "\<exists>sel. selectedInputType opts (possibleInputTypes opts its) = Some sel
     \<and> sel \<in> set its
     \<and> (useSimpleInputs opts
          \<and> (\<exists>it\<in>set its. isObjectCandidate opts it \<or> isScalarCandidate it \<or> isEnumCandidate it)
        \<longrightarrow> \<not> (ti_location sel = InputObjectTypes \<and> isCompoundOperationInput (ti_type sel)))
     \<and> (\<not> useSimpleInputs opts \<longrightarrow>
          possibleInputTypes opts its =
            (if \<exists>it\<in>set its. ti_location it = InputObjectTypes
               then filter (\<lambda>it. ti_location it = InputObjectTypes) its
             else if \<exists>it\<in>set its. ti_location it = Scalar \<and> ti_type it \<noteq> ''Null''
               then filter (\<lambda>it. ti_location it = Scalar \<and> ti_type it \<noteq> ''Null'') its
             else if \<exists>it\<in>set its. ti_location it = EnumTypes
               then filter (\<lambda>it. ti_location it = EnumTypes) its
             else its))
     \<and> sel =
         (if \<exists>it\<in>set (possibleInputTypes opts its). ti_isList it
            then hd (filter ti_isList (possibleInputTypes opts its))
          else if useUncheckedScalarInputs opts
                  \<and> (\<exists>it\<in>set (possibleInputTypes opts its). includesStr (ti_type it) ''Unchecked'')
            then hd (filter (\<lambda>it. includesStr (ti_type it) ''Unchecked'')
                       (possibleInputTypes opts its))
          else hd (possibleInputTypes opts its))"
proof -
  let ?ps = "possibleInputTypes opts its"
  have ne: "?ps \<noteq> []" using assms by (rule possibleInputTypes_nonempty)
  then have "\<exists>sel. selectedInputType opts ?ps = Some sel"
    by (simp add: selectedInputType_pick)
  then obtain sel where sel: "selectedInputType opts ?ps = Some sel" ..
  have mem: "sel \<in> set its"
    using selectedInputType_mem [OF sel] possibleInputTypes_subset [of opts its] by blast
  have simple: "useSimpleInputs opts
      \<and> (\<exists>it\<in>set its. isObjectCandidate opts it \<or> isScalarCandidate it \<or> isEnumCandidate it)
    \<longrightarrow> \<not> (ti_location sel = InputObjectTypes \<and> isCompoundOperationInput (ti_type sel))"
  proof (intro impI, elim conjE)
    assume s: "useSimpleInputs opts"
      and ex: "\<exists>it\<in>set its. isObjectCandidate opts it \<or> isScalarCandidate it \<or> isEnumCandidate it"
    from selected_passes_a_stage [OF sel ex] s
    show "\<not> (ti_location sel = InputObjectTypes \<and> isCompoundOperationInput (ti_type sel))"
      by (auto simp: isObjectCandidate_def isScalarCandidate_def isEnumCandidate_def)
  qed
  have stages: "\<not> useSimpleInputs opts \<longrightarrow>
          ?ps =
            (if \<exists>it\<in>set its. ti_location it = InputObjectTypes
               then filter (\<lambda>it. ti_location it = InputObjectTypes) its
             else if \<exists>it\<in>set its. ti_location it = Scalar \<and> ti_type it \<noteq> ''Null''
               then filter (\<lambda>it. ti_location it = Scalar \<and> ti_type it \<noteq> ''Null'') its
             else if \<exists>it\<in>set its. ti_location it = EnumTypes
               then filter (\<lambda>it. ti_location it = EnumTypes) its
             else its)"
  proof
    assume "\<not> useSimpleInputs opts"
    then have o: "isObjectCandidate opts = (\<lambda>it. ti_location it = InputObjectTypes)"
      by (simp add: isObjectCandidate_def fun_eq_iff)
    have s: "isScalarCandidate = (\<lambda>it. ti_location it = Scalar \<and> ti_type it \<noteq> ''Null'')"
      by (simp add: isScalarCandidate_def fun_eq_iff)
    have e: "isEnumCandidate = (\<lambda>it. ti_location it = EnumTypes)"
      by (simp add: isEnumCandidate_def fun_eq_iff)
    show "?ps =
            (if \<exists>it\<in>set its. ti_location it = InputObjectTypes
               then filter (\<lambda>it. ti_location it = InputObjectTypes) its
             else if \<exists>it\<in>set its. ti_location it = Scalar \<and> ti_type it \<noteq> ''Null''
               then filter (\<lambda>it. ti_location it = Scalar \<and> ti_type it \<noteq> ''Null'') its
             else if \<exists>it\<in>set its. ti_location it = EnumTypes
               then filter (\<lambda>it. ti_location it = EnumTypes) its
             else its)"
      unfolding possibleInputTypes_stages o s e by (rule refl)
  qed
  have pick: "sel =
         (if \<exists>it\<in>set ?ps. ti_isList it then hd (filter ti_isList ?ps)
          else if useUncheckedScalarInputs opts
                  \<and> (\<exists>it\<in>set ?ps. includesStr (ti_type it) ''Unchecked'')
            then hd (filter (\<lambda>it. includesStr (ti_type it) ''Unchecked'') ?ps)
          else hd ?ps)"
    using sel ne unfolding selectedInputType_pick by (auto split: if_splits)
  from sel mem simple stages pick show ?thesis by blast
qed

theorem selectInputType_precedence_witness:
  "stringUpdateCandidates \<noteq> []
   \<and> useSimpleInputs simpleInputsOptions
   \<and> selectedInputType simpleInputsOptions
        (possibleInputTypes simpleInputsOptions stringUpdateCandidates)
      = Some \<lparr> ti_type = ''String'', ti_location = Scalar, ti_isList = False \<rparr>
   \<and> isCompoundOperationInput ''StringFieldUpdateOperationsInput''
   \<and> selectedInputType defaultOptions (possibleInputTypes defaultOptions stringUpdateCandidates)
      = Some \<lparr> ti_type = ''StringFieldUpdateOperationsInput'', ti_location = InputObjectTypes,
               ti_isList = False \<rparr>"
proof -
  have ne: "stringUpdateCandidates \<noteq> []" by code_simp
  have ev: "useSimpleInputs simpleInputsOptions
   \<and> selectedInputType simpleInputsOptions
        (possibleInputTypes simpleInputsOptions stringUpdateCandidates)
      = Some \<lparr> ti_type = ''String'', ti_location = Scalar, ti_isList = False \<rparr>
   \<and> isCompoundOperationInput ''StringFieldUpdateOperationsInput''
   \<and> selectedInputType defaultOptions (possibleInputTypes defaultOptions stringUpdateCandidates)
      = Some \<lparr> ti_type = ''StringFieldUpdateOperationsInput'', ti_location = InputObjectTypes,
               ti_isList = False \<rparr>"
    by code_simp
  from selectInputType_precedence [OF ne, of simpleInputsOptions] ne ev show ?thesis by blast
qed

section \<open>Callbacks that may throw\<close>

lemma mapE_Inr: "mapE f xs = Inr ys \<Longrightarrow> list_all2 (\<lambda>x y. f x = Inr y) xs ys"
proof (induction xs arbitrary: ys)
  case Nil
  then show ?case by simp
next
  case (Cons x xs)
  then show ?case by (auto split: sum.splits)
qed

lemma list_all2_map_back:
  "list_all2 (\<lambda>x y. g y = k x) xs ys \<Longrightarrow> map g ys = map k xs"
  by (induction xs ys rule: list_all2_induct) simp_all

lemma mapE_total: "\<forall>x\<in>set xs. \<exists>y. f x = Inr y \<Longrightarrow> \<exists>ys. mapE f xs = Inr ys"
proof (induction xs)
  case Nil
  then show ?case by simp
next
  case (Cons x xs)
  then obtain y ys where "f x = Inr y" "mapE f xs = Inr ys" by auto
  then show ?case by simp
qed

section \<open>The cache of output type names\<close>

text \<open>
  Within a run the cache holds, for a name, what the body of
  \<open>getMappedOutputTypeName\<close> computes for it; every call keeps it so.
\<close>

lemma getMappedOutputTypeName_sound:
  assumes "\<forall>n v. cache n = Some v \<longrightarrow> mappedOutputTypeName h doc n = Inr v"
  shows "fst (getMappedOutputTypeName h doc cache n) = mappedOutputTypeName h doc n
     \<and> (\<forall>k v. snd (getMappedOutputTypeName h doc cache n) k = Some v
            \<longrightarrow> mappedOutputTypeName h doc k = Inr v)"
  using assms
  by (auto simp: getMappedOutputTypeName_def split: option.splits sum.splits)

lemma getMappedOutputTypeNames_sound:
  "\<forall>n v. cache n = Some v \<longrightarrow> mappedOutputTypeName h doc n = Inr v \<Longrightarrow>
   fst (getMappedOutputTypeNames h doc cache ns) = map (mappedOutputTypeName h doc) ns"
proof (induction ns arbitrary: cache)
  case Nil
  then show ?case by simp
next
  case (Cons n ns)
  from getMappedOutputTypeName_sound [OF Cons.prems, of n]
  have r: "fst (getMappedOutputTypeName h doc cache n) = mappedOutputTypeName h doc n"
    and s: "\<forall>k v. snd (getMappedOutputTypeName h doc cache n) k = Some v
            \<longrightarrow> mappedOutputTypeName h doc k = Inr v" by simp_all
  from Cons.IH [OF s] r show ?case
    by (simp add: split_beta Let_def)
qed

lemma getMappedOutputTypeName_fresh:
  "fst (getMappedOutputTypeName h doc clearOutputTypeNameCache n) = mappedOutputTypeName h doc n"
  by (simp add: getMappedOutputTypeName_def clearOutputTypeNameCache_def split: sum.splits)

section \<open>Display names\<close>

lemma cacheEnums_models: "doc_models (snd (cacheEnums h doc es)) = doc_models doc"
  by (induction es arbitrary: doc) (simp_all add: split_beta Let_def)

lemma cacheEnums_modelsCache: "doc_modelsCache (snd (cacheEnums h doc es)) = doc_modelsCache doc"
  by (induction es arbitrary: doc) (simp_all add: split_beta Let_def)

lemma transformModelWithFields_names:
  "transformModelWithFields h doc m = Inr t \<Longrightarrow>
     md_name t = pm_name m
     \<and> md_typeName t = (case pm_attrName m of Some n \<Rightarrow> n | None \<Rightarrow> pascalCase h (pm_name m))"
  by (auto simp: transformModelWithFields_def transformBareModel_def split: sum.splits)

lemma transformModels_names:
  "transformModels h doc ms = Inr (ts, doc') \<Longrightarrow>
     map md_name ts = map pm_name ms
     \<and> map md_typeName ts =
         map (\<lambda>m. case pm_attrName m of Some n \<Rightarrow> n | None \<Rightarrow> pascalCase h (pm_name m)) ms"
proof (induction ms arbitrary: doc ts doc')
  case Nil
  then show ?case by simp
next
  case (Cons m ms)
  from Cons.prems obtain t rest where t: "transformModelWithFields h doc m = Inr t"
    and r: "transformModels h (cacheModel doc m t) ms = Inr (rest, doc')" and ts: "ts = t # rest"
    by (auto split: sum.splits)
  from Cons.IH [OF r] transformModelWithFields_names [OF t] ts show ?case by simp
qed

text \<open>
  What the constructor leaves: the models are the results of the second pass, and the
  cache of the models is the one the second pass filled.
\<close>

lemma constructModels_result:
  assumes "constructModels h opts ms es = Inr doc"
  shows "\<exists>doc2 doc3. transformModels h doc2 ms = Inr (doc_models doc, doc3)
           \<and> doc_modelsCache doc2 = Map.empty
           \<and> doc_outputTypeCache doc2 = Map.empty
           \<and> doc_modelsCache doc = doc_modelsCache doc3
           \<and> doc_outputTypeCache doc = doc_outputTypeCache doc3
           \<and> doc_enums doc = fst (cacheEnums h (doc3\<lparr> doc_models := doc_models doc \<rparr>) es)"
proof -
  let ?doc1 = "(emptyDocument opts)\<lparr> doc_models := map (transformBareModel h) ms \<rparr>"
  let ?doc2 = "?doc1\<lparr> doc_enums := map (transformEnums h ?doc1) es \<rparr>"
  from assms obtain ts doc3 where tm: "transformModels h ?doc2 ms = Inr (ts, doc3)"
    and d: "doc = (snd (cacheEnums h (doc3\<lparr> doc_models := ts \<rparr>) es))
                    \<lparr> doc_enums := fst (cacheEnums h (doc3\<lparr> doc_models := ts \<rparr>) es) \<rparr>"
    by (auto simp: constructModels_def Let_def split_beta split: sum.splits)
  from d have m: "doc_models doc = ts" by (simp add: cacheEnums_models)
  from d have c: "doc_modelsCache doc = doc_modelsCache doc3"
    by (simp add: cacheEnums_modelsCache)
  have o: "doc_outputTypeCache (snd (cacheEnums h d' es)) = doc_outputTypeCache d'" for d'
    by (induction es arbitrary: d') (simp_all add: split_beta Let_def)
  from d have oc: "doc_outputTypeCache doc = doc_outputTypeCache doc3" by (simp add: o)
  from d m have e: "doc_enums doc = fst (cacheEnums h (doc3\<lparr> doc_models := doc_models doc \<rparr>) es)"
    by simp
  have "doc_modelsCache ?doc2 = Map.empty" "doc_outputTypeCache ?doc2 = Map.empty"
    by (simp_all add: emptyDocument_def)
  with tm m c oc e show ?thesis by blast
qed

lemma constructModels_names:
  assumes "constructModels h opts ms es = Inr doc"
  shows "map md_name (doc_models doc) = map pm_name ms"
    and "map md_typeName (doc_models doc) =
           map (\<lambda>m. case pm_attrName m of Some n \<Rightarrow> n | None \<Rightarrow> pascalCase h (pm_name m)) ms"
  using constructModels_result [OF assms] transformModels_names by blast+

text \<open>
  The lookups of model type names read the list and the cache of the models only.
\<close>

lemma getModelTypeName_cong:
  "doc_modelsCache d = doc_modelsCache d' \<Longrightarrow> doc_models d = doc_models d' \<Longrightarrow>
   getModelTypeName h d = getModelTypeName h d'"
  by (rule ext) (simp add: getModelTypeName_def split: option.splits)

lemma mappedOutputTypeName_cong:
  "doc_modelsCache d = doc_modelsCache d' \<Longrightarrow> doc_models d = doc_models d' \<Longrightarrow>
   mappedOutputTypeName h d = mappedOutputTypeName h d'"
  by (rule ext)
     (simp add: mappedOutputTypeName_def isModelName_def getModelTypeName_cong [of d d']
        split: option.splits)

lemma en_typeName_transformEnums:
  "en_typeName (transformEnums h doc e) =
     (case find (\<lambda>sfx. endsWith (pe_name e) sfx) ENUM_SUFFIXES of
        None \<Rightarrow> pe_name e
      | Some sfx \<Rightarrow> templ (getModelTypeName h doc (replace (pe_name e) sfx [])) @ sfx)"
  by (simp add: transformEnums_def Let_def)

lemma cacheEnums_typeNames:
  "map en_typeName (fst (cacheEnums h doc es)) =
     map (\<lambda>e. case find (\<lambda>sfx. endsWith (pe_name e) sfx) ENUM_SUFFIXES of
                 None \<Rightarrow> pe_name e
               | Some sfx \<Rightarrow> templ (getModelTypeName h doc (replace (pe_name e) sfx [])) @ sfx) es"
proof (induction es arbitrary: doc)
  case Nil
  then show ?case by simp
next
  case (Cons e es)
  have g: "getModelTypeName h (doc\<lparr> doc_enumsCache := c \<rparr>) = getModelTypeName h doc" for c
    by (rule getModelTypeName_cong) simp_all
  show ?case
    by (simp add: split_beta Let_def Cons.IH g en_typeName_transformEnums split: option.splits)
qed

lemma constructModels_enumNames:
  assumes "constructModels h opts ms es = Inr doc"
  shows "map en_typeName (doc_enums doc) =
     map (\<lambda>e. case find (\<lambda>sfx. endsWith (pe_name e) sfx) ENUM_SUFFIXES of
                 None \<Rightarrow> pe_name e
               | Some sfx \<Rightarrow> templ (getModelTypeName h doc (replace (pe_name e) sfx [])) @ sfx) es"
proof -
  from constructModels_result [OF assms] obtain doc3 where
    c: "doc_modelsCache doc = doc_modelsCache doc3"
    and e: "doc_enums doc = fst (cacheEnums h (doc3\<lparr> doc_models := doc_models doc \<rparr>) es)"
    by blast
  have "getModelTypeName h (doc3\<lparr> doc_models := doc_models doc \<rparr>) = getModelTypeName h doc"
    by (rule getModelTypeName_cong) (simp_all add: c)
  then show ?thesis by (simp add: e cacheEnums_typeNames split: option.splits)
qed

lemma transformOutputField_sound:
  assumes "\<forall>n v. cache n = Some v \<longrightarrow> mappedOutputTypeName h doc n = Inr v"
  shows "\<forall>n v. snd (transformOutputField h doc tn cache f) n = Some v
           \<longrightarrow> mappedOutputTypeName h doc n = Inr v"
proof -
  from getMappedOutputTypeName_sound [OF assms, of "ti_type (pof_outputType f)"]
  have s: "\<forall>k v. snd (getMappedOutputTypeName h doc cache (ti_type (pof_outputType f))) k = Some v
            \<longrightarrow> mappedOutputTypeName h doc k = Inr v" by simp
  have "snd (transformOutputField h doc tn cache f)
      = snd (getMappedOutputTypeName h doc cache (ti_type (pof_outputType f)))"
    by (simp add: transformOutputField_def Let_def split: prod.splits sum.splits)
  with s show ?thesis by simp
qed

lemma transformOutputFields_sound:
  "\<forall>n v. cache n = Some v \<longrightarrow> mappedOutputTypeName h doc n = Inr v \<Longrightarrow>
   \<forall>n v. snd (transformOutputFields h doc tn cache fs) n = Some v
           \<longrightarrow> mappedOutputTypeName h doc n = Inr v"
proof (induction fs arbitrary: cache)
  case Nil
  then show ?case by simp
next
  case (Cons f fs)
  obtain r c1 where f: "transformOutputField h doc tn cache f = (r, c1)"
    by (cases "transformOutputField h doc tn cache f")
  from transformOutputField_sound [OF Cons.prems, of tn f] f
  have s1: "\<forall>n v. c1 n = Some v \<longrightarrow> mappedOutputTypeName h doc n = Inr v" by simp
  show ?case
  proof (cases r)
    case (Inl e)
    with f s1 show ?thesis by simp
  next
    case (Inr g)
    obtain r2 c2 where fs: "transformOutputFields h doc tn c1 fs = (r2, c2)"
      by (cases "transformOutputFields h doc tn c1 fs")
    from Cons.IH [OF s1] fs
    have "\<forall>n v. c2 n = Some v \<longrightarrow> mappedOutputTypeName h doc n = Inr v" by simp
    with f Inr fs show ?thesis by (cases r2) simp_all
  qed
qed

lemma transformOutputType_sound:
  assumes "\<forall>n v. cache n = Some v \<longrightarrow> mappedOutputTypeName h doc n = Inr v"
  shows "(\<forall>n v. snd (transformOutputType h doc cache t) n = Some v
            \<longrightarrow> mappedOutputTypeName h doc n = Inr v)
     \<and> (\<forall>t'. fst (transformOutputType h doc cache t) = Inr t'
            \<longrightarrow> mappedOutputTypeName h doc (pot_name t) = Inr (ot_typeName t'))"
proof -
  obtain r c1 where g: "getMappedOutputTypeName h doc cache (pot_name t) = (r, c1)"
    by (cases "getMappedOutputTypeName h doc cache (pot_name t)")
  from getMappedOutputTypeName_sound [OF assms, of "pot_name t"] g
  have r: "r = mappedOutputTypeName h doc (pot_name t)"
    and s1: "\<forall>n v. c1 n = Some v \<longrightarrow> mappedOutputTypeName h doc n = Inr v" by simp_all
  show ?thesis
  proof (cases r)
    case (Inl e)
    with g s1 show ?thesis by (simp add: transformOutputType_def)
  next
    case (Inr tn)
    let ?fs = "filter (\<lambda>field. pof_deprecation field = None) (pot_fields t)"
    obtain r2 c2 where fs: "transformOutputFields h doc tn c1 ?fs = (r2, c2)"
      by (cases "transformOutputFields h doc tn c1 ?fs")
    from transformOutputFields_sound [OF s1, of tn ?fs] fs
    have "\<forall>n v. c2 n = Some v \<longrightarrow> mappedOutputTypeName h doc n = Inr v" by simp
    with g Inr fs r show ?thesis by (cases r2) (simp_all add: transformOutputType_def)
  qed
qed

lemma transformOutputTypes_typeNames:
  "\<forall>n v. cache n = Some v \<longrightarrow> mappedOutputTypeName h doc n = Inr v \<Longrightarrow>
   fst (transformOutputTypes h doc cache ts) = Inr ts' \<Longrightarrow>
   map (\<lambda>t. Inr (ot_typeName t)) ts' = map (\<lambda>t. mappedOutputTypeName h doc (pot_name t)) ts"
proof (induction ts arbitrary: cache ts')
  case Nil
  then show ?case by simp
next
  case (Cons t ts)
  obtain r c1 where t: "transformOutputType h doc cache t = (r, c1)"
    by (cases "transformOutputType h doc cache t")
  from transformOutputType_sound [OF Cons.prems(1), of t] t
  have s1: "\<forall>n v. c1 n = Some v \<longrightarrow> mappedOutputTypeName h doc n = Inr v"
    and n: "\<forall>t'. r = Inr t' \<longrightarrow> mappedOutputTypeName h doc (pot_name t) = Inr (ot_typeName t')"
    by simp_all
  from Cons.prems(2) t obtain t' rest where r: "r = Inr t'"
    and rest: "fst (transformOutputTypes h doc c1 ts) = Inr rest" and ts': "ts' = t' # rest"
    by (auto split: sum.splits prod.splits)
  from Cons.IH [OF s1 rest] n r ts' show ?case by simp
qed

lemma cacheOutputTypes_models:
  "doc_models (cacheOutputTypes ts doc) = doc_models doc
   \<and> doc_modelsCache (cacheOutputTypes ts doc) = doc_modelsCache doc
   \<and> doc_enums (cacheOutputTypes ts doc) = doc_enums doc"
  unfolding cacheOutputTypes_def
  by (induction ts arbitrary: doc) (simp_all add: cacheOutputType_def)

text \<open>
  C4, as stated, fails. In one run the models \<open>User\<close> and \<open>Customer\<close>, both renamed
  to \<open>Client\<close>, get the same display name; the model \<open>role\<close> gets the display name
  of the enumeration \<open>Role\<close>; and the model \<open>Batch\<close>, renamed to
  \<open>AffectedRowsOutput\<close>, gets the display name of the output type of that name, which
  belongs to no model. Nothing detects any of the three collisions.
\<close>

theorem displayName_collision_counterexample:
  "(case collidingRun of
      Inr (doc, its, ots, rms) \<Rightarrow>
        (map md_name (doc_models doc), map md_typeName (doc_models doc),
         map en_typeName (doc_enums doc), map ot_typeName ots)
    | Inl e \<Rightarrow> ([], [], [], []))
   = ([''User'', ''Customer'', ''role'', ''Batch''],
      [''Client'', ''Client'', ''Role'', ''AffectedRowsOutput''],
      [''Role''],
      [''AffectedRowsOutput''])"
  by code_simp

text \<open>
  C4, amended. In a run that builds the document, the display name of a model is its
  alias when it has one and the Pascal case of its name otherwise; the display name of
  an enumeration is its name, or for a name with one of the two suffixes the display
  name found for the model followed by the suffix; the display name of an output type
  is what \<open>getMappedOutputTypeName\<close> computes for its name. Each is computed on its
  own, whatever the other names are: no distinctness holds between two models, between
  a model and an enumeration or between a model and an output type beyond what these
  names give. The display names of the models are pairwise distinct when no model has
  an alias, the names are distinct and \<open>pascalCase\<close> is injective on them.
\<close>

theorem displayNames_computed:
  assumes "constructSchemaAndRelations h opts ms es its ots = Inr (doc, its', ots', rms)"
  shows "map md_typeName (doc_models doc) =
       map (\<lambda>m. case pm_attrName m of Some n \<Rightarrow> n | None \<Rightarrow> pascalCase h (pm_name m)) ms
   \<and> map en_typeName (doc_enums doc) =
       map (\<lambda>e. case find (\<lambda>sfx. endsWith (pe_name e) sfx) ENUM_SUFFIXES of
                   None \<Rightarrow> pe_name e
                 | Some sfx \<Rightarrow> templ (getModelTypeName h doc (replace (pe_name e) sfx [])) @ sfx) es
   \<and> map (\<lambda>t. Inr (ot_typeName t)) ots' = map (\<lambda>t. mappedOutputTypeName h doc (pot_name t)) ots
   \<and> ((\<forall>m\<in>set ms. pm_attrName m = None) \<and> distinct (map pm_name ms)
        \<and> inj_on (pascalCase h) (pm_name ` set ms)
      \<longrightarrow> distinct (map md_typeName (doc_models doc)))"
proof -
  from assms obtain doc0 where c: "constructModels h opts ms es = Inr doc0"
    and s: "fst (transformSchema h doc0 clearOutputTypeNameCache its ots) = Inr (its', ots')"
    and d: "doc = cacheOutputTypes ots' doc0"
    by (auto simp: constructSchemaAndRelations_def Let_def split: sum.splits)
  have m: "doc_models doc = doc_models doc0" and mc: "doc_modelsCache doc = doc_modelsCache doc0"
    and e: "doc_enums doc = doc_enums doc0"
    unfolding d by (simp_all add: cacheOutputTypes_models)
  have g: "getModelTypeName h doc = getModelTypeName h doc0"
    by (rule getModelTypeName_cong) (simp_all add: m mc)
  have f: "mappedOutputTypeName h doc = mappedOutputTypeName h doc0"
    by (rule mappedOutputTypeName_cong) (simp_all add: m mc)
  have names: "map md_typeName (doc_models doc) =
       map (\<lambda>m. case pm_attrName m of Some n \<Rightarrow> n | None \<Rightarrow> pascalCase h (pm_name m)) ms"
    unfolding m by (rule constructModels_names(2) [OF c])
  have enums: "map en_typeName (doc_enums doc) =
       map (\<lambda>e. case find (\<lambda>sfx. endsWith (pe_name e) sfx) ENUM_SUFFIXES of
                   None \<Rightarrow> pe_name e
                 | Some sfx \<Rightarrow> templ (getModelTypeName h doc (replace (pe_name e) sfx [])) @ sfx) es"
    unfolding e g by (rule constructModels_enumNames [OF c])
  from s have "fst (transformOutputTypes h doc0 clearOutputTypeNameCache ots) = Inr ots'"
    by (auto simp: transformSchema_def split: sum.splits prod.splits)
  then have outs: "map (\<lambda>t. Inr (ot_typeName t)) ots'
      = map (\<lambda>t. mappedOutputTypeName h doc (pot_name t)) ots"
    unfolding f
    by (rule transformOutputTypes_typeNames [rotated]) (simp add: clearOutputTypeNameCache_def)
  have "distinct (map md_typeName (doc_models doc))"
    if a: "\<forall>m\<in>set ms. pm_attrName m = None" and di: "distinct (map pm_name ms)"
      and i: "inj_on (pascalCase h) (pm_name ` set ms)"
  proof -
    from a have eq: "map (\<lambda>m. case pm_attrName m of Some n \<Rightarrow> n | None \<Rightarrow> pascalCase h (pm_name m)) ms
        = map (pascalCase h) (map pm_name ms)" by (induction ms) simp_all
    from di i have "distinct (map (pascalCase h) (map pm_name ms))"
      by (subst distinct_map) simp
    then show ?thesis unfolding names eq .
  qed
  with names enums outs show ?thesis by blast
qed

theorem displayNames_computed_witness:
  "\<not> isl plainRun
   \<and> pm_attrName rawPost = None \<and> pm_attrName rawUser = None
   \<and> distinct (map pm_name [rawPost, rawUser])
   \<and> inj_on (pascalCase exampleHelpers) (pm_name ` set [rawPost, rawUser])
   \<and> map md_typeName (doc_models (fst (projr plainRun))) = [''Post'', ''User'']
   \<and> map en_typeName (doc_enums (fst (projr plainRun))) = [''Role'']
   \<and> map ot_typeName (fst (snd (snd (projr plainRun)))) = [''Post'', ''User'', ''AffectedRowsOutput'']
   \<and> distinct (map md_typeName (doc_models (fst (projr plainRun))))"
proof -
  have e: "\<not> isl plainRun
   \<and> map md_typeName (doc_models (fst (projr plainRun))) = [''Post'', ''User'']
   \<and> map en_typeName (doc_enums (fst (projr plainRun))) = [''Role'']
   \<and> map ot_typeName (fst (snd (snd (projr plainRun)))) = [''Post'', ''User'', ''AffectedRowsOutput'']"
    by code_simp
  then have r: "constructSchemaAndRelations exampleHelpers defaultOptions [rawPost, rawUser]
         [rawRoleEnum] [] [rawPostOutputType, rawUserOutputType, rawAffectedRowsOutput]
       = Inr (fst (projr plainRun), fst (snd (projr plainRun)), fst (snd (snd (projr plainRun))),
              snd (snd (snd (projr plainRun))))"
    by (simp add: plainRun_def)
  have a: "\<forall>m\<in>set [rawPost, rawUser]. pm_attrName m = None"
    by (simp add: rawPost_def rawUser_def rawUserAsClient_def)
  have d: "distinct (map pm_name [rawPost, rawUser])"
    by (simp add: rawPost_def rawUser_def rawUserAsClient_def)
  have i: "inj_on (pascalCase exampleHelpers) (pm_name ` set [rawPost, rawUser])"
    by (simp add: rawPost_def rawUser_def rawUserAsClient_def exampleHelpers_def upperChar_def)
  from displayNames_computed [OF r] a d i e show ?thesis by simp
qed

section \<open>Resolution of the types of model fields\<close>

text \<open>
  While the second pass transforms a model, \<open>modelsCache\<close> holds only the models before
  it, and \<open>isModelName\<close> reads that cache: the types of the first model's fields are
  never mapped to display names.
\<close>

lemma transformModelField_typeInfoType:
  "transformModelField h doc f = Inr g \<Longrightarrow>
     mf_typeInfoType g =
       (if isModelName doc (pf_type f) then getModelTypeName h doc (pf_type f)
        else Some (pf_type f))"
  by (auto simp: transformModelField_def Let_def split: sum.splits)

lemma first_model_unresolved:
  assumes "constructModels h opts (m # ms) es = Inr doc"
  shows "map mf_typeInfoType (md_fields (hd (doc_models doc)))
     = map (\<lambda>f. Some (pf_type f)) (pm_fields m)"
proof -
  from constructModels_result [OF assms] obtain doc2 doc3 where
    tm: "transformModels h doc2 (m # ms) = Inr (doc_models doc, doc3)"
    and c: "doc_modelsCache doc2 = Map.empty" by blast
  from tm have "\<exists>t rest. transformModelWithFields h doc2 m = Inr t \<and> doc_models doc = t # rest"
    by (auto split: sum.splits intro: sym)
  then obtain t rest where t: "transformModelWithFields h doc2 m = Inr t"
    and dm: "doc_models doc = t # rest" by blast
  from t obtain flds where f: "mapE (transformModelField h doc2) (pm_fields m) = Inr flds"
    and tf: "md_fields t = flds"
    by (auto simp: transformModelWithFields_def split: sum.splits)
  from mapE_Inr [OF f]
  have "list_all2 (\<lambda>f g. mf_typeInfoType g = Some (pf_type f)) (pm_fields m) flds"
    by (rule list_all2_mono)
       (simp add: transformModelField_typeInfoType isModelName_def c)
  then have "map mf_typeInfoType flds = map (\<lambda>f. Some (pf_type f)) (pm_fields m)"
    by (rule list_all2_map_back)
  with dm tf show ?thesis by simp
qed

text \<open>
  C3 on the models \<open>Post\<close>, with a field \<open>author\<close> of type \<open>User\<close>, and
  \<open>User\<close>, renamed to \<open>Client\<close>. With \<open>Post\<close> first the type of \<open>author\<close>
  resolves to the raw name \<open>User\<close>, though the display name of that model is
  \<open>Client\<close> in the finished document; with \<open>User\<close> first it resolves to
  \<open>Client\<close>.
\<close>

theorem fieldType_misses_later_model:
  "\<not> isl postThenClientDocument \<and> \<not> isl clientThenPostDocument
   \<and> map mf_typeInfoType (md_fields (hd (doc_models (projr postThenClientDocument))))
     = [Some ''Int'', Some ''User'']
   \<and> getModelTypeName exampleHelpers (projr postThenClientDocument) ''User'' = Some ''Client''
   \<and> map mf_typeInfoType (md_fields (last (doc_models (projr clientThenPostDocument))))
     = [Some ''Int'', Some ''Client'']"
  by code_simp

section \<open>Output type names\<close>

lemma startsWith_prefix: "startsWith s p = prefix p s"
  by (induction s p rule: startsWith.induct) auto

lemma endsWith_suffix: "endsWith s x = suffix x s"
  by (simp add: endsWith_def startsWith_prefix suffix_to_prefix)

lemma endsWith_append_right: "endsWith (t @ b) x \<Longrightarrow> endsWith b x \<or> endsWith x b"
  by (auto simp: endsWith_suffix suffix_append)

lemma endsWith_append_left:
  assumes "endsWith (c @ t) x"
  shows "endsWith t x
     \<or> t \<in> set (map (\<lambda>p. drop (length p) x) (filter (\<lambda>p. endsWith c p) (prefixes x)))"
proof -
  from assms have "suffix x t \<or> (\<exists>p. x = p @ t \<and> suffix p c)"
    by (simp add: endsWith_suffix suffix_append)
  then show ?thesis
  proof
    assume "suffix x t"
    then show ?thesis by (simp add: endsWith_suffix)
  next
    assume "\<exists>p. x = p @ t \<and> suffix p c"
    then obtain p where x: "x = p @ t" and p: "suffix p c" by blast
    from x have "prefix p x" by simp
    then have "p \<in> set (prefixes x)" by simp
    with p have "p \<in> set (filter (\<lambda>p. endsWith c p) (prefixes x))"
      by (simp add: endsWith_suffix)
    moreover from x have "t = drop (length p) x" by simp
    ultimately show ?thesis by (simp only: set_map) blast
  qed
qed

lemma startsWith_append_cases:
  assumes "startsWith (t @ b) x"
  shows "startsWith t x
     \<or> t \<in> set (filter (\<lambda>p. startsWith b (drop (length p) x)) (prefixes x))"
proof -
  from assms have "prefix x t \<or> (\<exists>us. x = t @ us \<and> prefix us b)"
    by (simp add: startsWith_prefix prefix_append)
  then show ?thesis
  proof
    assume "prefix x t"
    then show ?thesis by (simp add: startsWith_prefix)
  next
    assume "\<exists>us. x = t @ us \<and> prefix us b"
    then obtain us where x: "x = t @ us" and u: "prefix us b" by blast
    from x have "t \<in> set (prefixes x)" by simp
    moreover from x u have "startsWith b (drop (length t) x)" by (simp add: startsWith_prefix)
    ultimately show ?thesis by simp
  qed
qed

text \<open>
  A name is unreserved when the second application of the mapping cannot take a name
  built from it for another pattern.
\<close>

lemma createManyAndReturn_endsWith:
  assumes "\<not> endsWith t ''AndReturnOutputType''" and "t \<noteq> ''OutputType''"
  shows "\<not> endsWith (''CreateManyAndReturn'' @ t) ''AndReturnOutputType''"
proof
  assume "endsWith (''CreateManyAndReturn'' @ t) ''AndReturnOutputType''"
  from endsWith_append_left [OF this] assms(1)
  have "t \<in> set (map (\<lambda>p. drop (length p) ''AndReturnOutputType'')
                  (filter (\<lambda>p. endsWith ''CreateManyAndReturn'' p)
                     (prefixes ''AndReturnOutputType'')))" by blast
  also have "map (\<lambda>p. drop (length p) ''AndReturnOutputType'')
                  (filter (\<lambda>p. endsWith ''CreateManyAndReturn'' p)
                     (prefixes ''AndReturnOutputType''))
      = [''AndReturnOutputType'', ''OutputType'']" by code_simp
  finally have "t = ''AndReturnOutputType'' \<or> t = ''OutputType''" by simp
  moreover have "endsWith ''AndReturnOutputType'' ''AndReturnOutputType''" by code_simp
  ultimately show False using assms by blast
qed

lemma createManyAndReturn_dedicated:
  assumes "find (\<lambda>sfx. endsWith t sfx) DEDICATED_TYPE_SUFFIXES = None"
  shows "find (\<lambda>sfx. endsWith (''CreateManyAndReturn'' @ t) sfx) DEDICATED_TYPE_SUFFIXES = None"
proof -
  have c: "list_all (\<lambda>x. map (\<lambda>p. drop (length p) x)
                  (filter (\<lambda>p. endsWith ''CreateManyAndReturn'' p) (prefixes x)) = [x])
             DEDICATED_TYPE_SUFFIXES" by code_simp
  have "\<not> endsWith (''CreateManyAndReturn'' @ t) x" if x: "x \<in> set DEDICATED_TYPE_SUFFIXES" for x
  proof
    assume "endsWith (''CreateManyAndReturn'' @ t) x"
    from endsWith_append_left [OF this]
    have "endsWith t x \<or> t \<in> set (map (\<lambda>p. drop (length p) x)
                  (filter (\<lambda>p. endsWith ''CreateManyAndReturn'' p) (prefixes x)))" .
    moreover from c have "\<forall>x\<in>set DEDICATED_TYPE_SUFFIXES. map (\<lambda>p. drop (length p) x)
                  (filter (\<lambda>p. endsWith ''CreateManyAndReturn'' p) (prefixes x)) = [x]"
      by (simp only: list_all_iff)
    with x have "map (\<lambda>p. drop (length p) x)
                  (filter (\<lambda>p. endsWith ''CreateManyAndReturn'' p) (prefixes x)) = [x]"
      by blast
    ultimately have "endsWith t x \<or> t = x" by simp
    moreover have "endsWith x x" by (simp add: endsWith_suffix)
    ultimately have "endsWith t x" by blast
    moreover from assms x have "\<not> endsWith t x" by (simp add: find_None_iff)
    ultimately show False by blast
  qed
  then show ?thesis by (simp add: find_None_iff)
qed

lemma dedicated_base:
  assumes x: "x \<in> set DEDICATED_TYPE_SUFFIXES" and t: "\<not> startsWith t ''Aggregate''"
  shows "\<not> startsWith (t @ replace x ''OutputType'' []) ''Aggregate''
     \<and> \<not> endsWith (t @ replace x ''OutputType'' []) ''AndReturnOutputType''
     \<and> find (\<lambda>sfx. endsWith (t @ replace x ''OutputType'' []) sfx) DEDICATED_TYPE_SUFFIXES = None"
proof -
  let ?b = "replace x ''OutputType'' []"
  have c: "list_all (\<lambda>x. filter (\<lambda>p. startsWith (replace x ''OutputType'' [])
                                      (drop (length p) ''Aggregate''))
                            (prefixes ''Aggregate'') = [''Aggregate'']
                  \<and> \<not> endsWith (replace x ''OutputType'' []) ''AndReturnOutputType''
                  \<and> \<not> endsWith ''AndReturnOutputType'' (replace x ''OutputType'' [])
                  \<and> list_all (\<lambda>sfx. \<not> endsWith (replace x ''OutputType'' []) sfx
                                   \<and> \<not> endsWith sfx (replace x ''OutputType'' []))
                       DEDICATED_TYPE_SUFFIXES)
             DEDICATED_TYPE_SUFFIXES" by code_simp
  from c have "\<forall>x\<in>set DEDICATED_TYPE_SUFFIXES.
                  filter (\<lambda>p. startsWith (replace x ''OutputType'' [])
                                      (drop (length p) ''Aggregate''))
                            (prefixes ''Aggregate'') = [''Aggregate'']
                  \<and> \<not> endsWith (replace x ''OutputType'' []) ''AndReturnOutputType''
                  \<and> \<not> endsWith ''AndReturnOutputType'' (replace x ''OutputType'' [])
                  \<and> (\<forall>sfx\<in>set DEDICATED_TYPE_SUFFIXES.
                         \<not> endsWith (replace x ''OutputType'' []) sfx
                       \<and> \<not> endsWith sfx (replace x ''OutputType'' []))"
    by (simp only: list_all_iff)
  with x have c1: "filter (\<lambda>p. startsWith ?b (drop (length p) ''Aggregate''))
                            (prefixes ''Aggregate'') = [''Aggregate'']"
    and c2: "\<not> endsWith ?b ''AndReturnOutputType''"
    and c3: "\<not> endsWith ''AndReturnOutputType'' ?b"
    and c4: "\<forall>sfx\<in>set DEDICATED_TYPE_SUFFIXES. \<not> endsWith ?b sfx \<and> \<not> endsWith sfx ?b"
    by blast+
  have a: "\<not> startsWith (t @ ?b) ''Aggregate''"
  proof
    assume "startsWith (t @ ?b) ''Aggregate''"
    from startsWith_append_cases [OF this] t
    have "t \<in> set (filter (\<lambda>p. startsWith ?b (drop (length p) ''Aggregate''))
                     (prefixes ''Aggregate''))" by blast
    then have "t = ''Aggregate''" by (simp only: c1) simp
    moreover have "startsWith ''Aggregate'' ''Aggregate''" by code_simp
    ultimately show False using t by blast
  qed
  have b: "\<not> endsWith (t @ ?b) ''AndReturnOutputType''"
    using endsWith_append_right [of t ?b "''AndReturnOutputType''"] c2 c3 by blast
  have "\<not> endsWith (t @ ?b) sfx" if "sfx \<in> set DEDICATED_TYPE_SUFFIXES" for sfx
    using endsWith_append_right [of t ?b sfx] c4 that by blast
  then have "find (\<lambda>sfx. endsWith (t @ ?b) sfx) DEDICATED_TYPE_SUFFIXES = None"
    by (simp add: find_None_iff)
  with a b show ?thesis by blast
qed

text \<open>
  The mapping is idempotent on a document where a type name found for a model is a
  model name that maps to itself and is unreserved, and no model answers to
  \<open>undefined\<close>.
\<close>

lemma mappedOutputTypeName_idempotent:
  assumes a1: "\<And>x t. getModelTypeName h doc x = Some t \<Longrightarrow>
                 getModelTypeName h doc t = Some t
                 \<and> \<not> startsWith t ''Aggregate''
                 \<and> \<not> endsWith t ''AndReturnOutputType'' \<and> t \<noteq> ''OutputType''
                 \<and> find (\<lambda>sfx. endsWith t sfx) DEDICATED_TYPE_SUFFIXES = None"
    and a2: "getModelTypeName h doc ''undefined'' = None"
    and a3: "\<And>r. isModelName doc r \<Longrightarrow> getModelTypeName h doc r = Some r"
    and m: "mappedOutputTypeName h doc n = Inr r"
  shows "mappedOutputTypeName h doc r = Inr r"
proof -
  have u: "templ (getModelTypeName h doc (templ (getModelTypeName h doc x)))
             = templ (getModelTypeName h doc x)
       \<and> \<not> startsWith (templ (getModelTypeName h doc x)) ''Aggregate''
       \<and> \<not> endsWith (templ (getModelTypeName h doc x)) ''AndReturnOutputType''
       \<and> templ (getModelTypeName h doc x) \<noteq> ''OutputType''
       \<and> find (\<lambda>sfx. endsWith (templ (getModelTypeName h doc x)) sfx) DEDICATED_TYPE_SUFFIXES = None"
    for x
  proof (cases "getModelTypeName h doc x")
    case None
    have "\<not> startsWith ''undefined'' ''Aggregate''
       \<and> \<not> endsWith ''undefined'' ''AndReturnOutputType''
       \<and> ''undefined'' \<noteq> ''OutputType''
       \<and> find (\<lambda>sfx. endsWith ''undefined'' sfx) DEDICATED_TYPE_SUFFIXES = None" by code_simp
    with None a2 show ?thesis by (simp add: templ_def)
  next
    case (Some t)
    with a1 [OF Some] show ?thesis by (simp add: templ_def)
  qed
  have model: "mappedOutputTypeName h doc k = Inr k"
    if "\<not> startsWith k ''Aggregate''"
      and "\<not> (startsWith k ''CreateMany'' \<and> endsWith k ''AndReturnOutputType'')"
      and "k \<noteq> []"
      and "find (\<lambda>sfx. endsWith k sfx) DEDICATED_TYPE_SUFFIXES = None" for k
  proof (cases "isModelName doc k")
    case True
    with a3 [OF True] that show ?thesis by (auto simp: mappedOutputTypeName_def)
  next
    case False
    with that show ?thesis by (auto simp: mappedOutputTypeName_def)
  qed
  consider (agg) "startsWith n ''Aggregate''"
    | (many) "\<not> startsWith n ''Aggregate''"
        "startsWith n ''CreateMany'' \<and> endsWith n ''AndReturnOutputType''"
    | (mod) "\<not> startsWith n ''Aggregate''"
        "\<not> (startsWith n ''CreateMany'' \<and> endsWith n ''AndReturnOutputType'')"
        "isModelName doc n"
    | (ded) sfx where "\<not> startsWith n ''Aggregate''"
        "\<not> (startsWith n ''CreateMany'' \<and> endsWith n ''AndReturnOutputType'')"
        "\<not> isModelName doc n"
        "find (\<lambda>sfx. endsWith n sfx) DEDICATED_TYPE_SUFFIXES = Some sfx"
    | (pass) "\<not> startsWith n ''Aggregate''"
        "\<not> (startsWith n ''CreateMany'' \<and> endsWith n ''AndReturnOutputType'')"
        "\<not> isModelName doc n"
        "find (\<lambda>sfx. endsWith n sfx) DEDICATED_TYPE_SUFFIXES = None"
    by (cases "find (\<lambda>sfx. endsWith n sfx) DEDICATED_TYPE_SUFFIXES") blast+
  then show ?thesis
  proof cases
    case agg
    with m have r: "r = ''Aggregate'' @ templ (getModelTypeName h doc (drop 9 n))"
      by (simp add: mappedOutputTypeName_def)
    have "startsWith r ''Aggregate''" unfolding r by simp
    moreover have "drop 9 r = templ (getModelTypeName h doc (drop 9 n))" unfolding r by simp
    ultimately have "mappedOutputTypeName h doc r
        = Inr (''Aggregate''
               @ templ (getModelTypeName h doc (templ (getModelTypeName h doc (drop 9 n)))))"
      by (simp add: mappedOutputTypeName_def)
    with u [of "drop 9 n"] r show ?thesis by simp
  next
    case many
    let ?u = "templ (getModelTypeName h doc (slice n 10 (- 19)))"
    from many m have r: "r = ''CreateManyAndReturn'' @ ?u"
      by (simp add: mappedOutputTypeName_def)
    from u [of "slice n 10 (- 19)"]
    have e: "\<not> endsWith ?u ''AndReturnOutputType''" and o: "?u \<noteq> ''OutputType''"
      and d: "find (\<lambda>sfx. endsWith ?u sfx) DEDICATED_TYPE_SUFFIXES = None" by blast+
    have "\<not> startsWith r ''Aggregate''" unfolding r by simp
    moreover have "\<not> endsWith r ''AndReturnOutputType''"
      unfolding r by (rule createManyAndReturn_endsWith [OF e o])
    moreover have "r \<noteq> []" unfolding r by simp
    moreover have "find (\<lambda>sfx. endsWith r sfx) DEDICATED_TYPE_SUFFIXES = None"
      unfolding r by (rule createManyAndReturn_dedicated [OF d])
    ultimately show ?thesis by (intro model) blast+
  next
    case mod
    from a3 [OF mod(3)] mod m have "r = n"
      by (simp add: mappedOutputTypeName_def split: if_splits)
    with m show ?thesis by simp
  next
    case (ded sfx)
    let ?u = "templ (getModelTypeName h doc (slice n 0 (- int (length sfx))))"
    from ded m have r: "r = ?u @ replace sfx ''OutputType'' []"
      by (auto simp: mappedOutputTypeName_def)
    from ded(4) have x: "sfx \<in> set DEDICATED_TYPE_SUFFIXES"
      by (auto simp: find_Some_iff)
    from u [of "slice n 0 (- int (length sfx))"]
    have a: "\<not> startsWith ?u ''Aggregate''" by blast
    have b: "list_all (\<lambda>x. replace x ''OutputType'' [] \<noteq> []) DEDICATED_TYPE_SUFFIXES"
      by code_simp
    then have "\<forall>x\<in>set DEDICATED_TYPE_SUFFIXES. replace x ''OutputType'' [] \<noteq> []"
      by (simp only: list_all_iff)
    with x have "replace sfx ''OutputType'' [] \<noteq> []" by blast
    then have "r \<noteq> []" unfolding r by simp
    with dedicated_base [OF x a] show ?thesis unfolding r [symmetric] by (intro model) blast+
  next
    case pass
    with m have "r = n" by (auto simp: mappedOutputTypeName_def)
    with m show ?thesis by simp
  qed
qed

text \<open>The cache of the models after the second pass.\<close>

lemma transformModels_cache:
  "transformModels h doc ms = Inr (ts, doc') \<Longrightarrow>
     (\<forall>x t. doc_modelsCache doc' x = Some t \<longrightarrow>
        doc_modelsCache doc x = Some t
        \<or> (\<exists>m\<in>set ms. pm_name m = x
              \<and> md_typeName t = (case pm_attrName m of Some n \<Rightarrow> n
                                 | None \<Rightarrow> pascalCase h (pm_name m))))
     \<and> (\<forall>x. (doc_modelsCache doc x \<noteq> None \<or> x \<in> pm_name ` set ms)
            \<longrightarrow> doc_modelsCache doc' x \<noteq> None)"
proof (induction ms arbitrary: doc ts doc')
  case Nil
  then show ?case by simp
next
  case (Cons m ms)
  from Cons.prems obtain t rest where t: "transformModelWithFields h doc m = Inr t"
    and r: "transformModels h (cacheModel doc m t) ms = Inr (rest, doc')"
    by (auto split: sum.splits)
  have c: "doc_modelsCache (cacheModel doc m t) = (doc_modelsCache doc)(pm_name m \<mapsto> t)"
    by (simp add: cacheModel_def Let_def)
  from transformModelWithFields_names [OF t]
  have n: "md_typeName t = (case pm_attrName m of Some n \<Rightarrow> n | None \<Rightarrow> pascalCase h (pm_name m))"
    by simp
  from Cons.IH [OF r] have
    i1: "\<And>x t'. doc_modelsCache doc' x = Some t' \<Longrightarrow>
        ((doc_modelsCache doc)(pm_name m \<mapsto> t)) x = Some t'
        \<or> (\<exists>m\<in>set ms. pm_name m = x
              \<and> md_typeName t' = (case pm_attrName m of Some n \<Rightarrow> n
                                 | None \<Rightarrow> pascalCase h (pm_name m)))"
    and i2: "\<And>x. ((doc_modelsCache doc)(pm_name m \<mapsto> t)) x \<noteq> None \<or> x \<in> pm_name ` set ms
            \<Longrightarrow> doc_modelsCache doc' x \<noteq> None"
    unfolding c by blast+
  have "doc_modelsCache doc x = Some t'
        \<or> (\<exists>m\<in>set (m # ms). pm_name m = x
              \<and> md_typeName t' = (case pm_attrName m of Some n \<Rightarrow> n
                                 | None \<Rightarrow> pascalCase h (pm_name m)))"
    if "doc_modelsCache doc' x = Some t'" for x t'
    using i1 [OF that] n by (cases "x = pm_name m") auto
  moreover have "doc_modelsCache doc' x \<noteq> None"
    if "doc_modelsCache doc x \<noteq> None \<or> x \<in> pm_name ` set (m # ms)" for x
    using that by (intro i2) (cases "x = pm_name m", auto)
  ultimately show ?case by blast
qed

lemma constructModels_unrenamed:
  assumes c: "constructModels h opts ms es = Inr doc"
    and k: "\<forall>m\<in>set ms. pm_attrName m = None \<and> pascalCase h (pm_name m) = pm_name m"
  shows "\<forall>x t. doc_modelsCache doc x = Some t \<longrightarrow> md_typeName t = x \<and> x \<in> pm_name ` set ms"
    and "\<forall>x. x \<in> pm_name ` set ms \<longrightarrow> doc_modelsCache doc x \<noteq> None"
    and "\<forall>it\<in>set (doc_models doc). md_typeName it = md_name it \<and> md_name it \<in> pm_name ` set ms"
proof -
  from constructModels_result [OF c] obtain doc2 doc3 where
    tm: "transformModels h doc2 ms = Inr (doc_models doc, doc3)"
    and e: "doc_modelsCache doc2 = Map.empty"
    and d: "doc_modelsCache doc = doc_modelsCache doc3" by blast
  from k have aop: "\<And>m. m \<in> set ms \<Longrightarrow>
      (case pm_attrName m of Some n \<Rightarrow> n | None \<Rightarrow> pascalCase h (pm_name m)) = pm_name m"
    by simp
  from transformModels_cache [OF tm] e d
  have i1: "\<And>x t. doc_modelsCache doc x = Some t \<Longrightarrow>
        (\<exists>m\<in>set ms. pm_name m = x
              \<and> md_typeName t = (case pm_attrName m of Some n \<Rightarrow> n
                                 | None \<Rightarrow> pascalCase h (pm_name m)))"
    and i2: "\<And>x. x \<in> pm_name ` set ms \<Longrightarrow> doc_modelsCache doc x \<noteq> None"
    by simp_all
  show "\<forall>x t. doc_modelsCache doc x = Some t \<longrightarrow> md_typeName t = x \<and> x \<in> pm_name ` set ms"
    using i1 aop by fastforce
  show "\<forall>x. x \<in> pm_name ` set ms \<longrightarrow> doc_modelsCache doc x \<noteq> None"
    using i2 by blast
  from constructModels_names [OF c] k
  have n: "map md_name (doc_models doc) = map pm_name ms"
    and tn: "map md_typeName (doc_models doc) = map pm_name ms"
    by (simp_all cong: map_cong)
  from n tn have "map md_typeName (doc_models doc) = map md_name (doc_models doc)" by simp
  then have "\<forall>it\<in>set (doc_models doc). md_typeName it = md_name it" by simp
  moreover from n have "set (map md_name (doc_models doc)) = set (map pm_name ms)" by simp
  then have "\<forall>it\<in>set (doc_models doc). md_name it \<in> pm_name ` set ms" by auto
  ultimately show "\<forall>it\<in>set (doc_models doc). md_typeName it = md_name it
      \<and> md_name it \<in> pm_name ` set ms" by blast
qed

lemma find_Some_mem: "find P xs = Some x \<Longrightarrow> x \<in> set xs \<and> P x"
  by (induction xs) (auto split: if_splits)

lemma constructModels_typeNames_fixed:
  assumes c: "constructModels h opts ms es = Inr doc"
    and k: "\<forall>m\<in>set ms. pm_attrName m = None \<and> pascalCase h (pm_name m) = pm_name m"
  shows "getModelTypeName h doc x = Some t \<Longrightarrow>
           t \<in> pm_name ` set ms \<and> getModelTypeName h doc t = Some t"
    and "isModelName doc r \<Longrightarrow> getModelTypeName h doc r = Some r"
    and "\<forall>m\<in>set ms. toLocaleLowerCase h (pm_name m) \<noteq> toLocaleLowerCase h u \<Longrightarrow>
           getModelTypeName h doc u = None"
proof -
  note u = constructModels_unrenamed [OF c k]
  have fixed: "getModelTypeName h doc y = Some y" if "y \<in> pm_name ` set ms" for y
  proof -
    from u(2) that obtain cm where cm: "doc_modelsCache doc y = Some cm" by blast
    with u(1) have "md_typeName cm = y" by blast
    with cm show ?thesis by (simp add: getModelTypeName_def)
  qed
  show "t \<in> pm_name ` set ms \<and> getModelTypeName h doc t = Some t"
    if g: "getModelTypeName h doc x = Some t"
  proof -
    have "t \<in> pm_name ` set ms"
    proof (cases "doc_modelsCache doc x")
      case (Some cm)
      with g have "t = md_typeName cm" by (simp add: getModelTypeName_def)
      with u(1) Some show ?thesis by blast
    next
      case None
      with g obtain it where
        f: "find (\<lambda>it. toLocaleLowerCase h (md_name it) = toLocaleLowerCase h x) (doc_models doc)
              = Some it" and t: "t = md_typeName it"
        by (auto simp: getModelTypeName_def)
      from find_Some_mem [OF f] have "it \<in> set (doc_models doc)" by blast
      with u(3) t show ?thesis by simp
    qed
    with fixed show ?thesis by blast
  qed
  show "getModelTypeName h doc r = Some r" if "isModelName doc r"
  proof -
    from that obtain cm where cm: "doc_modelsCache doc r = Some cm"
      by (auto simp: isModelName_def)
    with u(1) have "md_typeName cm = r" by blast
    with cm show ?thesis by (simp add: getModelTypeName_def)
  qed
  show "getModelTypeName h doc u = None"
    if n: "\<forall>m\<in>set ms. toLocaleLowerCase h (pm_name m) \<noteq> toLocaleLowerCase h u"
  proof -
    from n have nn: "\<And>y. y \<in> pm_name ` set ms \<Longrightarrow>
        toLocaleLowerCase h y \<noteq> toLocaleLowerCase h u" by blast
    have "doc_modelsCache doc u = None"
    proof (rule ccontr)
      assume "doc_modelsCache doc u \<noteq> None"
      then obtain cm where "doc_modelsCache doc u = Some cm" by blast
      with u(1) have "u \<in> pm_name ` set ms" by blast
      from nn [OF this] show False by simp
    qed
    moreover have "find (\<lambda>it. toLocaleLowerCase h (md_name it) = toLocaleLowerCase h u)
                     (doc_models doc) = None"
    proof -
      have "toLocaleLowerCase h (md_name it) \<noteq> toLocaleLowerCase h u"
        if "it \<in> set (doc_models doc)" for it
      proof -
        from u(3) that have "md_name it \<in> pm_name ` set ms" by blast
        from nn [OF this] show ?thesis .
      qed
      then show ?thesis by (simp add: find_None_iff)
    qed
    ultimately show ?thesis by (simp add: getModelTypeName_def)
  qed
qed

lemma mappedOutputTypeName_passthrough:
  assumes "\<not> startsWith n ''Aggregate''"
    and "\<not> (startsWith n ''CreateMany'' \<and> endsWith n ''AndReturnOutputType'')"
    and "\<not> isModelName doc n"
    and "\<forall>sfx\<in>set DEDICATED_TYPE_SUFFIXES. \<not> endsWith n sfx"
  shows "mappedOutputTypeName h doc n = Inr n"
proof -
  from assms(4) have "find (\<lambda>sfx. endsWith n sfx) DEDICATED_TYPE_SUFFIXES = None"
    by (simp add: find_None_iff)
  with assms(1-3) show ?thesis by (auto simp: mappedOutputTypeName_def)
qed

text \<open>
  C5, as stated, fails. In one run over the document whose model \<open>User\<close> is renamed
  to \<open>Client\<close>, \<open>AggregateUser\<close> is mapped to \<open>AggregateClient\<close>, and
  \<open>AggregateClient\<close> to \<open>Aggregateundefined\<close>. With no model renamed, it fails over
  the document of the model \<open>Undefined\<close>, where \<open>AggregateMissing\<close> is mapped to
  \<open>Aggregateundefined\<close> and that to \<open>AggregateUndefined\<close>, and over the document of
  the model \<open>OutputType\<close>, where \<open>CreateManyOutputTypeAndReturnOutputType\<close> is
  mapped to \<open>CreateManyAndReturnOutputType\<close> and that to
  \<open>CreateManyAndReturnundefined\<close>.
\<close>

theorem getMappedOutputTypeName_not_idempotent_counterexample:
  "fst (getMappedOutputTypeNames exampleHelpers renamedUserDocument clearOutputTypeNameCache
          [''AggregateUser'', ''AggregateClient''])
     = [Inr ''AggregateClient'', Inr ''Aggregateundefined'']
   \<and> \<not> isl undefinedModelDocument
   \<and> fst (getMappedOutputTypeNames exampleHelpers (projr undefinedModelDocument)
            clearOutputTypeNameCache [''AggregateMissing'', ''Aggregateundefined''])
     = [Inr ''Aggregateundefined'', Inr ''AggregateUndefined'']
   \<and> \<not> isl reservedModelDocument
   \<and> fst (getMappedOutputTypeNames exampleHelpers (projr reservedModelDocument)
            clearOutputTypeNameCache
            [''CreateManyOutputTypeAndReturnOutputType'', ''CreateManyAndReturnOutputType''])
     = [Inr ''CreateManyAndReturnOutputType'', Inr ''CreateManyAndReturnundefined'']"
  by code_simp

text \<open>
  C5, amended. In a run that starts from the cleared cache, every call of
  \<open>getMappedOutputTypeName\<close> returns what a first call on its argument returns,
  whatever calls came before. A result that matches none of the patterns (the prefix
  \<open>Aggregate\<close>, \<open>CreateMany\<close> with \<open>AndReturnOutputType\<close>, a model name, a
  dedicated suffix) is mapped to itself by the next call. The mapping is idempotent on
  every name, the names with the prefix \<open>Aggregate\<close>, the model names and the names
  with a dedicated suffix among them, over a document built from models of which none
  has an alias, each name is its own Pascal case, none is \<open>undefined\<close> up to case,
  none starts with \<open>Aggregate\<close>, none ends with \<open>AndReturnOutputType\<close> or a
  dedicated suffix, and none is \<open>OutputType\<close>.
\<close>

theorem getMappedOutputTypeName_deterministic:
  "fst (getMappedOutputTypeNames h doc clearOutputTypeNameCache ns)
     = map (\<lambda>n. fst (getMappedOutputTypeName h doc clearOutputTypeNameCache n)) ns
   \<and> (fst (getMappedOutputTypeName h doc clearOutputTypeNameCache n) = Inr r
        \<and> \<not> startsWith r ''Aggregate''
        \<and> \<not> (startsWith r ''CreateMany'' \<and> endsWith r ''AndReturnOutputType'')
        \<and> \<not> isModelName doc r
        \<and> (\<forall>sfx\<in>set DEDICATED_TYPE_SUFFIXES. \<not> endsWith r sfx)
      \<longrightarrow> fst (getMappedOutputTypeNames h doc clearOutputTypeNameCache [n, r]) = [Inr r, Inr r])
   \<and> (constructModels h opts ms es = Inr doc
        \<and> (\<forall>m\<in>set ms. pm_attrName m = None \<and> pascalCase h (pm_name m) = pm_name m
               \<and> toLocaleLowerCase h (pm_name m) \<noteq> toLocaleLowerCase h ''undefined''
               \<and> \<not> startsWith (pm_name m) ''Aggregate''
               \<and> \<not> endsWith (pm_name m) ''AndReturnOutputType''
               \<and> pm_name m \<noteq> ''OutputType''
               \<and> find (\<lambda>sfx. endsWith (pm_name m) sfx) DEDICATED_TYPE_SUFFIXES = None)
        \<and> fst (getMappedOutputTypeName h doc clearOutputTypeNameCache n) = Inr r
      \<longrightarrow> fst (getMappedOutputTypeNames h doc clearOutputTypeNameCache [n, r]) = [Inr r, Inr r])"
proof -
  have clear: "\<forall>n v. clearOutputTypeNameCache n = Some v \<longrightarrow> mappedOutputTypeName h doc n = Inr v"
    by (simp add: clearOutputTypeNameCache_def)
  have run: "fst (getMappedOutputTypeNames h doc clearOutputTypeNameCache ks)
     = map (\<lambda>n. fst (getMappedOutputTypeName h doc clearOutputTypeNameCache n)) ks" for ks
    using getMappedOutputTypeNames_sound [OF clear, of ks]
    by (simp add: getMappedOutputTypeName_fresh)
  have twice: "fst (getMappedOutputTypeNames h doc clearOutputTypeNameCache [n, r]) = [Inr r, Inr r]"
    if "mappedOutputTypeName h doc n = Inr r" and "mappedOutputTypeName h doc r = Inr r"
    using that by (simp only: run getMappedOutputTypeName_fresh list.map)
  have pass: "fst (getMappedOutputTypeNames h doc clearOutputTypeNameCache [n, r]) = [Inr r, Inr r]"
    if "fst (getMappedOutputTypeName h doc clearOutputTypeNameCache n) = Inr r"
      and "\<not> startsWith r ''Aggregate''"
      and "\<not> (startsWith r ''CreateMany'' \<and> endsWith r ''AndReturnOutputType'')"
      and "\<not> isModelName doc r"
      and "\<forall>sfx\<in>set DEDICATED_TYPE_SUFFIXES. \<not> endsWith r sfx"
  proof -
    have "mappedOutputTypeName h doc n = Inr r"
      using that(1) by (simp only: getMappedOutputTypeName_fresh)
    moreover have "mappedOutputTypeName h doc r = Inr r"
      by (rule mappedOutputTypeName_passthrough [OF that(2-5)])
    ultimately show ?thesis by (rule twice)
  qed
  have idem: "fst (getMappedOutputTypeNames h doc clearOutputTypeNameCache [n, r]) = [Inr r, Inr r]"
    if c: "constructModels h opts ms es = Inr doc"
      and k: "\<forall>m\<in>set ms. pm_attrName m = None \<and> pascalCase h (pm_name m) = pm_name m
               \<and> toLocaleLowerCase h (pm_name m) \<noteq> toLocaleLowerCase h ''undefined''
               \<and> \<not> startsWith (pm_name m) ''Aggregate''
               \<and> \<not> endsWith (pm_name m) ''AndReturnOutputType''
               \<and> pm_name m \<noteq> ''OutputType''
               \<and> find (\<lambda>sfx. endsWith (pm_name m) sfx) DEDICATED_TYPE_SUFFIXES = None"
      and g: "fst (getMappedOutputTypeName h doc clearOutputTypeNameCache n) = Inr r"
  proof -
    from k have k1: "\<forall>m\<in>set ms. pm_attrName m = None \<and> pascalCase h (pm_name m) = pm_name m"
      and k3: "\<forall>m\<in>set ms. toLocaleLowerCase h (pm_name m) \<noteq> toLocaleLowerCase h ''undefined''"
      by blast+
    have k2: "\<not> startsWith y ''Aggregate'' \<and> \<not> endsWith y ''AndReturnOutputType''
               \<and> y \<noteq> ''OutputType''
               \<and> find (\<lambda>sfx. endsWith y sfx) DEDICATED_TYPE_SUFFIXES = None"
      if "y \<in> pm_name ` set ms" for y
    proof -
      from that obtain m where "m \<in> set ms" and "y = pm_name m" by blast
      with k show ?thesis by simp
    qed
    note f = constructModels_typeNames_fixed [OF c k1]
    have m: "mappedOutputTypeName h doc n = Inr r"
      using g by (simp only: getMappedOutputTypeName_fresh)
    have "mappedOutputTypeName h doc r = Inr r"
    proof (rule mappedOutputTypeName_idempotent [OF _ _ _ m])
      fix x t
      assume "getModelTypeName h doc x = Some t"
      from f(1) [OF this] have t: "t \<in> pm_name ` set ms"
        and tt: "getModelTypeName h doc t = Some t" by (rule conjunct1, rule conjunct2)
      from k2 [OF t] tt show "getModelTypeName h doc t = Some t
                 \<and> \<not> startsWith t ''Aggregate''
                 \<and> \<not> endsWith t ''AndReturnOutputType'' \<and> t \<noteq> ''OutputType''
                 \<and> find (\<lambda>sfx. endsWith t sfx) DEDICATED_TYPE_SUFFIXES = None"
        by (rule conjI [rotated])
    next
      show "getModelTypeName h doc ''undefined'' = None" by (rule f(3) [OF k3])
    next
      fix k
      assume "isModelName doc k"
      then show "getModelTypeName h doc k = Some k" by (rule f(2))
    qed
    with m show ?thesis by (rule twice)
  qed
  show ?thesis
  proof (intro conjI impI)
    show "fst (getMappedOutputTypeNames h doc clearOutputTypeNameCache ns)
     = map (\<lambda>n. fst (getMappedOutputTypeName h doc clearOutputTypeNameCache n)) ns"
      by (rule run)
  next
    assume b: "fst (getMappedOutputTypeName h doc clearOutputTypeNameCache n) = Inr r
        \<and> \<not> startsWith r ''Aggregate''
        \<and> \<not> (startsWith r ''CreateMany'' \<and> endsWith r ''AndReturnOutputType'')
        \<and> \<not> isModelName doc r
        \<and> (\<forall>sfx\<in>set DEDICATED_TYPE_SUFFIXES. \<not> endsWith r sfx)"
    show "fst (getMappedOutputTypeNames h doc clearOutputTypeNameCache [n, r])
        = [Inr r, Inr r]"
      by (rule pass [OF b [THEN conjunct1] b [THEN conjunct2, THEN conjunct1]
                b [THEN conjunct2, THEN conjunct2, THEN conjunct1]
                b [THEN conjunct2, THEN conjunct2, THEN conjunct2, THEN conjunct1]
                b [THEN conjunct2, THEN conjunct2, THEN conjunct2, THEN conjunct2]])
  next
    assume a: "constructModels h opts ms es = Inr doc
        \<and> (\<forall>m\<in>set ms. pm_attrName m = None \<and> pascalCase h (pm_name m) = pm_name m
               \<and> toLocaleLowerCase h (pm_name m) \<noteq> toLocaleLowerCase h ''undefined''
               \<and> \<not> startsWith (pm_name m) ''Aggregate''
               \<and> \<not> endsWith (pm_name m) ''AndReturnOutputType''
               \<and> pm_name m \<noteq> ''OutputType''
               \<and> find (\<lambda>sfx. endsWith (pm_name m) sfx) DEDICATED_TYPE_SUFFIXES = None)
        \<and> fst (getMappedOutputTypeName h doc clearOutputTypeNameCache n) = Inr r"
    show "fst (getMappedOutputTypeNames h doc clearOutputTypeNameCache [n, r])
        = [Inr r, Inr r]"
      by (rule idem [OF conjunct1 [OF a] conjunct1 [OF conjunct2 [OF a]]
                        conjunct2 [OF conjunct2 [OF a]]])
  qed
qed


theorem getMappedOutputTypeName_deterministic_witness:
  "fst (getMappedOutputTypeName exampleHelpers renamedUserDocument clearOutputTypeNameCache
          ''User'') = Inr ''Client''
   \<and> \<not> startsWith ''Client'' ''Aggregate''
   \<and> \<not> startsWith ''Client'' ''CreateMany''
   \<and> \<not> isModelName renamedUserDocument ''Client''
   \<and> find (\<lambda>sfx. endsWith ''Client'' sfx) DEDICATED_TYPE_SUFFIXES = None
   \<and> fst (getMappedOutputTypeNames exampleHelpers renamedUserDocument clearOutputTypeNameCache
            [''User'', ''Client'']) = [Inr ''Client'', Inr ''Client'']
   \<and> \<not> isl plainDocument
   \<and> list_all (\<lambda>m. pm_attrName m = None
               \<and> pascalCase exampleHelpers (pm_name m) = pm_name m
               \<and> toLocaleLowerCase exampleHelpers (pm_name m)
                   \<noteq> toLocaleLowerCase exampleHelpers ''undefined''
               \<and> \<not> startsWith (pm_name m) ''Aggregate''
               \<and> \<not> endsWith (pm_name m) ''AndReturnOutputType''
               \<and> pm_name m \<noteq> ''OutputType''
               \<and> find (\<lambda>sfx. endsWith (pm_name m) sfx) DEDICATED_TYPE_SUFFIXES = None)
        [rawPost, rawUser]
   \<and> fst (getMappedOutputTypeName exampleHelpers (projr plainDocument) clearOutputTypeNameCache
            ''UserCountAggregateOutputType'') = Inr ''UserCountAggregate''
   \<and> fst (getMappedOutputTypeNames exampleHelpers (projr plainDocument) clearOutputTypeNameCache
            [''UserCountAggregateOutputType'', ''UserCountAggregate''])
       = [Inr ''UserCountAggregate'', Inr ''UserCountAggregate'']"
proof -
  have e: "fst (getMappedOutputTypeName exampleHelpers renamedUserDocument clearOutputTypeNameCache
          ''User'') = Inr ''Client''
   \<and> \<not> startsWith ''Client'' ''Aggregate''
   \<and> \<not> startsWith ''Client'' ''CreateMany''
   \<and> \<not> isModelName renamedUserDocument ''Client''
   \<and> find (\<lambda>sfx. endsWith ''Client'' sfx) DEDICATED_TYPE_SUFFIXES = None"
    by code_simp
  then have s: "\<forall>sfx\<in>set DEDICATED_TYPE_SUFFIXES. \<not> endsWith ''Client'' sfx"
    by (simp add: find_None_iff)
  have p: "\<not> isl plainDocument
   \<and> fst (getMappedOutputTypeName exampleHelpers (projr plainDocument) clearOutputTypeNameCache
            ''UserCountAggregateOutputType'') = Inr ''UserCountAggregate''"
    by code_simp
  have q: "list_all (\<lambda>m. pm_attrName m = None
               \<and> pascalCase exampleHelpers (pm_name m) = pm_name m
               \<and> toLocaleLowerCase exampleHelpers (pm_name m)
                   \<noteq> toLocaleLowerCase exampleHelpers ''undefined''
               \<and> \<not> startsWith (pm_name m) ''Aggregate''
               \<and> \<not> endsWith (pm_name m) ''AndReturnOutputType''
               \<and> pm_name m \<noteq> ''OutputType''
               \<and> find (\<lambda>sfx. endsWith (pm_name m) sfx) DEDICATED_TYPE_SUFFIXES = None)
        [rawPost, rawUser]"
    by code_simp
  from p have c: "constructModels exampleHelpers defaultOptions [rawPost, rawUser] []
      = Inr (projr plainDocument)" by (simp add: plainDocument_def)
  from q have k: "Ball (set [rawPost, rawUser]) (\<lambda>m. pm_attrName m = None
               \<and> pascalCase exampleHelpers (pm_name m) = pm_name m
               \<and> toLocaleLowerCase exampleHelpers (pm_name m)
                   \<noteq> toLocaleLowerCase exampleHelpers ''undefined''
               \<and> \<not> startsWith (pm_name m) ''Aggregate''
               \<and> \<not> endsWith (pm_name m) ''AndReturnOutputType''
               \<and> pm_name m \<noteq> ''OutputType''
               \<and> find (\<lambda>sfx. endsWith (pm_name m) sfx) DEDICATED_TYPE_SUFFIXES = None)"
    by (simp only: list_all_iff)
  from getMappedOutputTypeName_deterministic
         [of exampleHelpers renamedUserDocument "[]" "''User''" "''Client''"] e s
  have one: "fst (getMappedOutputTypeNames exampleHelpers renamedUserDocument
                    clearOutputTypeNameCache [''User'', ''Client''])
               = [Inr ''Client'', Inr ''Client'']" by blast
  from getMappedOutputTypeName_deterministic
         [of exampleHelpers "projr plainDocument" "[]" "''UserCountAggregateOutputType''"
             "''UserCountAggregate''" defaultOptions "[rawPost, rawUser]" "[]"] c k p
  have two: "fst (getMappedOutputTypeNames exampleHelpers (projr plainDocument)
                    clearOutputTypeNameCache
                    [''UserCountAggregateOutputType'', ''UserCountAggregate''])
       = [Inr ''UserCountAggregate'', Inr ''UserCountAggregate'']" by blast
  from e p q one two show ?thesis by blast
qed

section \<open>Relation models\<close>

lemma generateRelationModel_model: "generateRelationModel h doc m = Inr rm \<Longrightarrow> rm_model rm = m"
  by (auto simp: generateRelationModel_def split: option.splits if_splits sum.splits)

lemma relationModels_models:
  assumes "relationModels h doc = Inr rms"
  shows "map rm_model rms =
     filter (hasRelationFieldInOutputType doc) (filter hasRelationField (doc_models doc))"
proof -
  let ?ms = "filter (hasRelationFieldInOutputType doc) (filter hasRelationField (doc_models doc))"
  from assms have "list_all2 (\<lambda>m rm. generateRelationModel h doc m = Inr rm) ?ms rms"
    unfolding relationModels_def by (rule mapE_Inr)
  then have "list_all2 (\<lambda>m rm. rm_model rm = id m) ?ms rms"
    by (rule list_all2_mono) (simp add: generateRelationModel_model)
  then have "map rm_model rms = map id ?ms" by (rule list_all2_map_back)
  then show ?thesis by simp
qed

lemma hasRelationFieldInOutputType_iff:
  "hasRelationFieldInOutputType doc m \<longleftrightarrow>
     (\<exists>f\<in>set (md_fields m). mf_relationName f \<noteq> None \<and> \<not> mf_isOmittedOutput f
        \<and> (\<exists>ot. doc_outputTypeCache doc (md_name m) = Some ot
              \<and> (\<exists>g\<in>set (ot_fields ot). of_name g = mf_name f)))"
proof (cases "doc_outputTypeCache doc (md_name m)")
  case None
  then show ?thesis by (simp add: hasRelationFieldInOutputType_def)
next
  case (Some ot)
  have "(\<exists>g\<in>set (ot_fields ot). \<exists>f\<in>set (md_fields m).
            mf_name f = of_name g \<and> mf_relationName f \<noteq> None \<and> \<not> mf_isOmittedOutput f)
      \<longleftrightarrow> (\<exists>f\<in>set (md_fields m). mf_relationName f \<noteq> None \<and> \<not> mf_isOmittedOutput f
            \<and> (\<exists>g\<in>set (ot_fields ot). of_name g = mf_name f))"
  proof
    assume "\<exists>g\<in>set (ot_fields ot). \<exists>f\<in>set (md_fields m).
            mf_name f = of_name g \<and> mf_relationName f \<noteq> None \<and> \<not> mf_isOmittedOutput f"
    then obtain g f where g: "g \<in> set (ot_fields ot)" and f: "f \<in> set (md_fields m)"
      and n: "mf_name f = of_name g" and r: "mf_relationName f \<noteq> None"
      and o: "\<not> mf_isOmittedOutput f" by blast
    from n have "of_name g = mf_name f" by simp
    with g f r o show "\<exists>f\<in>set (md_fields m). mf_relationName f \<noteq> None
        \<and> \<not> mf_isOmittedOutput f \<and> (\<exists>g\<in>set (ot_fields ot). of_name g = mf_name f)"
      by blast
  next
    assume "\<exists>f\<in>set (md_fields m). mf_relationName f \<noteq> None
        \<and> \<not> mf_isOmittedOutput f \<and> (\<exists>g\<in>set (ot_fields ot). of_name g = mf_name f)"
    then obtain g f where g: "g \<in> set (ot_fields ot)" and f: "f \<in> set (md_fields m)"
      and n: "of_name g = mf_name f" and r: "mf_relationName f \<noteq> None"
      and o: "\<not> mf_isOmittedOutput f" by blast
    from n have "mf_name f = of_name g" by simp
    with g f r o show "\<exists>g\<in>set (ot_fields ot). \<exists>f\<in>set (md_fields m).
            mf_name f = of_name g \<and> mf_relationName f \<noteq> None \<and> \<not> mf_isOmittedOutput f"
      by blast
  qed
  then show ?thesis by (simp add: hasRelationFieldInOutputType_def Some list_ex_iff)
qed

lemma hasRelationFieldInOutputType_imp:
  "hasRelationFieldInOutputType doc m \<Longrightarrow> hasRelationField m"
  by (auto simp: hasRelationFieldInOutputType_def hasRelationField_def list_ex_iff
      split: option.splits)

text \<open>
  C6. When the constructor derives the relation models, a model is the model of one of
  them exactly when it is a model of the document with a field that has a relation name,
  is not omitted from the output, and has the name of a field of the output type cached
  under the model's name.
\<close>

theorem relationModel_iff:
  assumes "relationModels h doc = Inr rms"
  shows "(\<exists>rm\<in>set rms. rm_model rm = m) \<longleftrightarrow>
     (m \<in> set (doc_models doc)
      \<and> (\<exists>f\<in>set (md_fields m). mf_relationName f \<noteq> None \<and> \<not> mf_isOmittedOutput f
           \<and> (\<exists>ot. doc_outputTypeCache doc (md_name m) = Some ot
                 \<and> (\<exists>g\<in>set (ot_fields ot). of_name g = mf_name f))))"
proof -
  have "(\<exists>rm\<in>set rms. rm_model rm = m) \<longleftrightarrow> m \<in> set (map rm_model rms)" by auto
  also have "\<dots> \<longleftrightarrow> m \<in> set (doc_models doc) \<and> hasRelationFieldInOutputType doc m"
    unfolding relationModels_models [OF assms]
    using hasRelationFieldInOutputType_imp [of doc m] by auto
  finally show ?thesis unfolding hasRelationFieldInOutputType_iff .
qed

theorem relationModel_iff_witness:
  "\<not> isl (relationModels exampleHelpers postUserDocument)
   \<and> map md_name (doc_models postUserDocument) = [''User'', ''Post'']
   \<and> map (md_name \<circ> rm_model) (projr (relationModels exampleHelpers postUserDocument)) = [''Post'']
   \<and> (\<exists>rm\<in>set (projr (relationModels exampleHelpers postUserDocument)).
         rm_model rm = last (doc_models postUserDocument))
   \<and> \<not> (\<exists>rm\<in>set (projr (relationModels exampleHelpers postUserDocument)).
         rm_model rm = hd (doc_models postUserDocument))"
proof -
  have e: "\<not> isl (relationModels exampleHelpers postUserDocument)
   \<and> map md_name (doc_models postUserDocument) = [''User'', ''Post'']
   \<and> map (md_name \<circ> rm_model) (projr (relationModels exampleHelpers postUserDocument)) = [''Post'']"
    by code_simp
  then have r: "relationModels exampleHelpers postUserDocument
      = Inr (projr (relationModels exampleHelpers postUserDocument))" by simp
  have l: "last (doc_models postUserDocument) \<in> set (doc_models postUserDocument)
     \<and> (\<exists>f\<in>set (md_fields (last (doc_models postUserDocument))).
           mf_relationName f \<noteq> None \<and> \<not> mf_isOmittedOutput f
           \<and> (\<exists>g\<in>set (ot_fields (the (doc_outputTypeCache postUserDocument
                          (md_name (last (doc_models postUserDocument)))))). of_name g = mf_name f))
     \<and> doc_outputTypeCache postUserDocument (md_name (last (doc_models postUserDocument))) \<noteq> None"
    by code_simp
  have h: "\<not> (\<exists>f\<in>set (md_fields (hd (doc_models postUserDocument))). mf_relationName f \<noteq> None)"
    by code_simp
  from relationModel_iff [OF r, of "last (doc_models postUserDocument)"] l
  have a: "\<exists>rm\<in>set (projr (relationModels exampleHelpers postUserDocument)).
         rm_model rm = last (doc_models postUserDocument)" by fastforce
  from relationModel_iff [OF r, of "hd (doc_models postUserDocument)"] h
  have b: "\<not> (\<exists>rm\<in>set (projr (relationModels exampleHelpers postUserDocument)).
         rm_model rm = hd (doc_models postUserDocument))" by blast
  from e a b show ?thesis by blast
qed

text \<open>
  The derivation of the relation models does not throw on a document whose output types
  were cached by the constructor: every field of a cached output type is in the cache of
  its fields.
\<close>

lemma fold_fields_keep:
  "fc k \<noteq> None \<Longrightarrow> fold (\<lambda>field fc. fc(of_name field \<mapsto> field)) gs fc k \<noteq> None"
  by (induction gs arbitrary: fc) (simp_all del: not_None_eq)

lemma fold_fields_cached:
  "g \<in> set gs \<Longrightarrow> fold (\<lambda>field fc. fc(of_name field \<mapsto> field)) gs fc (of_name g) \<noteq> None"
proof (induction gs arbitrary: fc)
  case Nil
  then show ?case by simp
next
  case (Cons a gs)
  show ?case
  proof (cases "g = a")
    case True
    have "fold (\<lambda>field fc. fc(of_name field \<mapsto> field)) gs (fc(of_name a \<mapsto> a)) (of_name a) \<noteq> None"
      by (rule fold_fields_keep) simp
    then show ?thesis using True by (simp del: fun_upd_apply not_None_eq)
  next
    case False
    with Cons.prems have "g \<in> set gs" by simp
    then have "fold (\<lambda>field fc. fc(of_name field \<mapsto> field)) gs (fc(of_name a \<mapsto> a)) (of_name g) \<noteq> None"
      by (rule Cons.IH)
    then show ?thesis by (simp del: fun_upd_apply not_None_eq)
  qed
qed

lemma cacheOutputType_agree:
  assumes "\<forall>n ot. doc_outputTypeCache doc n = Some ot \<longrightarrow>
             ot_name ot = n \<and> (\<forall>g\<in>set (ot_fields ot). getOutputTypeField doc n (of_name g) \<noteq> None)"
  shows "\<forall>n ot. doc_outputTypeCache (cacheOutputType t doc) n = Some ot \<longrightarrow>
             ot_name ot = n
             \<and> (\<forall>g\<in>set (ot_fields ot). getOutputTypeField (cacheOutputType t doc) n (of_name g) \<noteq> None)"
proof (intro allI impI)
  fix n ot
  assume c: "doc_outputTypeCache (cacheOutputType t doc) n = Some ot"
  show "ot_name ot = n
     \<and> (\<forall>g\<in>set (ot_fields ot). getOutputTypeField (cacheOutputType t doc) n (of_name g) \<noteq> None)"
  proof (cases "n = ot_name t")
    case True
    with c have "ot = t" by (simp add: cacheOutputType_def)
    with True show ?thesis
      by (simp add: cacheOutputType_def getOutputTypeField_def fold_fields_cached del: not_None_eq)
  next
    case False
    with c have "doc_outputTypeCache doc n = Some ot" by (simp add: cacheOutputType_def)
    with assms have "ot_name ot = n"
      and "\<forall>g\<in>set (ot_fields ot). getOutputTypeField doc n (of_name g) \<noteq> None" by auto
    with False show ?thesis
      by (simp add: cacheOutputType_def getOutputTypeField_def del: not_None_eq)
  qed
qed

lemma cacheOutputTypes_agree:
  assumes "\<forall>n ot. doc_outputTypeCache doc n = Some ot \<longrightarrow>
             ot_name ot = n \<and> (\<forall>g\<in>set (ot_fields ot). getOutputTypeField doc n (of_name g) \<noteq> None)"
  shows "\<forall>n ot. doc_outputTypeCache (cacheOutputTypes ts doc) n = Some ot \<longrightarrow>
             ot_name ot = n
             \<and> (\<forall>g\<in>set (ot_fields ot). getOutputTypeField (cacheOutputTypes ts doc) n (of_name g) \<noteq> None)"
  using assms unfolding cacheOutputTypes_def
proof (induction ts arbitrary: doc)
  case Nil
  then show ?case by simp
next
  case (Cons t ts)
  from Cons.IH [OF cacheOutputType_agree [OF Cons.prems]] show ?case by simp
qed

lemma generateRelationModel_total:
  assumes agree: "\<forall>n ot. doc_outputTypeCache doc n = Some ot \<longrightarrow>
             ot_name ot = n \<and> (\<forall>g\<in>set (ot_fields ot). getOutputTypeField doc n (of_name g) \<noteq> None)"
    and cand: "hasRelationFieldInOutputType doc m"
  shows "\<exists>rm. generateRelationModel h doc m = Inr rm"
proof -
  from cand obtain ot where ot: "doc_outputTypeCache doc (md_name m) = Some ot"
    by (auto simp: hasRelationFieldInOutputType_def split: option.splits)
  from agree ot have nm: "ot_name ot = md_name m" by blast
  from agree ot
  have fs: "\<forall>g\<in>set (ot_fields ot). getOutputTypeField doc (md_name m) (of_name g) \<noteq> None"
    by blast
  let ?f = "(\<lambda>field.
                     case getOutputTypeField doc (ot_name ot) (mf_name field) of
                       None \<Rightarrow> Inl TypeError
                     | Some outputTypeField \<Rightarrow>
                         Inr \<lparr> rf_field = field,
                               rf_outputTypeField = outputTypeField,
                               rf_argsTypeName =
                                 (if length (of_args outputTypeField) > 0
                                  then Some (md_typeName m @ pascalCase h (mf_name field) @ ''Args'')
                                  else None),
                               rf_type = getModelTypeName h doc (mf_type field) \<rparr>)"
  let ?xs = "(filter
                     (\<lambda>field. truthy (mf_relationName field) \<and> \<not> mf_isOmittedOutput field
                        \<and> list_ex (\<lambda>it. of_name it = mf_name field) (ot_fields ot))
                     (md_fields m))"
  have "\<exists>y. ?f x = Inr y" if "x \<in> set ?xs" for x
  proof -
    from that have "\<exists>g\<in>set (ot_fields ot). of_name g = mf_name x"
      by (simp add: list_ex_iff)
    then obtain g where g: "g \<in> set (ot_fields ot)" and n: "of_name g = mf_name x" by blast
    from fs g have "getOutputTypeField doc (md_name m) (of_name g) \<noteq> None" by blast
    with nm n have "getOutputTypeField doc (ot_name ot) (mf_name x) \<noteq> None"
      by (simp del: not_None_eq)
    then obtain otf where "getOutputTypeField doc (ot_name ot) (mf_name x) = Some otf" by blast
    then show ?thesis by simp
  qed
  then have "\<forall>x\<in>set ?xs. \<exists>y. ?f x = Inr y" by blast
  then have "\<exists>ys. mapE ?f ?xs = Inr ys" by (rule mapE_total)
  then obtain ys where "mapE ?f ?xs = Inr ys" ..
  then show ?thesis unfolding generateRelationModel_def ot by simp
qed

lemma relationModels_total:
  assumes "\<forall>n ot. doc_outputTypeCache doc n = Some ot \<longrightarrow>
             ot_name ot = n \<and> (\<forall>g\<in>set (ot_fields ot). getOutputTypeField doc n (of_name g) \<noteq> None)"
  shows "\<exists>rms. relationModels h doc = Inr rms"
  unfolding relationModels_def
proof (rule mapE_total, rule ballI)
  fix m
  assume "m \<in> set (filter (hasRelationFieldInOutputType doc) (filter hasRelationField (doc_models doc)))"
  then have "hasRelationFieldInOutputType doc m" by simp
  then show "\<exists>y. generateRelationModel h doc m = Inr y"
    by (rule generateRelationModel_total [OF assms])
qed

lemma transformModels_outputTypeCache:
  "transformModels h doc ms = Inr (ts, doc') \<Longrightarrow>
     doc_outputTypeCache doc' = doc_outputTypeCache doc"
proof (induction ms arbitrary: doc ts doc')
  case Nil
  then show ?case by simp
next
  case (Cons m ms)
  from Cons.prems obtain t rest where
    r: "transformModels h (cacheModel doc m t) ms = Inr (rest, doc')"
    by (auto split: sum.splits)
  from Cons.IH [OF r] show ?case by (simp add: cacheModel_def Let_def)
qed

lemma constructModels_outputTypeCache:
  assumes "constructModels h opts ms es = Inr doc"
  shows "doc_outputTypeCache doc = Map.empty"
proof -
  from constructModels_result [OF assms] obtain doc2 doc3 where
    "transformModels h doc2 ms = Inr (doc_models doc, doc3)"
    "doc_outputTypeCache doc2 = Map.empty" "doc_outputTypeCache doc = doc_outputTypeCache doc3"
    by blast
  with transformModels_outputTypeCache [of h doc2 ms "doc_models doc" doc3] show ?thesis by simp
qed

lemma constructor_derives_relationModels:
  assumes "constructModels h opts ms es = Inr doc"
  shows "\<exists>rms. relationModels h (cacheOutputTypes ots doc) = Inr rms"
  by (rule relationModels_total, rule cacheOutputTypes_agree)
     (simp add: constructModels_outputTypeCache [OF assms])

section \<open>Deprecated fields\<close>

lemma transformInputField_keeps:
  "transformInputField h doc n mt f = Inr a \<Longrightarrow>
     sa_name a = psa_name f \<and> sa_deprecation a = psa_deprecation f"
  by (auto simp: transformInputField_def Let_def split: sum.splits)

lemma transformInputType_fields:
  assumes "transformInputType h doc inputType = Inr t"
  shows "list_all2 (\<lambda>f a. sa_name a = psa_name f \<and> sa_deprecation a = psa_deprecation f)
           (filter (\<lambda>field. psa_deprecation field = None) (pit_fields inputType)) (in_fields t)"
proof -
  from assms obtain mt where
    "mapE (transformInputField h doc (pit_name inputType) mt)
       (filter (\<lambda>field. psa_deprecation field = None) (pit_fields inputType)) = Inr (in_fields t)"
    by (auto simp: transformInputType_def Let_def split: sum.splits)
  then have "list_all2 (\<lambda>f a. transformInputField h doc (pit_name inputType) mt f = Inr a)
           (filter (\<lambda>field. psa_deprecation field = None) (pit_fields inputType)) (in_fields t)"
    by (rule mapE_Inr)
  then show ?thesis
    by (rule list_all2_mono) (simp add: transformInputField_keeps)
qed

lemma transformOutputField_keeps:
  "transformOutputField h doc tn c f = (Inr g, c') \<Longrightarrow>
     of_name g = pof_name f \<and> of_deprecation g = pof_deprecation f"
  by (auto simp: transformOutputField_def Let_def split: sum.splits prod.splits)

lemma transformOutputFields_keep:
  "transformOutputFields h doc tn c fs = (Inr gs, c') \<Longrightarrow>
     list_all2 (\<lambda>f g. of_name g = pof_name f \<and> of_deprecation g = pof_deprecation f) fs gs"
proof (induction fs arbitrary: c gs c')
  case Nil
  then show ?case by simp
next
  case (Cons f fs)
  then show ?case
    by (auto split: sum.splits prod.splits dest: transformOutputField_keeps)
qed

lemma transformOutputType_fields:
  assumes "transformOutputType h doc cache outputType = (Inr t, cache')"
  shows "list_all2 (\<lambda>f g. of_name g = pof_name f \<and> of_deprecation g = pof_deprecation f)
           (filter (\<lambda>field. pof_deprecation field = None) (pot_fields outputType)) (ot_fields t)"
  using assms
  by (auto simp: transformOutputType_def split: sum.splits prod.splits
      dest: transformOutputFields_keep)

lemma kept_fields:
  assumes "list_all2 (\<lambda>f g. nm' g = nm f \<and> dp' g = dp f) (filter (\<lambda>f. dp f = None) fs) gs"
  shows "map nm' gs = map nm (filter (\<lambda>f. dp f = None) fs) \<and> (\<forall>g\<in>set gs. dp' g = None)"
proof -
  from assms have "list_all2 (\<lambda>f g. nm' g = nm f) (filter (\<lambda>f. dp f = None) fs) gs"
    by (rule list_all2_mono) simp
  then have n: "map nm' gs = map nm (filter (\<lambda>f. dp f = None) fs)"
    by (rule list_all2_map_back)
  from assms have "list_all2 (\<lambda>f g. dp' g = dp f) (filter (\<lambda>f. dp f = None) fs) gs"
    by (rule list_all2_mono) simp
  then have "map dp' gs = map dp (filter (\<lambda>f. dp f = None) fs)"
    by (rule list_all2_map_back)
  also have "\<dots> = map (\<lambda>f. None) (filter (\<lambda>f. dp f = None) fs)" by (induction fs) simp_all
  finally have "set (map dp' gs) \<subseteq> {None}" by auto
  then have "\<forall>g\<in>set gs. dp' g = None" by auto
  with n show ?thesis by blast
qed

text \<open>
  C10. The fields of a transformed input type are, in order and by name, the fields of
  the raw input type that carry no deprecation marker, and none of them carries one; the
  same holds of a transformed output type.
\<close>

theorem deprecated_fields_excluded:
  "(transformInputType h doc inputType = Inr t \<longrightarrow>
      map sa_name (in_fields t)
        = map psa_name (filter (\<lambda>field. psa_deprecation field = None) (pit_fields inputType))
      \<and> (\<forall>field\<in>set (in_fields t). sa_deprecation field = None))
   \<and> (transformOutputType h doc cache outputType = (Inr t', cache') \<longrightarrow>
      map of_name (ot_fields t')
        = map pof_name (filter (\<lambda>field. pof_deprecation field = None) (pot_fields outputType))
      \<and> (\<forall>field\<in>set (ot_fields t'). of_deprecation field = None))"
  using kept_fields [OF transformInputType_fields, of h doc inputType t]
    kept_fields [OF transformOutputType_fields, of h doc cache outputType t' cache']
  by blast

theorem deprecated_fields_excluded_witness:
  "\<not> isl (transformInputType exampleHelpers postUserDocument rawPostWhereInput)
   \<and> map psa_name (pit_fields rawPostWhereInput) = [''id'', ''legacyTitle'']
   \<and> map sa_name (in_fields (projr (transformInputType exampleHelpers postUserDocument
                                      rawPostWhereInput))) = [''id'']
   \<and> \<not> isl (fst (transformOutputType exampleHelpers postUserDocument clearOutputTypeNameCache
                   rawPostOutputType))
   \<and> map pof_name (pot_fields rawPostOutputType) = [''id'', ''legacyTitle'', ''author'']
   \<and> map of_name (ot_fields (projr (fst (transformOutputType exampleHelpers postUserDocument
                                           clearOutputTypeNameCache rawPostOutputType))))
      = [''id'', ''author'']"
proof -
  let ?i = "transformInputType exampleHelpers postUserDocument rawPostWhereInput"
  let ?o = "transformOutputType exampleHelpers postUserDocument clearOutputTypeNameCache
              rawPostOutputType"
  have e: "\<not> isl ?i
   \<and> map psa_name (pit_fields rawPostWhereInput) = [''id'', ''legacyTitle'']
   \<and> map psa_name (filter (\<lambda>field. psa_deprecation field = None) (pit_fields rawPostWhereInput))
      = [''id'']
   \<and> \<not> isl (fst ?o)
   \<and> map pof_name (pot_fields rawPostOutputType) = [''id'', ''legacyTitle'', ''author'']
   \<and> map pof_name (filter (\<lambda>field. pof_deprecation field = None) (pot_fields rawPostOutputType))
      = [''id'', ''author'']"
    by code_simp
  then have i: "?i = Inr (projr ?i)" by simp
  from e have o: "?o = (Inr (projr (fst ?o)), snd ?o)" by (simp add: prod_eq_iff)
  from deprecated_fields_excluded
         [of exampleHelpers postUserDocument rawPostWhereInput "projr ?i"
            clearOutputTypeNameCache rawPostOutputType "projr (fst ?o)" "snd ?o"] i o e
  show ?thesis by simp
qed

section \<open>The where condition of a relation resolver\<close>

text \<open>
  What the where condition is, case by case: a single id or unique field gives one entry
  for that field; otherwise a non-empty list of composite fields is nested under the
  primary key's name when it has one; and without a single field and without composite
  fields the condition is an error.
\<close>

lemma whereCondition_single:
  "whereCondition m root (Some f) cs = Inr (WhereField (mf_name f, root, mf_name f))"
  by (simp add: whereCondition_def)

lemma singleFilterField_first:
  "singleFilterField m =
     (if \<exists>f\<in>set (md_fields m). mf_isId f then Some (hd (filter mf_isId (md_fields m)))
      else if \<exists>f\<in>set (md_fields m). mf_isUnique f
        then Some (hd (filter mf_isUnique (md_fields m)))
      else None)"
  by (simp add: singleFilterField_def singleIdField_def singleUniqueField_def find_hd_filter)

lemma whereCondition_composite:
  "cs \<noteq> [] \<Longrightarrow>
   whereCondition m root None cs
     = Inr (WhereComposite (filterKeyName m cs) (map (\<lambda>f. (mf_name f, root, mf_name f)) cs))"
  by (simp add: whereCondition_def)

lemma whereCondition_none:
  "whereCondition m root None [] = Inl (WhereConditionError (md_typeName m))"
  by (simp add: whereCondition_def)

lemma filterKeyName_named_primaryKey:
  "md_primaryKey m = Some pk \<Longrightarrow> ki_name pk = Some n \<Longrightarrow> filterKeyName m cs = n"
  by (simp add: filterKeyName_def)

lemma filterKeyName_no_names:
  "(case md_primaryKey m of None \<Rightarrow> None | Some pk \<Rightarrow> ki_name pk) = None \<Longrightarrow>
   (case md_uniqueIndexes m of [] \<Rightarrow> None | idx # _ \<Rightarrow> ki_name idx) = None \<Longrightarrow>
   filterKeyName m cs = join (map mf_name cs) ''_''"
  by (simp add: filterKeyName_def)

text \<open>
  The case that goes wrong: an unnamed primary key and a named first unique index. The
  filter key is the name of the index, whatever the composite fields are.
\<close>

lemma filterKeyName_unnamed_primaryKey:
  "md_primaryKey m = Some pk \<Longrightarrow> ki_name pk = None \<Longrightarrow>
   md_uniqueIndexes m = idx # rest \<Longrightarrow> ki_name idx = Some n \<Longrightarrow> filterKeyName m cs = n"
  by (simp add: filterKeyName_def)

text \<open>One resolver class per relation model, under the resolver name of the model.\<close>

lemma relationResolvers_names:
  assumes "mapE (generateRelationsResolverClassesFromModel h) rms = Inr rcs"
  shows "map rc_name rcs = map rm_resolverName rms"
proof -
  from assms
  have "list_all2 (\<lambda>rm rc. generateRelationsResolverClassesFromModel h rm = Inr rc) rms rcs"
    by (rule mapE_Inr)
  then have "list_all2 (\<lambda>rm rc. rc_name rc = rm_resolverName rm) rms rcs"
    by (rule list_all2_mono)
       (auto simp: generateRelationsResolverClassesFromModel_def Let_def split: sum.splits)
  then show ?thesis by (rule list_all2_map_back)
qed

text \<open>
  C2 on the model \<open>Membership\<close>, whose composite primary key on \<open>userId\<close> and
  \<open>teamId\<close> has no name and whose first unique index is named \<open>code_region\<close>: the
  fields of the where condition are those of the primary key, and the key they are
  nested under is the name of the unique index, not \<open>userId_teamId\<close>.
\<close>

theorem compositeKey_named_after_uniqueIndex:
  "(case membershipRun of
      Inr (doc, its, ots, rms) \<Rightarrow> map (generateRelationsResolverClassesFromModel exampleHelpers) rms
    | Inl e \<Rightarrow> [])
   = [Inr \<lparr> rc_name = ''MembershipRelationsResolver'',
            rc_methods =
              [\<lparr> meth_name = ''team'',
                 meth_where =
                   WhereComposite ''code_region''
                     [(''userId'', ''membership'', ''userId''),
                      (''teamId'', ''membership'', ''teamId'')] \<rparr>] \<rparr>]"
  by code_simp

section \<open>The order of the block generators and the metrics callback\<close>

lemma generateCalls_append: "generateCalls (xs @ ys) = generateCalls xs @ generateCalls ys"
  by (induction xs rule: generateCalls.induct) simp_all

lemma generateReturns_append: "generateReturns (xs @ ys) = generateReturns xs @ generateReturns ys"
  by (induction xs rule: generateReturns.induct) simp_all

lemma metricsCallbacks_append: "metricsCallbacks (xs @ ys) = metricsCallbacks xs @ metricsCallbacks ys"
  by (induction xs rule: metricsCallbacks.induct) simp_all

lemma generateBlock_events:
  assumes "generateBlock g log cb b out w = (res, w', evs)"
  shows "generateCalls evs = [b]"
    and "foldl callStep Idle evs = (if isl res then InCall b else Idle)"
    and "cb \<noteq> None \<Longrightarrow>
         metricsCallbacks evs = filter (\<lambda>(b, m). itemsGenerated m > 0) (generateReturns evs)"
    and "cb = None \<Longrightarrow> metricsCallbacks evs = []"
  using assms
  by (auto simp: generateBlock_def Let_def split: prod.splits sum.splits option.splits if_splits)

lemma generateBlocks_calls:
  "\<exists>cs. generateCalls (snd (snd (generateBlocks gens log cb bs out w tr))) = generateCalls tr @ cs
      \<and> prefix cs (filter (\<lambda>b. gens b \<noteq> None) bs)
      \<and> (\<not> isl (fst (generateBlocks gens log cb bs out w tr))
           \<longrightarrow> cs = filter (\<lambda>b. gens b \<noteq> None) bs)"
proof (induction bs arbitrary: out w tr)
  case Nil
  then show ?case by simp
next
  case (Cons b bs)
  show ?case
  proof (cases "gens b")
    case None
    with Cons.IH [of out w tr] show ?thesis by simp
  next
    case (Some g)
    obtain res w' evs where gb: "generateBlock g log cb b out w = (res, w', evs)"
      by (cases "generateBlock g log cb b out w")
    have calls: "generateCalls evs = [b]" using gb by (rule generateBlock_events)
    show ?thesis
    proof (cases res)
      case (Inl e)
      with Some gb calls show ?thesis
        by (auto simp: generateCalls_append intro!: exI [of _ "[b]"])
    next
      case (Inr cap)
      from Cons.IH [of cap w' "tr @ evs"] obtain cs where
        cs: "generateCalls (snd (snd (generateBlocks gens log cb bs cap w' (tr @ evs))))
               = generateCalls (tr @ evs) @ cs"
          "prefix cs (filter (\<lambda>b. gens b \<noteq> None) bs)"
          "\<not> isl (fst (generateBlocks gens log cb bs cap w' (tr @ evs)))
            \<longrightarrow> cs = filter (\<lambda>b. gens b \<noteq> None) bs"
        by blast
      with Some gb Inr calls show ?thesis
        by (intro exI [of _ "b # cs"]) (simp add: generateCalls_append)
    qed
  qed
qed

lemma generateBlocks_sequential:
  "foldl callStep Idle tr = Idle \<Longrightarrow>
   foldl callStep Idle (snd (snd (generateBlocks gens log cb bs out w tr))) \<noteq> Violated
   \<and> (\<not> isl (fst (generateBlocks gens log cb bs out w tr))
        \<longrightarrow> foldl callStep Idle (snd (snd (generateBlocks gens log cb bs out w tr))) = Idle)"
proof (induction bs arbitrary: out w tr)
  case Nil
  then show ?case by simp
next
  case (Cons b bs)
  show ?case
  proof (cases "gens b")
    case None
    with Cons.IH [OF Cons.prems, of out w] show ?thesis by simp
  next
    case (Some g)
    obtain res w' evs where gb: "generateBlock g log cb b out w = (res, w', evs)"
      by (cases "generateBlock g log cb b out w")
    have st: "foldl callStep Idle evs = (if isl res then InCall b else Idle)"
      using gb by (rule generateBlock_events)
    show ?thesis
    proof (cases res)
      case (Inl e)
      with Some gb st Cons.prems show ?thesis by simp
    next
      case (Inr cap)
      with st Cons.prems have "foldl callStep Idle (tr @ evs) = Idle" by simp
      from Cons.IH [OF this, of cap w'] Some gb Inr show ?thesis by simp
    qed
  qed
qed

lemma generateBlocks_callbacks:
  assumes "cb \<noteq> None"
  shows "\<exists>rs. generateReturns (snd (snd (generateBlocks gens log cb bs out w tr)))
           = generateReturns tr @ rs
      \<and> metricsCallbacks (snd (snd (generateBlocks gens log cb bs out w tr)))
           = metricsCallbacks tr @ filter (\<lambda>(b, m). itemsGenerated m > 0) rs"
proof (induction bs arbitrary: out w tr)
  case Nil
  then show ?case by simp
next
  case (Cons b bs)
  show ?case
  proof (cases "gens b")
    case None
    with Cons.IH [of out w tr] show ?thesis by simp
  next
    case (Some g)
    obtain res w' evs where gb: "generateBlock g log cb b out w = (res, w', evs)"
      by (cases "generateBlock g log cb b out w")
    have ev: "metricsCallbacks evs = filter (\<lambda>(b, m). itemsGenerated m > 0) (generateReturns evs)"
      using gb assms by (rule generateBlock_events)
    show ?thesis
    proof (cases res)
      case (Inl e)
      with Some gb ev show ?thesis
        by (auto simp: generateReturns_append metricsCallbacks_append)
    next
      case (Inr cap)
      from Cons.IH [of cap w' "tr @ evs"] obtain rs where
        rs: "generateReturns (snd (snd (generateBlocks gens log cb bs cap w' (tr @ evs))))
               = generateReturns (tr @ evs) @ rs"
          "metricsCallbacks (snd (snd (generateBlocks gens log cb bs cap w' (tr @ evs))))
               = metricsCallbacks (tr @ evs) @ filter (\<lambda>(b, m). itemsGenerated m > 0) rs"
        by blast
      with Some gb Inr ev show ?thesis
        by (intro exI [of _ "generateReturns evs @ rs"])
           (simp add: generateReturns_append metricsCallbacks_append)
    qed
  qed
qed

lemma all_generators_present:
  "filter (\<lambda>b. initializeGenerators e m i o' r c b \<noteq> None) blockOrder = blockOrder"
  by (simp add: initializeGenerators_def blockOrder_def)

text \<open>
  The loop against the emission order in the words of the spec: the error that ended the
  run, if any, and the project it left are those of running the generators of the block
  names that have one, in the order of the loop.
\<close>

lemma generateBlock_state:
  "(case fst (generateBlock g log cb b out w) of Inl e \<Rightarrow> Some e | Inr x \<Rightarrow> None) =
     (case fst (generate g (log (''Generating '' @ getBlockName g @ ''...'') w)) of
        Inl e \<Rightarrow> Some e | Inr x \<Rightarrow> None)
   \<and> fst (snd (generateBlock g log cb b out w)) =
     (case generate g (log (''Generating '' @ getBlockName g @ ''...'') w) of
        (Inl e, w1) \<Rightarrow> w1
      | (Inr metrics, w1) \<Rightarrow>
          (case cb of
             None \<Rightarrow> w1
           | Some callback \<Rightarrow>
               if itemsGenerated metrics > 0 then callback b metrics w1 else w1))"
  by (simp add: generateBlock_def Let_def split: prod.splits sum.splits option.splits)

lemma generateBlocks_inOrder:
  "((case fst (generateBlocks gens log cb bs out w tr) of Inl e \<Rightarrow> Some e | Inr x \<Rightarrow> None),
    fst (snd (generateBlocks gens log cb bs out w tr)))
   = generateInOrder (List.map_filter (\<lambda>b. map_option (Pair b) (gens b)) bs) log cb w"
proof (induction bs arbitrary: out w tr)
  case Nil
  then show ?case by simp
next
  case (Cons b bs)
  show ?case
  proof (cases "gens b")
    case None
    with Cons.IH [of out w tr] show ?thesis by simp
  next
    case (Some g)
    obtain res w' evs where gb: "generateBlock g log cb b out w = (res, w', evs)"
      by (cases "generateBlock g log cb b out w")
    obtain r1 w1 where g1: "generate g (log (''Generating '' @ getBlockName g @ ''...'') w) = (r1, w1)"
      by (cases "generate g (log (''Generating '' @ getBlockName g @ ''...'') w)")
    from generateBlock_state [of g log cb b out w] gb g1
    have err: "(case res of Inl e \<Rightarrow> Some e | Inr x \<Rightarrow> None)
                 = (case r1 of Inl e \<Rightarrow> Some e | Inr x \<Rightarrow> None)"
      and st: "w' = (case r1 of Inl e \<Rightarrow> w1
                     | Inr metrics \<Rightarrow>
                         (case cb of None \<Rightarrow> w1
                          | Some callback \<Rightarrow>
                              if itemsGenerated metrics > 0 then callback b metrics w1 else w1))"
      by simp_all
    show ?thesis
    proof (cases r1)
      case (Inl e)
      with err have "res = Inl e" by (cases res) simp_all
      with Some gb g1 Inl st show ?thesis by simp
    next
      case (Inr metrics)
      with err obtain cap where res: "res = Inr cap" by (cases res) simp_all
      from Cons.IH [of cap w' "tr @ evs"] Some gb g1 Inr st res show ?thesis
        by simp
    qed
  qed
qed

lemma generateInOrder_silent:
  "generateInOrder gs log None w = (None, w') \<Longrightarrow>
   w' = foldl (\<lambda>w bg. snd (generate (snd bg) (log (''Generating '' @ getBlockName (snd bg) @ ''...'') w)))
          w gs"
proof (induction gs arbitrary: w)
  case Nil
  then show ?case by simp
next
  case (Cons bg gs)
  obtain b g where bg: "bg = (b, g)" by (cases bg)
  obtain r1 w1 where g1: "generate g (log (''Generating '' @ getBlockName g @ ''...'') w) = (r1, w1)"
    by (cases "generate g (log (''Generating '' @ getBlockName g @ ''...'') w)")
  from Cons.prems bg g1 obtain metrics where "r1 = Inr metrics"
    and "generateInOrder gs log None w1 = (None, w')"
    by (cases r1) simp_all
  from Cons.IH [OF this(2)] bg g1 show ?case by simp
qed

lemma six_generators_present:
  "List.map_filter (\<lambda>b. map_option (Pair b) (initializeGenerators e m i o' r c b)) blockOrder
     = [(''enums'', e), (''models'', m), (''outputs'', o'), (''inputs'', i),
        (''relationResolvers'', r), (''crudResolvers'', c)]"
  by (simp add: initializeGenerators_def blockOrder_def)

text \<open>
  C7. With the six generators of the factory, the \<open>generate\<close> calls of a run are made
  in the order enums, models, outputs, inputs, relationResolvers, crudResolvers: all six
  when no call throws, and the calls up to the one that threw otherwise. No call begins
  before the call before it has returned. The project the run leaves, and the error that
  ended it, are those of the generators run in this order, each on the project the one
  before it left; with no callback and no throw, the project is what the generator of
  the crud resolvers leaves of what the generator of the relation resolvers leaves, and
  so on down to the generator of the enumerations on the project the run began with.
\<close>

theorem generateAllBlocks_order:
  assumes "generateAllBlocks (initializeGenerators e m i o' r c) log cb w = (res, w', tr)"
  shows "prefix (generateCalls tr) blockOrder \<and> sequential tr
     \<and> (\<not> isl res \<longrightarrow> generateCalls tr = blockOrder)
     \<and> ((case res of Inl err \<Rightarrow> Some err | Inr x \<Rightarrow> None), w')
         = generateInOrder
             [(''enums'', e), (''models'', m), (''outputs'', o'), (''inputs'', i),
              (''relationResolvers'', r), (''crudResolvers'', c)] log cb w
     \<and> (\<not> isl res \<and> cb = None \<longrightarrow>
          w' = snd (generate c (log (''Generating '' @ getBlockName c @ ''...'')
                 (snd (generate r (log (''Generating '' @ getBlockName r @ ''...'')
                   (snd (generate i (log (''Generating '' @ getBlockName i @ ''...'')
                     (snd (generate o' (log (''Generating '' @ getBlockName o' @ ''...'')
                       (snd (generate m (log (''Generating '' @ getBlockName m @ ''...'')
                         (snd (generate e (log (''Generating '' @ getBlockName e @ ''...'')
                            w))))))))))))))))))"
proof -
  let ?gens = "initializeGenerators e m i o' r c"
  let ?six = "[(''enums'', e), (''models'', m), (''outputs'', o'), (''inputs'', i),
              (''relationResolvers'', r), (''crudResolvers'', c)]"
  from assms have run: "generateBlocks ?gens log cb blockOrder [] w [] = (res, w', tr)"
    by (simp only: generateAllBlocks_def)
  from generateBlocks_calls [of ?gens log cb blockOrder "[]" w "[]"]
  have calls: "prefix (generateCalls tr) blockOrder
      \<and> (\<not> isl res \<longrightarrow> generateCalls tr = blockOrder)"
    unfolding all_generators_present run by simp
  from generateBlocks_sequential [of "[]" ?gens log cb blockOrder "[]" w] assms
  have seq: "sequential tr" by (simp add: generateAllBlocks_def sequential_def)
  from generateBlocks_inOrder [of ?gens log cb blockOrder "[]" w "[]"]
  have order: "((case res of Inl err \<Rightarrow> Some err | Inr x \<Rightarrow> None), w')
         = generateInOrder ?six log cb w"
    unfolding run six_generators_present by simp
  have "w' = snd (generate c (log (''Generating '' @ getBlockName c @ ''...'')
                 (snd (generate r (log (''Generating '' @ getBlockName r @ ''...'')
                   (snd (generate i (log (''Generating '' @ getBlockName i @ ''...'')
                     (snd (generate o' (log (''Generating '' @ getBlockName o' @ ''...'')
                       (snd (generate m (log (''Generating '' @ getBlockName m @ ''...'')
                         (snd (generate e (log (''Generating '' @ getBlockName e @ ''...'')
                            w)))))))))))))))))"
    if ok: "\<not> isl res" and silent: "cb = None"
  proof -
    from ok obtain x where "res = Inr x" by (cases res) simp_all
    with order silent have "generateInOrder ?six log None w = (None, w')" by simp
    from generateInOrder_silent [OF this] show ?thesis by simp
  qed
  with calls seq order show ?thesis by blast
qed

theorem generateAllBlocks_order_witness:
  "\<not> isl (fst exampleSilentRun)
   \<and> generateCalls (snd (snd exampleSilentRun))
      = [''enums'', ''models'', ''outputs'', ''inputs'', ''relationResolvers'', ''crudResolvers'']
   \<and> sequential (snd (snd exampleSilentRun))
   \<and> fst (snd exampleSilentRun)
      = [''EnumBlockGenerator'', ''ModelBlockGenerator'', ''OutputBlockGenerator'',
         ''InputBlockGenerator'', ''RelationResolverBlockGenerator'',
         ''CrudResolverBlockGenerator'']"
proof -
  have r: "generateAllBlocks
       (initializeGenerators
          (exampleGenerator ''EnumBlockGenerator'' ''enums'' 2)
          (exampleGenerator ''ModelBlockGenerator'' ''models'' 3)
          (exampleGenerator ''InputBlockGenerator'' ''inputs'' 0)
          (exampleGenerator ''OutputBlockGenerator'' ''outputs'' 0)
          (exampleGenerator ''RelationResolverBlockGenerator'' ''relationResolvers'' 0)
          (exampleGenerator ''CrudResolverBlockGenerator'' ''crudResolvers'' 0))
       (\<lambda>msg w. w) None []
     = (fst exampleSilentRun, fst (snd exampleSilentRun), snd (snd exampleSilentRun))"
    by (simp add: exampleSilentRun_def exampleGenerators_def)
  have s: "\<not> isl (fst exampleSilentRun)" by code_simp
  from generateAllBlocks_order [OF r] s show ?thesis
    by (simp add: blockOrder_def exampleGenerator_def)
qed

text \<open>
  C9. When a callback is passed, a block that has a generator leaves the project its
  \<open>generate\<close> left, with the callback applied to it, on the name of the block and
  the metrics returned, exactly when \<open>generate\<close> returned metrics with
  \<open>itemsGenerated > 0\<close>; a block name without a generator is skipped, and the
  callback is not applied for it. So the run leaves the project of the emission order
  in the words of the spec, and the callbacks of its trace are the metrics returned
  with \<open>itemsGenerated > 0\<close>, once each, in the order of the calls.
\<close>

theorem metricsCallback_iff_items:
  assumes "generateAllBlocks gens log (Some callback) w = (res, w', tr)"
  shows "metricsCallbacks tr = filter (\<lambda>(b, m). itemsGenerated m > 0) (generateReturns tr)
     \<and> ((case res of Inl err \<Rightarrow> Some err | Inr x \<Rightarrow> None), w')
         = generateInOrder (List.map_filter (\<lambda>b. map_option (Pair b) (gens b)) blockOrder)
             log (Some callback) w
     \<and> fst (snd (generateBlock g log (Some callback) b out w0)) =
         (case generate g (log (''Generating '' @ getBlockName g @ ''...'') w0) of
            (Inl err, w1) \<Rightarrow> w1
          | (Inr metrics, w1) \<Rightarrow>
              if itemsGenerated metrics > 0 then callback b metrics w1 else w1)"
proof -
  from generateBlocks_callbacks [of "Some callback" gens log blockOrder "[]" w "[]"] assms
  have "metricsCallbacks tr = filter (\<lambda>(b, m). itemsGenerated m > 0) (generateReturns tr)"
    by (auto simp: generateAllBlocks_def)
  moreover from generateBlocks_inOrder [of gens log "Some callback" blockOrder "[]" w "[]"] assms
  have "((case res of Inl err \<Rightarrow> Some err | Inr x \<Rightarrow> None), w')
         = generateInOrder (List.map_filter (\<lambda>b. map_option (Pair b) (gens b)) blockOrder)
             log (Some callback) w"
    by (simp add: generateAllBlocks_def)
  moreover
  have "fst (snd (generateBlock g log (Some callback) b out w0)) =
         (case generate g (log (''Generating '' @ getBlockName g @ ''...'') w0) of
            (Inl err, w1) \<Rightarrow> w1
          | (Inr metrics, w1) \<Rightarrow>
              if itemsGenerated metrics > 0 then callback b metrics w1 else w1)"
    by (simp add: generateBlock_def Let_def split: prod.splits sum.splits)
  ultimately show ?thesis by blast
qed

theorem metricsCallback_iff_items_witness:
  "map fst (generateReturns (snd (snd exampleBlocksRun)))
     = [''enums'', ''models'', ''outputs'', ''inputs'', ''relationResolvers'', ''crudResolvers'']
   \<and> map (itemsGenerated \<circ> snd) (generateReturns (snd (snd exampleBlocksRun)))
     = [2, 3, 0, 0, 0, 0]
   \<and> map fst (metricsCallbacks (snd (snd exampleBlocksRun))) = [''enums'', ''models'']
   \<and> fst (snd exampleBlocksRun)
     = [''EnumBlockGenerator'', ''callback for enums'', ''ModelBlockGenerator'',
        ''callback for models'', ''OutputBlockGenerator'', ''InputBlockGenerator'',
        ''RelationResolverBlockGenerator'', ''CrudResolverBlockGenerator'']"
proof -
  have r: "generateAllBlocks exampleGenerators (\<lambda>msg w. w) (Some exampleCallback) []
     = (fst exampleBlocksRun, fst (snd exampleBlocksRun), snd (snd exampleBlocksRun))"
    by (simp add: exampleBlocksRun_def)
  have e: "map fst (generateReturns (snd (snd exampleBlocksRun)))
     = [''enums'', ''models'', ''outputs'', ''inputs'', ''relationResolvers'', ''crudResolvers'']
   \<and> map (itemsGenerated \<circ> snd) (generateReturns (snd (snd exampleBlocksRun)))
     = [2, 3, 0, 0, 0, 0]
   \<and> map fst (filter (\<lambda>(b, m). itemsGenerated m > 0) (generateReturns (snd (snd exampleBlocksRun))))
     = [''enums'', ''models'']
   \<and> snd (generateInOrder
        (List.map_filter (\<lambda>b. map_option (Pair b) (exampleGenerators b)) blockOrder)
        (\<lambda>msg w. w) (Some exampleCallback) [])
     = [''EnumBlockGenerator'', ''callback for enums'', ''ModelBlockGenerator'',
        ''callback for models'', ''OutputBlockGenerator'', ''InputBlockGenerator'',
        ''RelationResolverBlockGenerator'', ''CrudResolverBlockGenerator'']"
    by code_simp
  from metricsCallback_iff_items [OF r, THEN conjunct1] have
    m: "metricsCallbacks (snd (snd exampleBlocksRun))
          = filter (\<lambda>(b, m). itemsGenerated m > 0) (generateReturns (snd (snd exampleBlocksRun)))" .
  from metricsCallback_iff_items [OF r, THEN conjunct2, THEN conjunct1] have
    s: "fst (snd exampleBlocksRun) = snd (generateInOrder
        (List.map_filter (\<lambda>b. map_option (Pair b) (exampleGenerators b)) blockOrder)
        (\<lambda>msg w. w) (Some exampleCallback) [])"
    by (simp add: prod_eq_iff)
  from e show ?thesis unfolding m s by blast
qed

section \<open>A failing formatter\<close>

lemma tryFormat_failure:
  assumes "execa env (formatCommand env tool baseDirPath (outputTree st)) (outputTree st)
             = (Some msg, tree')"
  shows "tryFormat env tool baseDirPath st
     = (Some msg, st\<lparr> outputTree := tree',
                      logged := logged st @ [''Formatting generated code with '' @ toolName tool] \<rparr>)"
  using assms by (simp add: tryFormat_def logMsg_def Let_def)

lemma formatGeneratedCode_failure:
  assumes "execa env (formatCommand env tool baseDirPath (outputTree st)) (outputTree st)
             = (Some msg, tree')"
  shows "formatGeneratedCode env (Some tool) baseDirPath st
     = st\<lparr> outputTree := tree',
           logged := logged st @ [''Formatting generated code with '' @ toolName tool,
                                  ''Warning: Code formatting failed: '' @ msg] \<rparr>"
  by (simp add: formatGeneratedCode_def tryFormat_failure [OF assms] logMsg_def)

text \<open>
  C8, as stated, fails in its last part. The project is saved as two files; the formatter
  rewrites the first, throws on the second, and the run ends without an error: the tree
  it leaves is not the tree that was saved.
\<close>

theorem formatter_alters_tree_counterexample:
  "projectSave rewritingFormatterEnv (outputTree emptyRunState)
     = (None, [(''a.ts'', ''raw''), (''b.ts'', ''raw'')])
   \<and> fst (emitFinalCode rewritingFormatterEnv False (Some Prettier) ''out'' emptyRunState) = None
   \<and> outputTree (snd (emitFinalCode rewritingFormatterEnv False (Some Prettier) ''out''
                        emptyRunState))
      = [(''a.ts'', ''formatted''), (''b.ts'', ''raw'')]
   \<and> last (logged (snd (emitFinalCode rewritingFormatterEnv False (Some Prettier) ''out''
                          emptyRunState)))
      = ''Warning: Code formatting failed: SyntaxError in b.ts''"
  by code_simp

text \<open>
  C8, amended. When the project has been written to the output tree and the formatter's
  command throws, the run does not end in an error: the message of the error is logged
  as a warning, the metrics \<open>code-emission\<close> and \<open>total-generation\<close> are still
  emitted, and the output tree is the tree the command left; the handler touches
  nothing.
\<close>

theorem formatting_failure_not_fatal:
  assumes persisted:
      "(if emitTranspiledCode then projectEmit env (outputTree st)
        else projectSave env (outputTree st)) = (None, tree)"
    and failed: "execa env (formatCommand env tool baseDirPath tree) tree = (Some msg, tree')"
  shows "\<exists>st'. emitFinalCode env emitTranspiledCode (Some tool) baseDirPath st = (None, st')
     \<and> outputTree st' = tree'
     \<and> logged st' =
         logged st @
           [''Emitting final code'',
            (if emitTranspiledCode then ''Transpiling generated code''
             else ''Saving generated code''),
            ''Formatting generated code with '' @ toolName tool,
            ''Warning: Code formatting failed: '' @ msg]
     \<and> emitted st' =
         emitted st @
           (if hasMetricsListener env
            then (if emitTranspiledCode then [] else [''save-files''])
                 @ [''code-emission'', ''total-generation'']
            else [])"
proof -
  let ?st3 = "st\<lparr> logged := logged st @ [''Emitting final code'',
                  (if emitTranspiledCode then ''Transpiling generated code''
                   else ''Saving generated code'')], outputTree := tree \<rparr>"
  let ?st4 = "(if emitTranspiledCode then ?st3 else emitMetric env ''save-files'' ?st3)"
  have t4: "outputTree ?st4 = tree" by (simp add: emitMetric_def)
  have f: "formatGeneratedCode env (Some tool) baseDirPath ?st4
     = ?st4\<lparr> outputTree := tree',
           logged := logged ?st4 @ [''Formatting generated code with '' @ toolName tool,
                                  ''Warning: Code formatting failed: '' @ msg] \<rparr>"
    by (rule formatGeneratedCode_failure) (simp only: t4 failed)
  have "emitFinalCode env emitTranspiledCode (Some tool) baseDirPath st
     = (None, emitMetric env ''total-generation'' (emitMetric env ''code-emission''
          (formatGeneratedCode env (Some tool) baseDirPath ?st4)))"
    using persisted by (auto simp: emitFinalCode_def logMsg_def Let_def split: if_splits)
  then show ?thesis
    unfolding f by (auto simp: emitMetric_def)
qed

theorem formatting_failure_not_fatal_witness:
  "projectSave failingFormatterEnv (outputTree initialRunState) = (None, [''index.ts''])
   \<and> execa failingFormatterEnv
        (formatCommand failingFormatterEnv Prettier ''out'' [''index.ts'']) [''index.ts'']
      = (Some ''spawn npx ENOENT'', [''index.ts''])
   \<and> fst (emitFinalCode failingFormatterEnv False (Some Prettier) ''out'' initialRunState) = None
   \<and> outputTree (snd (emitFinalCode failingFormatterEnv False (Some Prettier) ''out''
                        initialRunState)) = [''index.ts'']
   \<and> last (logged (snd (emitFinalCode failingFormatterEnv False (Some Prettier) ''out''
                          initialRunState)))
      = ''Warning: Code formatting failed: spawn npx ENOENT''"
proof -
  have p: "(if False then projectEmit failingFormatterEnv (outputTree initialRunState)
            else projectSave failingFormatterEnv (outputTree initialRunState))
           = (None, [''index.ts''])"
    by (simp add: failingFormatterEnv_def initialRunState_def)
  have x: "execa failingFormatterEnv
        (formatCommand failingFormatterEnv Prettier ''out'' [''index.ts'']) [''index.ts'']
      = (Some ''spawn npx ENOENT'', [''index.ts''])"
    by (simp add: failingFormatterEnv_def)
  from formatting_failure_not_fatal [OF p x] p x show ?thesis by auto
qed

end
